(* ===== verification/Prelude.thy ===== *)
theory Prelude
  imports Main "HOL-Library.Word"
begin

text \<open>
  Shared vocabulary of the development: the machine integers and byte strings of the Go
  sources, the counting maps of the JavaScript tracers, a few executable helpers of the two
  languages, and the generic lemmas that the component theories reuse.

  Conventions.  A Go \<open>byte\<close>, \<open>uint64\<close>, \<open>uint256.Int\<close>, \<open>common.Address\<close> and
  \<open>common.Hash\<close> is a word of its width (8, 64, 256, 160 and 256 bits); a \<open>[]byte\<close> is a list
  of bytes (a nil slice is the empty list); a \<open>*big.Int\<close> is an \<open>int\<close>.  A Go operation that
  can panic returns an option whose \<open>None\<close> is the panic.
\<close>

section \<open>Types\<close>

type_synonym byte = "8 word"
type_synonym bytes = "byte list"
type_synonym u32 = "32 word"
type_synonym u64 = "64 word"
type_synonym u256 = "256 word"
type_synonym address = "160 word"
type_synonym hash = "256 word"

named_theorems js_defs \<open>definitions of the JavaScript tracers\<close>
named_theorems vm_defs \<open>definitions of the virtual machine\<close>

section \<open>Numbers of JavaScript\<close>

text \<open>
  A JavaScript number that is a non-negative integer is a \<open>nat\<close>.  Doubles hold every integer
  up to \<open>2 ^ 53\<close>; \<open>x++\<close> on \<open>2 ^ 53\<close> rounds \<open>2 ^ 53 + 1\<close> back to \<open>2 ^ 53\<close> (ties to even), so a
  counter saturates there.
\<close>

definition js_max :: nat where
  "js_max = 2 ^ 53"

definition js_incr :: "nat \<Rightarrow> nat" where
  "js_incr n = (if n < js_max then n + 1 else n)"

text \<open>Number of binary digits of a natural number.\<close>

fun bit_len :: "nat \<Rightarrow> nat" where
  "bit_len n = (if n = 0 then 0 else Suc (bit_len (n div 2)))"

declare bit_len.simps [simp del]

text \<open>The double nearest to an integer, ties to even (53 significant bits).\<close>

definition js_round :: "nat \<Rightarrow> nat" where
  "js_round n =
     (if bit_len n \<le> 53 then n
      else let k = bit_len n - 53; q = n div 2 ^ k; r = n mod 2 ^ k; h = 2 ^ (k - 1)
           in if r < h \<or> (r = h \<and> even q) then q * 2 ^ k else (q + 1) * 2 ^ k)"

definition js_add :: "nat \<Rightarrow> nat \<Rightarrow> nat" where
  "js_add a b = js_round (a + b)"

lemma js_incr_le: "js_incr n \<le> n + 1"
  by (simp add: js_incr_def)

lemma js_incr_pos [simp]: "0 < js_incr n"
  by (simp add: js_incr_def js_max_def)

lemma js_incr_iterate: "n \<le> js_max \<Longrightarrow> (js_incr ^^ k) n = min js_max (n + k)"
  by (induction k) (auto simp: js_incr_def)

lemma bit_len_less: "n < 2 ^ bit_len n"
proof (induction n rule: bit_len.induct)
  case (1 n)
  show ?case
  proof (cases "n = 0")
    case True
    then show ?thesis by (simp add: bit_len.simps)
  next
    case False
    with "1.IH" have "n div 2 < 2 ^ bit_len (n div 2)" by simp
    then have "n < 2 * 2 ^ bit_len (n div 2)" by linarith
    with False show ?thesis by (simp add: bit_len.simps [of n])
  qed
qed

lemma bit_len_le: "n < 2 ^ k \<Longrightarrow> bit_len n \<le> k"
proof (induction n arbitrary: k rule: bit_len.induct)
  case (1 n)
  show ?case
  proof (cases "n = 0")
    case True
    then show ?thesis by (simp add: bit_len.simps)
  next
    case False
    with "1.prems" obtain k' where k: "k = Suc k'" by (cases k) auto
    with "1.prems" have "n div 2 < 2 ^ k'" by simp
    with False "1.IH" have "bit_len (n div 2) \<le> k'" by blast
    with False k show ?thesis by (simp add: bit_len.simps [of n])
  qed
qed

lemma js_round_exact: "n < 2 ^ 53 \<Longrightarrow> js_round n = n"
  using bit_len_le [of n 53] by (simp add: js_round_def)

lemma js_add_exact: "a + b < 2 ^ 53 \<Longrightarrow> js_add a b = a + b"
  by (simp add: js_add_def js_round_exact)

section \<open>Sequencing of fallible steps\<close>

text \<open>Continue with the value, or stop with the error.\<close>

definition sbind :: "'e + 'a \<Rightarrow> ('a \<Rightarrow> 'e + 'b) \<Rightarrow> 'e + 'b" where
  "sbind r f = (case r of Inl e \<Rightarrow> Inl e | Inr x \<Rightarrow> f x)"

lemma sbind_simps [simp]: "sbind (Inl e) f = Inl e" "sbind (Inr x) f = f x"
  by (simp_all add: sbind_def)

lemma sbind_Inr: "sbind r f = Inr y \<longleftrightarrow> (\<exists>x. r = Inr x \<and> f x = Inr y)"
  by (cases r) simp_all

section \<open>Counting maps\<close>

text \<open>
  The statement \<open>if (this.hist[key]) { this.hist[key]++ } else { this.hist[key] = 1 }\<close> of the
  n-gram tracers.  An absent property is \<open>undefined\<close>, which is falsy, as is 0.
\<close>

definition hist_bump :: "('k \<rightharpoonup> nat) \<Rightarrow> 'k \<Rightarrow> ('k \<rightharpoonup> nat)" where
  "hist_bump h k =
     (case h k of
        Some n \<Rightarrow> if n \<noteq> 0 then h(k \<mapsto> js_incr n) else h(k \<mapsto> 1)
      | None \<Rightarrow> h(k \<mapsto> 1))"

text \<open>The map that a list of keys, counted one by one, must give.\<close>

definition hist_of :: "'k list \<Rightarrow> ('k \<rightharpoonup> nat)" where
  "hist_of ks k = (if k \<in> set ks then Some (min js_max (count_list ks k)) else None)"

lemma hist_of_Nil [simp]: "hist_of [] = Map.empty"
  by (auto simp: hist_of_def)

lemma count_list_pos: "k \<in> set ks \<Longrightarrow> 0 < count_list ks k"
  by (simp add: count_list_0_iff zero_less_iff_neq_zero)

lemma hist_of_count:
  "hist_of ks k = (let n = count_list ks k in if n = 0 then None else Some (min js_max n))"
  by (simp add: hist_of_def Let_def count_list_0_iff)

lemma hist_bump_hist_of: "hist_bump (hist_of ks) k = hist_of (ks @ [k])"
proof (rule ext)
  fix x
  have m: "1 \<le> js_max" by (simp add: js_max_def)
  show "hist_bump (hist_of ks) k x = hist_of (ks @ [k]) x"
  proof (cases "k \<in> set ks")
    case True
    then have "0 < count_list ks k" by (rule count_list_pos)
    with True m show ?thesis
      by (auto simp: hist_bump_def hist_of_def js_incr_def min_def)
  next
    case False
    then have "count_list ks k = 0" by simp
    with False m show ?thesis
      by (auto simp: hist_bump_def hist_of_def min_def)
  qed
qed

lemma hist_of_mono_dom: "dom (hist_of ks) = set ks"
  by (auto simp: hist_of_def dom_def)

section \<open>Strings\<close>

definition hex_digit :: "nat \<Rightarrow> char" where
  "hex_digit d = (''0123456789abcdef'') ! (d mod 16)"

text \<open>The verb \<open>%x\<close> of Go's package fmt on a byte: lower case, no leading zero.\<close>

definition hex_byte :: "byte \<Rightarrow> string" where
  "hex_byte b = (let n = unat b in if n < 16 then [hex_digit n] else [hex_digit (n div 16), hex_digit n])"

lemma hex_digit_in: "hex_digit d \<in> set ''0123456789abcdef''"
  unfolding hex_digit_def by (rule nth_mem) simp

lemma hex_byte_chars: "set (hex_byte b) \<subseteq> set ''0123456789abcdef''"
  using hex_digit_in by (auto simp: hex_byte_def Let_def)

section \<open>Bytes and words\<close>

lemma unat_byte_less [simp]: "unat (b :: byte) < 256"
  using unsigned_less [of b] by (simp flip: of_nat_less_iff)

lemma hex_digit_inj: "hex_digit a = hex_digit b \<Longrightarrow> a mod 16 = b mod 16"
proof -
  have "distinct ''0123456789abcdef''" by simp
  then show "hex_digit a = hex_digit b \<Longrightarrow> a mod 16 = b mod 16"
    unfolding hex_digit_def by (subst (asm) nth_eq_iff_index_eq) simp_all
qed

lemma hex_byte_inj: "hex_byte a = hex_byte b \<Longrightarrow> a = b"
proof -
  assume eq: "hex_byte a = hex_byte b"
  have small: "n div 16 mod 16 = n div 16" if "n < 256" for n :: nat using that by simp
  have "(unat a < 16) = (unat b < 16)" using eq by (auto simp: hex_byte_def Let_def split: if_splits)
  then have "hex_digit (unat a) = hex_digit (unat b)" and d: "16 \<le> unat a \<Longrightarrow> hex_digit (unat a div 16) = hex_digit (unat b div 16)"
    using eq by (auto simp: hex_byte_def Let_def split: if_splits)
  then have m: "unat a mod 16 = unat b mod 16" by (intro hex_digit_inj)
  have "unat a div 16 = unat b div 16"
  proof (cases "unat a < 16")
    case True
    with \<open>(unat a < 16) = (unat b < 16)\<close> show ?thesis by simp
  next
    case False
    then have "unat a div 16 mod 16 = unat b div 16 mod 16" by (intro hex_digit_inj d) simp
    then show ?thesis unfolding small [OF unat_byte_less] .
  qed
  with m have "unat a = unat b" by (metis div_mult_mod_eq)
  then show ?thesis by (simp only: word_unat_eq_iff)
qed

lemma unat_u64_less [simp]: "unat (x :: u64) < 18446744073709551616"
  using unsigned_less [of x] by (simp flip: of_nat_less_iff)

lemma unat_u32_less: "unat (x :: u32) < 4294967296"
  using unsigned_less [of x] by (simp flip: of_nat_less_iff)

lemma unat_widen: "unat (ucast (x :: u32) :: u64) = unat x"
  using unat_u32_less [of x] by (simp add: unsigned_ucast_eq take_bit_nat_eq_self)

lemma sint_u64: "unat (x :: u64) < 2 ^ 63 \<Longrightarrow> sint x = int (unat x)"
proof -
  assume "unat x < 2 ^ 63"
  then have "int (unat x) < int (2 ^ 63)" by (simp only: of_nat_less_iff)
  then have "uint x < 2 ^ 63" by simp
  then have "signed_take_bit 63 (uint x) = uint x" by (intro signed_take_bit_int_eq_self order_trans [OF _ uint_ge_0]) simp_all
  then show ?thesis by (simp add: sint_uint)
qed

text \<open>Big-endian reading of a byte string, and the bytes of a word, most significant first.\<close>

fun be_nat :: "bytes \<Rightarrow> nat" where
  "be_nat [] = 0"
| "be_nat (b # bs) = unat b * 256 ^ length bs + be_nat bs"

definition be_word :: "bytes \<Rightarrow> 'a::len word" where
  "be_word bs = of_nat (be_nat bs)"

fun nat_be :: "nat \<Rightarrow> nat \<Rightarrow> bytes" where
  "nat_be 0 n = []"
| "nat_be (Suc k) n = nat_be k (n div 256) @ [of_nat (n mod 256)]"

lemma length_nat_be [simp]: "length (nat_be k n) = k"
  by (induction k arbitrary: n) auto

lemma be_nat_snoc: "be_nat (bs @ [b]) = be_nat bs * 256 + unat b"
  by (induction bs) (auto simp: algebra_simps)

lemma be_nat_nat_be: "be_nat (nat_be k n) = n mod 256 ^ k"
proof (induction k arbitrary: n)
  case 0
  show ?case by simp
next
  case (Suc k)
  have "unat (of_nat (n mod 256) :: byte) = n mod 256"
    by (simp add: unat_of_nat)
  with Suc show ?case
    by (simp add: be_nat_snoc mod_mult2_eq algebra_simps)
qed

lemma be_nat_less: "be_nat bs < 256 ^ length bs"
proof (induction bs)
  case Nil
  show ?case by simp
next
  case (Cons b bs)
  have "unat b + 1 \<le> 256" using unat_byte_less [of b] by linarith
  then have "(unat b + 1) * 256 ^ length bs \<le> 256 * 256 ^ length bs"
    by (rule mult_le_mono1)
  then have "unat b * 256 ^ length bs + 256 ^ length bs \<le> 256 * 256 ^ length bs"
    by (simp only: add_mult_distrib mult_1)
  with Cons have "unat b * 256 ^ length bs + be_nat bs < 256 * 256 ^ length bs"
    by linarith
  then show ?case by simp
qed

text \<open>Truncation of a \<open>uint256\<close> to its low 64 or 160 bits (\<open>Uint64\<close>, \<open>Bytes20\<close>).\<close>

definition Uint64 :: "u256 \<Rightarrow> u64" where
  "Uint64 x = ucast x"

definition IsUint64 :: "u256 \<Rightarrow> bool" where
  "IsUint64 x \<longleftrightarrow> unat x < 2 ^ 64"

definition Bytes20 :: "u256 \<Rightarrow> address" where
  "Bytes20 x = ucast x"

lemma unat_Uint64: "IsUint64 x \<Longrightarrow> unat (Uint64 x) = unat x"
  by (simp add: Uint64_def IsUint64_def unsigned_ucast_eq take_bit_nat_eq_self)

section \<open>Lists\<close>

text \<open>Zero padding on the right (\<open>make([]byte, n)\<close> followed by \<open>copy\<close>).\<close>

definition pad_right :: "nat \<Rightarrow> bytes \<Rightarrow> bytes" where
  "pad_right n bs = take n bs @ replicate (n - length bs) 0"

lemma length_pad_right [simp]: "length (pad_right n bs) = n"
  by (simp add: pad_right_def)

text \<open>Go's \<open>copy(dst[off:off+n], src)\<close> on the backing list of \<open>dst\<close>.\<close>

definition copy_at :: "nat \<Rightarrow> nat \<Rightarrow> 'a list \<Rightarrow> 'a list \<Rightarrow> 'a list" where
  "copy_at off n dst src =
     take off dst @ take n src @ drop (off + min n (length src)) dst"

lemma length_copy_at [simp]: "off + n \<le> length dst \<Longrightarrow> length (copy_at off n dst src) = length dst"
  by (auto simp: copy_at_def min_def)

lemma nth_copy_at:
  assumes "off + n \<le> length dst" and "i < length dst"
  shows "copy_at off n dst src ! i =
    (if off \<le> i \<and> i < off + min n (length src) then src ! (i - off) else dst ! i)"
  using assms by (auto simp: copy_at_def nth_append min_def)

end
