(* ===== verification/StackedMaps.thy ===== *)
theory StackedMaps
  imports Prelude "HOL-Library.Monad_Syntax" "HOL-Library.AList"
begin

text \<open>
  The stacked map (src/stackedmap/stackedmap.go): a map with save and revert, which the state and the
  state database keep their changes in.

  A Go map of a level is an association list with distinct keys; the key index of the struct and
  its panics (an index out of range, a missing entry) are modelled.  The source of the map is an
  argument of \<open>Get\<close>: it returns an error, a value, or no value.  The section on the specification
  gives the abstract value, a stack of plain maps; the locale \<open>snapshot_store\<close> is the contract that
  the clients rely on, interpreted on the three operations.
\<close>

section \<open>The data structure\<close>

record ('k, 'v) level =
  kvs :: "('k \<times> 'v) list"
  journal :: "('k \<times> 'v) list"

definition newLevel :: "('k, 'v) level" where
  "newLevel = \<lparr>kvs = [], journal = []\<rparr>"

text \<open>A source returns an error, a value or no value; \<open>None\<close> is a panic.\<close>

type_synonym ('k, 'v, 'e) MapGetter = "'k \<Rightarrow> ('e + 'v option) option"

record ('k, 'v) StackedMap =
  mapStack :: "('k, 'v) level list"
  keyRevisionMap :: "'k \<rightharpoonup> nat list"

definition NewStackedMap :: "('k, 'v) StackedMap" where
  "NewStackedMap = \<lparr>mapStack = [newLevel], keyRevisionMap = Map.empty\<rparr>"

definition Depth :: "('k, 'v) StackedMap \<Rightarrow> nat" where
  "Depth sm = length (mapStack sm)"

definition Push :: "('k, 'v) StackedMap \<Rightarrow> nat \<times> ('k, 'v) StackedMap" where
  "Push sm = (let st = mapStack sm @ [newLevel] in (length st - 1, sm\<lparr>mapStack := st\<rparr>))"

text \<open>The last element of a Go slice; the index is out of range when there is none.\<close>

definition stack_top :: "'a list \<Rightarrow> 'a option" where
  "stack_top s = (if s = [] then None else Some (last s))"

definition stack_pop :: "'a list \<Rightarrow> 'a list option" where
  "stack_pop s = (if s = [] then None else Some (butlast s))"

text \<open>The loop of \<open>Pop\<close> over the keys of the top level.\<close>

primrec pop_revisions :: "'k list \<Rightarrow> ('k \<rightharpoonup> nat list) \<Rightarrow> ('k \<rightharpoonup> nat list) option" where
  "pop_revisions [] krm = Some krm"
| "pop_revisions (key # keys) krm =
     do {
       revs \<leftarrow> krm key;
       revs \<leftarrow> stack_pop revs;
       pop_revisions keys (krm(key := if revs = [] then None else Some revs))
     }"

definition Pop :: "('k, 'v) StackedMap \<Rightarrow> ('k, 'v) StackedMap option" where
  "Pop sm =
     do {
       top \<leftarrow> stack_top (mapStack sm);
       krm \<leftarrow> pop_revisions (map fst (kvs top)) (keyRevisionMap sm);
       st \<leftarrow> stack_pop (mapStack sm);
       Some (sm\<lparr>mapStack := st, keyRevisionMap := krm\<rparr>)
     }"

lemma Pop_length: "Pop sm = Some sm' \<Longrightarrow> length (mapStack sm') < length (mapStack sm)"
  by (auto simp: Pop_def stack_top_def stack_pop_def split: Option.bind_splits if_splits)

function PopTo :: "nat \<Rightarrow> ('k, 'v) StackedMap \<Rightarrow> ('k, 'v) StackedMap option" where
  "PopTo depth sm =
     (if length (mapStack sm) > depth
      then (case Pop sm of None \<Rightarrow> None | Some sm' \<Rightarrow> PopTo depth sm')
      else Some sm)"
  by auto
termination
  by (relation "measure (\<lambda>(_, sm). length (mapStack sm))") (auto dest: Pop_length)

declare PopTo.simps [simp del]

definition Get :: "('k, 'v, 'e) MapGetter \<Rightarrow> 'k \<Rightarrow> ('k, 'v) StackedMap \<Rightarrow> ('e + 'v option) option" where
  "Get src key sm =
     (case keyRevisionMap sm key of
        Some revs \<Rightarrow>
          do {
            rev \<leftarrow> stack_top revs;
            lvl \<leftarrow> (if rev < length (mapStack sm) then Some (mapStack sm ! rev) else None);
            case map_of (kvs lvl) key of Some v \<Rightarrow> Some (Inr (Some v)) | None \<Rightarrow> src key
          }
      | None \<Rightarrow> src key)"

definition Put :: "'k \<Rightarrow> 'v \<Rightarrow> ('k, 'v) StackedMap \<Rightarrow> ('k, 'v) StackedMap option" where
  "Put key val sm =
     do {
       top \<leftarrow> stack_top (mapStack sm);
       let top = top\<lparr>kvs := AList.update key val (kvs top), journal := journal top @ [(key, val)]\<rparr>;
           rev = length (mapStack sm) - 1;
           sm = sm\<lparr>mapStack := (mapStack sm)[rev := top]\<rparr>
       in case keyRevisionMap sm key of
            Some revs \<Rightarrow>
              do {
                r \<leftarrow> stack_top revs;
                Some (if r \<noteq> rev then sm\<lparr>keyRevisionMap := (keyRevisionMap sm)(key \<mapsto> revs @ [rev])\<rparr> else sm)
              }
          | None \<Rightarrow> Some (sm\<lparr>keyRevisionMap := (keyRevisionMap sm)(key \<mapsto> [rev])\<rparr>)
     }"

text \<open>
  The callback of \<open>Journal\<close> updates the variables \<open>'s\<close> of its closure and returns whether to go on;
  the flag of the result tells whether the traversal has reached the end.
\<close>

primrec journal_level :: "('k \<Rightarrow> 'v \<Rightarrow> 's \<Rightarrow> 's \<times> bool) \<Rightarrow> ('k \<times> 'v) list \<Rightarrow> 's \<Rightarrow> 's \<times> bool" where
  "journal_level cb [] s = (s, True)"
| "journal_level cb (entry # es) s =
     (let (s, go) = cb (fst entry) (snd entry) s in if \<not> go then (s, False) else journal_level cb es s)"

primrec journal_levels :: "('k \<Rightarrow> 'v \<Rightarrow> 's \<Rightarrow> 's \<times> bool) \<Rightarrow> ('k, 'v) level list \<Rightarrow> 's \<Rightarrow> 's \<times> bool" where
  "journal_levels cb [] s = (s, True)"
| "journal_levels cb (lvl # ls) s =
     (let (s, go) = journal_level cb (journal lvl) s in if \<not> go then (s, False) else journal_levels cb ls s)"

definition Journal :: "('k \<Rightarrow> 'v \<Rightarrow> 's \<Rightarrow> 's \<times> bool) \<Rightarrow> ('k, 'v) StackedMap \<Rightarrow> 's \<Rightarrow> 's" where
  "Journal cb sm s = fst (journal_levels cb (mapStack sm) s)"

section \<open>Specification\<close>

text \<open>
  The abstract value is the stack of the maps that are visible at each level, from the bottom: a
  put changes the top map, a push doubles it, a pop to a depth keeps the maps below it.  The journals
  of the levels are a second abstract value.
\<close>

definition visible :: "('k, 'v) level list \<Rightarrow> 'k \<rightharpoonup> 'v" where
  "visible ls = foldl (\<lambda>m l. m ++ map_of (kvs l)) Map.empty ls"

definition sm_maps :: "('k, 'v) StackedMap \<Rightarrow> ('k \<rightharpoonup> 'v) list" where
  "sm_maps sm = map (\<lambda>n. visible (take (Suc n) (mapStack sm))) [0..<length (mapStack sm)]"

definition sm_journals :: "('k, 'v) StackedMap \<Rightarrow> ('k \<times> 'v) list list" where
  "sm_journals sm = map journal (mapStack sm)"

text \<open>The levels that hold a key, in ascending order, and the index they make.\<close>

definition revisions :: "('k, 'v) level list \<Rightarrow> 'k \<Rightarrow> nat list" where
  "revisions ls key = filter (\<lambda>n. map_of (kvs (ls ! n)) key \<noteq> None) [0..<length ls]"

definition revision_map :: "('k, 'v) level list \<Rightarrow> 'k \<rightharpoonup> nat list" where
  "revision_map ls key = (if revisions ls key = [] then None else Some (revisions ls key))"

definition level_ok :: "('k, 'v) level \<Rightarrow> bool" where
  "level_ok l \<longleftrightarrow> distinct (map fst (kvs l)) \<and> map_of (kvs l) = map_of (rev (journal l))"

definition sm_ok :: "('k, 'v) StackedMap \<Rightarrow> bool" where
  "sm_ok sm \<longleftrightarrow> list_all level_ok (mapStack sm) \<and> keyRevisionMap sm = revision_map (mapStack sm)"

section \<open>Refinement\<close>

lemma visible_Nil [simp]: "visible [] = Map.empty"
  by (simp add: visible_def)

lemma visible_snoc [simp]: "visible (ls @ [l]) = visible ls ++ map_of (kvs l)"
  by (simp add: visible_def)

lemma revisions_Nil [simp]: "revisions [] key = []"
  by (simp add: revisions_def)

lemma revisions_snoc [simp]:
  "revisions (ls @ [l]) key = revisions ls key @ (if map_of (kvs l) key = None then [] else [length ls])"
proof -
  have "filter (\<lambda>n. map_of (kvs ((ls @ [l]) ! n)) key \<noteq> None) [0..<length ls] =
      filter (\<lambda>n. map_of (kvs (ls ! n)) key \<noteq> None) [0..<length ls]"
    by (rule filter_cong) (simp_all add: nth_append)
  then show ?thesis by (simp add: revisions_def)
qed

lemma revisions_less: "n \<in> set (revisions ls key) \<Longrightarrow> n < length ls"
  by (simp add: revisions_def)

lemma visible_revisions:
  "visible ls key =
     (if revisions ls key = [] then None else map_of (kvs (ls ! last (revisions ls key))) key)"
proof (induction ls rule: rev_induct)
  case Nil
  show ?case by simp
next
  case (snoc l ls)
  show ?case
  proof (cases "map_of (kvs l) key")
    case None
    have "(ls @ [l]) ! last (revisions ls key) = ls ! last (revisions ls key)" if "revisions ls key \<noteq> []"
      using revisions_less [OF last_in_set [OF that]] by (simp add: nth_append)
    with None snoc.IH show ?thesis by (simp add: map_add_def)
  next
    case (Some v)
    then show ?thesis by simp
  qed
qed

lemma Get_visible:
  assumes "sm_ok sm"
  shows "Get src key sm =
    (case visible (mapStack sm) key of Some v \<Rightarrow> Some (Inr (Some v)) | None \<Rightarrow> src key)"
proof (cases "revisions (mapStack sm) key = []")
  case True
  with assms show ?thesis by (simp add: Get_def sm_ok_def revision_map_def visible_revisions)
next
  case False
  then have "last (revisions (mapStack sm) key) < length (mapStack sm)" by (rule revisions_less [OF last_in_set])
  with False assms show ?thesis by (simp add: Get_def sm_ok_def revision_map_def visible_revisions stack_top_def)
qed

definition level_put :: "'k \<Rightarrow> 'v \<Rightarrow> ('k, 'v) level \<Rightarrow> ('k, 'v) level" where
  "level_put key val l = l\<lparr>kvs := AList.update key val (kvs l), journal := journal l @ [(key, val)]\<rparr>"

lemma level_put_ok [simp]: "level_ok l \<Longrightarrow> level_ok (level_put key val l)"
  by (auto simp: level_ok_def level_put_def distinct_update update_conv')

lemma level_put_lookup [simp]: "map_of (kvs (level_put key val l)) = (map_of (kvs l))(key \<mapsto> val)"
  by (simp add: level_put_def update_conv')

lemma Put_top:
  assumes "sm_ok sm" and "mapStack sm = ls @ [l]"
  shows "\<exists>sm'. Put key val sm = Some sm' \<and> sm_ok sm' \<and> mapStack sm' = ls @ [level_put key val l]"
proof -
  have krm: "revision_map (ls @ [level_put key val l]) =
      (if map_of (kvs l) key = None then (revision_map (ls @ [l]))(key \<mapsto> revisions ls key @ [length ls])
       else revision_map (ls @ [l]))"
    by (auto simp: revision_map_def fun_eq_iff)
  have last: "last (revisions ls key) \<noteq> length ls" if "revisions ls key \<noteq> []"
    using revisions_less [OF last_in_set [OF that]] by simp
  have top: "l\<lparr>kvs := AList.update key val (kvs l), journal := journal l @ [(key, val)]\<rparr> = level_put key val l"
    by (simp add: level_put_def)
  show ?thesis
  proof (cases "map_of (kvs l) key = None")
    case True
    then have rm: "revision_map (ls @ [l]) key = (if revisions ls key = [] then None else Some (revisions ls key))"
      by (simp add: revision_map_def)
    with True assms last show ?thesis
      by (cases "revisions ls key = []") (simp_all add: Put_def stack_top_def sm_ok_def krm Let_def top)
  next
    case False
    then have rm: "revision_map (ls @ [l]) key = Some (revisions ls key @ [length ls])" by (simp add: revision_map_def)
    with False assms show ?thesis by (auto simp: Put_def stack_top_def sm_ok_def krm Let_def top)
  qed
qed

lemma pop_revisions_eq:
  assumes "distinct keys" and "\<And>key. key \<in> set keys \<Longrightarrow> \<exists>revs. krm key = Some revs \<and> revs \<noteq> []"
  shows "pop_revisions keys krm =
    Some (\<lambda>key. if key \<in> set keys
                then (case krm key of Some revs \<Rightarrow> if butlast revs = [] then None else Some (butlast revs) | None \<Rightarrow> None)
                else krm key)"
  using assms
proof (induction keys arbitrary: krm)
  case Nil
  show ?case by simp
next
  case (Cons key keys)
  obtain revs where revs: "krm key = Some revs" "revs \<noteq> []" using Cons.prems(2) [of key] by auto
  have "pop_revisions keys (krm(key := if butlast revs = [] then None else Some (butlast revs))) =
    Some (\<lambda>k. if k \<in> set keys
              then (case krm k of Some revs \<Rightarrow> if butlast revs = [] then None else Some (butlast revs) | None \<Rightarrow> None)
              else (krm(key := if butlast revs = [] then None else Some (butlast revs))) k)"
    using Cons.prems by (subst Cons.IH) (auto simp: fun_eq_iff)
  then show ?case using revs Cons.prems(1) by (auto simp: stack_pop_def fun_eq_iff)
qed

lemma Pop_top:
  assumes "sm_ok sm" and "mapStack sm = ls @ [l]"
  shows "\<exists>sm'. Pop sm = Some sm' \<and> sm_ok sm' \<and> mapStack sm' = ls"
proof -
  have d: "distinct (map fst (kvs l))" using assms by (simp add: sm_ok_def level_ok_def)
  have k: "key \<in> set (map fst (kvs l)) \<longleftrightarrow> map_of (kvs l) key \<noteq> None" for key by (simp add: map_of_eq_None_iff)
  have "pop_revisions (map fst (kvs l)) (revision_map (ls @ [l])) = Some (revision_map ls)"
    by (subst pop_revisions_eq [OF d]) (auto simp: k revision_map_def fun_eq_iff simp del: set_map)
  then have "pop_revisions (map fst (kvs l)) (keyRevisionMap sm) = Some (revision_map ls)"
    using assms by (simp add: sm_ok_def)
  with assms show ?thesis by (simp add: Pop_def stack_top_def stack_pop_def sm_ok_def)
qed

lemma PopTo_take:
  "sm_ok sm \<Longrightarrow> \<exists>sm'. PopTo depth sm = Some sm' \<and> sm_ok sm' \<and> mapStack sm' = take depth (mapStack sm)"
proof (induction depth sm rule: PopTo.induct)
  case (1 depth sm)
  show ?case
  proof (cases "length (mapStack sm) > depth")
    case True
    then obtain ls l where ls: "mapStack sm = ls @ [l]" by (metis append_butlast_last_id length_0_conv not_less0)
    obtain sm' where sm': "Pop sm = Some sm'" "sm_ok sm'" "mapStack sm' = ls" using Pop_top [OF "1.prems" ls] by blast
    from "1.IH" [OF True sm'(1,2)] sm' ls True show ?thesis by (subst PopTo.simps) auto
  next
    case False
    with "1.prems" show ?thesis by (subst PopTo.simps) simp
  qed
qed

lemma sm_maps_nth [simp]: "n < Depth sm \<Longrightarrow> sm_maps sm ! n = visible (take (Suc n) (mapStack sm))"
  by (simp add: sm_maps_def Depth_def)

lemma length_sm_maps [simp]: "length (sm_maps sm) = Depth sm"
  by (simp add: sm_maps_def Depth_def)

lemma sm_maps_append:
  assumes "mapStack sm = ls @ [l]" and "mapStack sm' = ls @ [l']"
  shows "sm_maps sm' = butlast (sm_maps sm) @ [visible ls ++ map_of (kvs l')]"
proof (rule nth_equalityI)
  show "length (sm_maps sm') = length (butlast (sm_maps sm) @ [visible ls ++ map_of (kvs l')])"
    using assms by (simp add: Depth_def)
  fix n
  assume "n < length (sm_maps sm')"
  then have "n < length ls \<or> n = length ls" using assms by (auto simp: Depth_def)
  then show "sm_maps sm' ! n = (butlast (sm_maps sm) @ [visible ls ++ map_of (kvs l')]) ! n"
    using assms by (auto simp: nth_append nth_butlast Depth_def)
qed

lemma sm_maps_take: "mapStack sm' = take d (mapStack sm) \<Longrightarrow> sm_maps sm' = take d (sm_maps sm)"
  by (rule nth_equalityI) (simp_all add: sm_maps_def min_absorb1)

lemma last_sm_maps: "mapStack sm \<noteq> [] \<Longrightarrow> last (sm_maps sm) = visible (mapStack sm)"
  by (subst last_conv_nth) (auto simp: Depth_def sm_maps_def)

lemma Get_maps:
  assumes "sm_ok sm" and "sm_maps sm \<noteq> []"
  shows "Get src key sm = (case last (sm_maps sm) key of Some v \<Rightarrow> Some (Inr (Some v)) | None \<Rightarrow> src key)"
proof -
  have "mapStack sm \<noteq> []" using assms(2) by (auto simp: sm_maps_def)
  from last_sm_maps [OF this] Get_visible [OF assms(1)] show ?thesis by simp
qed

section \<open>The contract\<close>

text \<open>The commands of a client, and their execution through an implementation of the three operations.\<close>

datatype ('k, 'v) command = Do_Put 'k 'v | Do_Push | Do_PopTo nat

primrec run_command ::
    "('k \<Rightarrow> 'v \<Rightarrow> 's \<Rightarrow> 's option) \<Rightarrow> ('s \<Rightarrow> nat \<times> 's) \<Rightarrow> (nat \<Rightarrow> 's \<Rightarrow> 's option) \<Rightarrow> ('k, 'v) command \<Rightarrow> 's \<Rightarrow> 's option" where
  "run_command put push popTo (Do_Put key val) s = put key val s"
| "run_command put push popTo Do_Push s = Some (snd (push s))"
| "run_command put push popTo (Do_PopTo d) s = popTo d s"

primrec run_commands ::
    "('k \<Rightarrow> 'v \<Rightarrow> 's \<Rightarrow> 's option) \<Rightarrow> ('s \<Rightarrow> nat \<times> 's) \<Rightarrow> (nat \<Rightarrow> 's \<Rightarrow> 's option) \<Rightarrow> ('k, 'v) command list \<Rightarrow> 's \<Rightarrow> 's option" where
  "run_commands put push popTo [] s = Some s"
| "run_commands put push popTo (c # cs) s =
     do { s \<leftarrow> run_command put push popTo c s; run_commands put push popTo cs s }"

fun stays_above :: "nat \<Rightarrow> ('k, 'v) command \<Rightarrow> bool" where
  "stays_above r (Do_PopTo d) \<longleftrightarrow> r \<le> d"
| "stays_above r c \<longleftrightarrow> True"

locale snapshot_store =
  fixes ok :: "'s \<Rightarrow> bool" and maps :: "'s \<Rightarrow> ('k \<rightharpoonup> 'v) list" and journals :: "'s \<Rightarrow> ('k \<times> 'v) list list"
    and put :: "'k \<Rightarrow> 'v \<Rightarrow> 's \<Rightarrow> 's option" and push :: "'s \<Rightarrow> nat \<times> 's" and popTo :: "nat \<Rightarrow> 's \<Rightarrow> 's option"
  assumes put: "ok s \<Longrightarrow> maps s \<noteq> [] \<Longrightarrow>
      \<exists>s'. put key val s = Some s' \<and> ok s' \<and> maps s' = butlast (maps s) @ [(last (maps s))(key \<mapsto> val)] \<and>
        journals s' = butlast (journals s) @ [last (journals s) @ [(key, val)]]"
    and push: "ok s \<Longrightarrow> maps s \<noteq> [] \<Longrightarrow>
      \<exists>s'. push s = (length (maps s), s') \<and> ok s' \<and> maps s' = maps s @ [last (maps s)] \<and> journals s' = journals s @ [[]]"
    and popTo: "ok s \<Longrightarrow>
      \<exists>s'. popTo d s = Some s' \<and> ok s' \<and> maps s' = take d (maps s) \<and> journals s' = take d (journals s)"
    and length_journals: "ok s \<Longrightarrow> length (journals s) = length (maps s)"
begin

abbreviation below :: "nat \<Rightarrow> 's \<Rightarrow> ('k \<rightharpoonup> 'v) list \<times> ('k \<times> 'v) list list" where
  "below r s \<equiv> (take r (maps s), take r (journals s))"

lemma run_command_above:
  assumes "ok s" and "r < length (maps s)" and "0 < r" and "stays_above (Suc r) c"
  shows "\<exists>s'. run_command put push popTo c s = Some s' \<and> ok s' \<and> r < length (maps s') \<and> below r s' = below r s"
proof (cases c)
  case (Do_Put key val)
  have ne: "maps s \<noteq> []" using assms(2,3) by auto
  from put [OF assms(1) this, of key val] obtain s' where
    s': "put key val s = Some s'" "ok s'" "maps s' = butlast (maps s) @ [(last (maps s))(key \<mapsto> val)]"
      "journals s' = butlast (journals s) @ [last (journals s) @ [(key, val)]]" by blast
  have "below r s' = below r s" "r < length (maps s')"
    unfolding s'(3,4) using assms(2) length_journals [OF assms(1)] by (simp_all add: take_butlast)
  with s' Do_Put show ?thesis by simp
next
  case Do_Push
  have ne: "maps s \<noteq> []" using assms(2,3) by auto
  from push [OF assms(1) this] obtain s' where
    "push s = (length (maps s), s')" "ok s'" "maps s' = maps s @ [last (maps s)]" "journals s' = journals s @ [[]]" by blast
  with Do_Push assms(2) length_journals [OF assms(1)] show ?thesis by auto
next
  case (Do_PopTo d)
  from popTo [OF assms(1), of d] obtain s' where
    "popTo d s = Some s'" "ok s'" "maps s' = take d (maps s)" "journals s' = take d (journals s)" by blast
  with Do_PopTo assms(2,4) show ?thesis by (auto simp: min_def)
qed

lemma run_commands_above:
  assumes "ok s" and "r < length (maps s)" and "0 < r" and "list_all (stays_above (Suc r)) cs"
  shows "\<exists>s'. run_commands put push popTo cs s = Some s' \<and> ok s' \<and> r < length (maps s') \<and> below r s' = below r s"
  using assms
proof (induction cs arbitrary: s)
  case Nil
  then show ?case by simp
next
  case (Cons c cs)
  from run_command_above [OF Cons.prems(1-3), of c] Cons.prems(4)
  obtain s1 where s1: "run_command put push popTo c s = Some s1" "ok s1" "r < length (maps s1)" "below r s1 = below r s"
    by auto
  from Cons.IH [OF s1(2,3) Cons.prems(3)] Cons.prems(4) s1 show ?case by auto
qed

lemma revert_restores:
  assumes "ok s" and "maps s \<noteq> []" and "push s = (r, s1)" and "list_all (stays_above (Suc r)) cs"
  shows "\<exists>s2 s3. run_commands put push popTo cs s1 = Some s2 \<and> popTo r s2 = Some s3 \<and> ok s3 \<and>
    maps s3 = maps s \<and> journals s3 = journals s"
proof -
  have s1: "ok s1" "r = length (maps s)" "maps s1 = maps s @ [last (maps s)]" "journals s1 = journals s @ [[]]"
    using push [OF assms(1,2)] assms(3) by auto
  from run_commands_above [OF s1(1) _ _ assms(4)] obtain s2 where
    s2: "run_commands put push popTo cs s1 = Some s2" "ok s2" "below r s2 = below r s1"
    using s1 assms(2) by auto
  from popTo [OF s2(2), of r] obtain s3 where
    "popTo r s2 = Some s3" "ok s3" "maps s3 = take r (maps s2)" "journals s3 = take r (journals s2)" by blast
  with s1 s2 length_journals [OF assms(1)] show ?thesis by auto
qed

end

lemma sm_ok_snocE:
  assumes "sm_maps sm \<noteq> []"
  obtains ls l where "mapStack sm = ls @ [l]"
  using assms by (cases "mapStack sm" rule: rev_cases) (auto simp: sm_maps_def)

interpretation stacked: snapshot_store sm_ok sm_maps sm_journals Put Push PopTo
proof
  fix sm :: "('k, 'v) StackedMap" and key val
  assume ok: "sm_ok sm" and ne: "sm_maps sm \<noteq> []"
  obtain ls l where ls: "mapStack sm = ls @ [l]" using sm_ok_snocE [OF ne] .
  obtain sm' where sm': "Put key val sm = Some sm'" "sm_ok sm'" "mapStack sm' = ls @ [level_put key val l]"
    using Put_top [OF ok ls] by blast
  have "last (sm_maps sm) = visible ls ++ map_of (kvs l)" using ls by (simp add: last_sm_maps)
  moreover have "sm_journals sm' = butlast (sm_journals sm) @ [last (sm_journals sm) @ [(key, val)]]"
    using ls sm'(3) by (simp add: sm_journals_def level_put_def)
  ultimately show "\<exists>s'. Put key val sm = Some s' \<and> sm_ok s' \<and> sm_maps s' = butlast (sm_maps sm) @ [(last (sm_maps sm))(key \<mapsto> val)] \<and>
      sm_journals s' = butlast (sm_journals sm) @ [last (sm_journals sm) @ [(key, val)]]"
    using sm' sm_maps_append [OF ls sm'(3)] by simp
next
  fix sm :: "('k, 'v) StackedMap"
  assume ok: "sm_ok sm" and ne: "sm_maps sm \<noteq> []"
  let ?sm = "sm\<lparr>mapStack := mapStack sm @ [newLevel]\<rparr>"
  have "revision_map (mapStack sm @ [newLevel]) = revision_map (mapStack sm)"
    by (simp add: revision_map_def fun_eq_iff newLevel_def)
  then have "sm_ok ?sm" using ok by (simp add: sm_ok_def level_ok_def newLevel_def)
  moreover have "sm_maps ?sm = sm_maps sm @ [last (sm_maps sm)]"
  proof -
    have "mapStack sm \<noteq> []" using ne by (simp add: sm_maps_def)
    note last = last_sm_maps [OF this]
    have "visible (mapStack sm @ [newLevel]) = visible (mapStack sm)" by (simp add: newLevel_def)
    then show ?thesis unfolding last by (simp add: sm_maps_def)
  qed
  ultimately show "\<exists>s'. Push sm = (length (sm_maps sm), s') \<and> sm_ok s' \<and> sm_maps s' = sm_maps sm @ [last (sm_maps sm)] \<and>
      sm_journals s' = sm_journals sm @ [[]]"
    by (simp add: Push_def Let_def Depth_def sm_journals_def newLevel_def)
next
  fix sm :: "('k, 'v) StackedMap" and d
  assume "sm_ok sm"
  then obtain sm' where "PopTo d sm = Some sm'" "sm_ok sm'" "mapStack sm' = take d (mapStack sm)" using PopTo_take by blast
  then show "\<exists>s'. PopTo d sm = Some s' \<and> sm_ok s' \<and> sm_maps s' = take d (sm_maps sm) \<and> sm_journals s' = take d (sm_journals sm)"
    by (auto simp: sm_maps_take sm_journals_def take_map)
next
  fix sm :: "('k, 'v) StackedMap"
  show "length (sm_journals sm) = length (sm_maps sm)" by (simp add: sm_journals_def Depth_def)
qed

section \<open>Properties\<close>

lemma visible_Cons: "visible (l # ls) = map_of (kvs l) ++ visible ls"
proof -
  have "foldl (\<lambda>m l. m ++ map_of (kvs l)) a ls = a ++ visible ls" for a :: "'a \<rightharpoonup> 'b"
    by (induction ls rule: rev_induct) simp_all
  from this [of "map_of (kvs l)"] show ?thesis by (simp add: visible_def [of "l # ls"])
qed

lemma journal_level_replay:
  "journal_level (\<lambda>key val m. (m(key \<mapsto> val), True)) es m = (m ++ map_of (rev es), True)"
  by (induction es arbitrary: m) (auto simp: fun_eq_iff map_add_def split: option.splits)

lemma journal_levels_replay:
  "list_all level_ok ls \<Longrightarrow>
     journal_levels (\<lambda>key val m. (m(key \<mapsto> val), True)) ls m = (m ++ visible ls, True)"
  by (induction ls arbitrary: m) (simp_all add: journal_level_replay visible_Cons level_ok_def)

text \<open>
  C15: the stacked map refines a stack of plain maps.  Its key index never leads to a wrong level and
  no operation panics: \<open>Get\<close> reads the top map and falls back to the source, \<open>Put\<close> changes the top map
  only, \<open>Push\<close> doubles it and returns the old depth, and \<open>PopTo\<close> drops the maps above a depth.
\<close>
theorem stacked_map_refines_maps:
  assumes "sm_ok sm" and "Depth sm > 0"
  shows "Get src key sm = (case last (sm_maps sm) key of Some v \<Rightarrow> Some (Inr (Some v)) | None \<Rightarrow> src key) \<and>
    (\<exists>sm'. Put key val sm = Some sm' \<and> sm_ok sm' \<and>
       sm_maps sm' = butlast (sm_maps sm) @ [(last (sm_maps sm))(key \<mapsto> val)] \<and>
       sm_journals sm' = butlast (sm_journals sm) @ [last (sm_journals sm) @ [(key, val)]]) \<and>
    (\<exists>sm'. Push sm = (Depth sm, sm') \<and> sm_ok sm' \<and> sm_maps sm' = sm_maps sm @ [last (sm_maps sm)] \<and>
       sm_journals sm' = sm_journals sm @ [[]]) \<and>
    (\<exists>sm'. PopTo d sm = Some sm' \<and> sm_ok sm' \<and> sm_maps sm' = take d (sm_maps sm) \<and>
       sm_journals sm' = take d (sm_journals sm))"
proof -
  have ne: "sm_maps sm \<noteq> []" using assms(2) by (auto simp: sm_maps_def Depth_def)
  show ?thesis
    using stacked.put [OF assms(1) ne] stacked.push [OF assms(1) ne] stacked.popTo [OF assms(1)]
      Get_maps [OF assms(1) ne] by simp
qed

text \<open>A map with two levels: key 1 is written in both, key 2 in the first only.\<close>

definition sm_demo :: "(nat, nat) StackedMap" where
  "sm_demo = the (do { sm \<leftarrow> Put 1 10 NewStackedMap; sm \<leftarrow> Put 2 20 sm; Put 1 11 (snd (Push sm)) })"

lemma NewStackedMap_ok: "sm_ok NewStackedMap" "sm_maps NewStackedMap = [Map.empty]"
  by (simp_all add: NewStackedMap_def sm_ok_def level_ok_def newLevel_def revision_map_def revisions_def fun_eq_iff
      sm_maps_def visible_def)

lemma sm_demo_eq: "sm_demo =
   \<lparr>mapStack = [\<lparr>kvs = [(1, 10), (2, 20)], journal = [(1, 10), (2, 20)]\<rparr>, \<lparr>kvs = [(1, 11)], journal = [(1, 11)]\<rparr>],
    keyRevisionMap = [1 \<mapsto> [0, 1], 2 \<mapsto> [0]]\<rparr>"
  by (simp add: sm_demo_def NewStackedMap_def Put_def Push_def newLevel_def stack_top_def Let_def fun_upd_twist)

lemma sm_demo_ok: "sm_ok sm_demo"
  by (auto simp: sm_demo_eq sm_ok_def level_ok_def revision_map_def revisions_def fun_eq_iff upt_rec)

theorem stacked_map_refines_maps_witness:
  "Get (\<lambda>_. Some (Inl ())) 1 sm_demo = Some (Inr (Some 11)) \<and> Get (\<lambda>_. Some (Inl ())) 2 sm_demo = Some (Inr (Some 20)) \<and>
   Get (\<lambda>_. Some (Inl ())) 3 sm_demo = Some (Inl ())"
  using stacked_map_refines_maps [OF sm_demo_ok, of "\<lambda>_. Some (Inl ())" 1] stacked_map_refines_maps [OF sm_demo_ok, of "\<lambda>_. Some (Inl ())" 2]
    stacked_map_refines_maps [OF sm_demo_ok, of "\<lambda>_. Some (Inl ())" 3]
  by (simp add: sm_demo_eq Depth_def sm_maps_def visible_def)

text \<open>
  C17: a revert restores everything.  After a \<open>Push\<close> that returned \<open>r\<close>, any sequence of puts, pushes and
  pops to depths above \<open>r\<close> runs without a panic, and \<open>PopTo r\<close> then gives back all the maps and
  journals that were there before.
\<close>
theorem stacked_map_revert_restores:
  assumes "sm_ok sm" and "Depth sm > 0" and "Push sm = (r, sm1)" and "list_all (stays_above (Suc r)) cs"
  shows "\<exists>sm2 sm3. run_commands Put Push PopTo cs sm1 = Some sm2 \<and> PopTo r sm2 = Some sm3 \<and> sm_ok sm3 \<and>
    sm_maps sm3 = sm_maps sm \<and> sm_journals sm3 = sm_journals sm"
  by (rule stacked.revert_restores [OF assms(1) _ assms(3,4)]) (use assms(2) in \<open>simp add: sm_maps_def Depth_def\<close>)

theorem stacked_map_revert_restores_witness:
  "\<exists>sm2 sm3. run_commands Put Push PopTo [Do_Put 1 5, Do_Push, Do_Put 3 6, Do_PopTo 3, Do_Put 2 7] (snd (Push sm_demo)) = Some sm2 \<and>
     PopTo 2 sm2 = Some sm3 \<and> sm_ok sm3 \<and> sm_maps sm3 = sm_maps sm_demo \<and> sm_journals sm3 = sm_journals sm_demo"
  using stacked_map_revert_restores [OF sm_demo_ok, of 2 "snd (Push sm_demo)"
      "[Do_Put 1 5, Do_Push, Do_Put 3 6, Do_PopTo 3, Do_Put 2 7]"]
  by (simp add: sm_demo_eq Push_def Depth_def)

text \<open>
  C18: replaying the journal gives the visible map.  The entries that \<open>Journal\<close> passes to its callback,
  put into a plain map one after the other, give exactly the top map: reverted entries are gone and
  later entries win.
\<close>
theorem journal_replays_map:
  assumes "sm_ok sm" and "Depth sm > 0"
  shows "Journal (\<lambda>key val m. (m(key \<mapsto> val), True)) sm Map.empty = last (sm_maps sm)"
  using assms by (simp add: Journal_def journal_levels_replay sm_ok_def last_sm_maps Depth_def)

theorem journal_replays_map_witness:
  "Journal (\<lambda>key val m. (m(key \<mapsto> val), True)) sm_demo Map.empty = [1 \<mapsto> 11, 2 \<mapsto> 20]"
  using journal_replays_map [OF sm_demo_ok]
  by (simp add: sm_demo_eq Depth_def sm_maps_def visible_def fun_upd_twist)

end
