(* ===== verification/States.thy ===== *)
theory States
  imports StackedMaps
begin

text \<open>
  The world state (src/state/state.go, src/state/account.go): accounts, their codes and their storage,
  kept in a stacked map over the account trie.

  A key of the map is one of four Go types, a value one of four; the type assertions of the code are
  modelled, and \<open>None\<close> stands for their panic.  The tries, the key-value store, the RLP package and the
  hash functions are the record \<open>state_deps\<close>: an answer of the database can be an error, and every
  operation returns what the code returns then.  \<open>state_ok\<close> is the invariant: every value has the type
  of its key, and no storage entry has a barrier above the current one, so that the storage of a
  deleted account cannot reappear.
\<close>

section \<open>Accounts\<close>

record AccountMetadata =
  StorageID :: bytes
  StorageMajorVer :: u32
  StorageMinorVer :: u32

record Account =
  Balance :: int
  Energy :: int
  BlockTime :: u64
  Master :: bytes
  acc_CodeHash :: bytes
  StorageRoot :: bytes

definition IsEmpty :: "Account \<Rightarrow> bool" where
  "IsEmpty a \<longleftrightarrow> Balance a = 0 \<and> Energy a = 0 \<and> Master a = [] \<and> acc_CodeHash a = []"

definition bigE18 :: int where
  "bigE18 = 1000000000000000000"

definition EnergyGrowthRate :: int where
  "EnergyGrowthRate = 5000000000"

definition CalcEnergy :: "Account \<Rightarrow> u64 \<Rightarrow> int" where
  "CalcEnergy a blockTime =
     (if BlockTime a = 0 then Energy a
      else if Balance a = 0 then Energy a
      else if blockTime \<le> BlockTime a then Energy a
      else Energy a + uint (blockTime - BlockTime a) * Balance a * EnergyGrowthRate div bigE18)"

definition emptyAccount :: Account where
  "emptyAccount = \<lparr>Balance = 0, Energy = 0, BlockTime = 0, Master = [], acc_CodeHash = [], StorageRoot = []\<rparr>"

definition emptyMetadata :: AccountMetadata where
  "emptyMetadata = \<lparr>StorageID = [], StorageMajorVer = 0, StorageMinorVer = 0\<rparr>"

section \<open>The database below the state\<close>

datatype db_error = DbError string | StateError db_error

datatype rlp_kind = rlp_Byte | rlp_String | rlp_List

record trie_root =
  root_Hash :: hash
  root_Major :: u32
  root_Minor :: u32

record state_deps =
  trie_Get :: "bytes \<Rightarrow> trie_root \<Rightarrow> bytes \<Rightarrow> db_error + bytes \<times> bytes"
  code_Get :: "bytes \<Rightarrow> db_error + bytes"
  decode_Account :: "bytes \<Rightarrow> db_error + Account"
  decode_Metadata :: "bytes \<Rightarrow> db_error + AccountMetadata"
  encode_Account :: "Account \<Rightarrow> db_error + bytes"
  encode_Metadata :: "AccountMetadata \<Rightarrow> db_error + bytes"
  rlp_Split :: "bytes \<Rightarrow> db_error + rlp_kind \<times> bytes \<times> bytes"
  rlp_EncodeBytes :: "bytes \<Rightarrow> bytes"
  Blake2b :: "bytes \<Rightarrow> hash"
  thor_Keccak256 :: "bytes \<Rightarrow> hash"

definition AccountTrieName :: bytes where
  "AccountTrieName = [97]"

definition StorageTrieName :: "bytes \<Rightarrow> bytes option" where
  "StorageTrieName sid = (if sid = [] then None else Some (115 # sid))"

definition Bytes32_of :: "hash \<Rightarrow> bytes" where
  "Bytes32_of h = nat_be 32 (unat h)"

definition Address_bytes :: "address \<Rightarrow> bytes" where
  "Address_bytes a = nat_be 20 (unat a)"

definition secureKey :: "state_deps \<Rightarrow> bytes \<Rightarrow> bytes" where
  "secureKey D k = Bytes32_of (Blake2b D k)"

definition loadAccount :: "state_deps \<Rightarrow> trie_root \<Rightarrow> address \<Rightarrow> db_error + Account \<times> AccountMetadata" where
  "loadAccount D root addr =
     (case trie_Get D AccountTrieName root (secureKey D (Address_bytes addr)) of
        Inl e \<Rightarrow> Inl e
      | Inr (data, meta) \<Rightarrow>
          if data = [] then Inr (emptyAccount, emptyMetadata)
          else case decode_Account D data of
                 Inl e \<Rightarrow> Inl e
               | Inr a \<Rightarrow>
                   if meta = [] then Inr (a, emptyMetadata)
                   else case decode_Metadata D meta of Inl e \<Rightarrow> Inl e | Inr am \<Rightarrow> Inr (a, am))"

definition loadStorage :: "state_deps \<Rightarrow> bytes \<Rightarrow> trie_root \<Rightarrow> hash \<Rightarrow> db_error + bytes" where
  "loadStorage D name root key = map_sum id fst (trie_Get D name root (secureKey D (Bytes32_of key)))"

section \<open>Keys and values\<close>

datatype state_key =
    AccountKey address
  | CodeKey address
  | StorageKey address int hash
  | BarrierKey address

datatype state_val =
    AccountVal Account
  | CodeVal bytes
  | RawVal bytes
  | BarrierVal int

record State =
  s_trie :: trie_root
  s_sm :: "(state_key, state_val) StackedMap"

definition NewState :: "trie_root \<Rightarrow> State" where
  "NewState root = \<lparr>s_trie = root, s_sm = NewStackedMap\<rparr>"

text \<open>The storage of an account in the database, through the trie that its metadata names.\<close>

definition object_storage :: "state_deps \<Rightarrow> Account \<Rightarrow> AccountMetadata \<Rightarrow> hash \<Rightarrow> (db_error + bytes) option" where
  "object_storage D data meta key =
     (if StorageRoot data = [] then Some (Inr [])
      else do {
        name \<leftarrow> StorageTrieName (StorageID meta);
        Some (loadStorage D name
          \<lparr>root_Hash = be_word (StorageRoot data), root_Major = StorageMajorVer meta, root_Minor = StorageMinorVer meta\<rparr> key)
      })"

definition object_code :: "state_deps \<Rightarrow> Account \<Rightarrow> db_error + bytes" where
  "object_code D data = (if acc_CodeHash data \<noteq> [] then code_Get D (acc_CodeHash data) else Inr [])"

text \<open>
  What \<open>cacheGetter\<close> returns; its caches are transparent.  \<open>None\<close> is the panic of an empty storage
  identifier.
\<close>

definition getter :: "state_deps \<Rightarrow> trie_root \<Rightarrow> state_key \<Rightarrow> (db_error + state_val) option" where
  "getter D root key =
     (case key of
        AccountKey a \<Rightarrow> Some (map_sum id (AccountVal \<circ> fst) (loadAccount D root a))
      | CodeKey a \<Rightarrow>
          (case loadAccount D root a of
             Inl e \<Rightarrow> Some (Inl e)
           | Inr (data, _) \<Rightarrow> Some (map_sum id CodeVal (object_code D data)))
      | StorageKey a barrier k \<Rightarrow>
          if barrier \<noteq> 0 then Some (Inr (RawVal []))
          else (case loadAccount D root a of
                  Inl e \<Rightarrow> Some (Inl e)
                | Inr (data, meta) \<Rightarrow> map_option (map_sum id RawVal) (object_storage D data meta k))
      | BarrierKey a \<Rightarrow> Some (Inr (BarrierVal 0)))"

section \<open>Operations\<close>

definition sm_get :: "state_deps \<Rightarrow> state_key \<Rightarrow> State \<Rightarrow> (db_error + state_val option) option" where
  "sm_get D key st = Get (\<lambda>k. map_option (map_sum id Some) (getter D (s_trie st) k)) key (s_sm st)"

definition sm_put :: "state_key \<Rightarrow> state_val \<Rightarrow> State \<Rightarrow> State option" where
  "sm_put key val st = map_option (\<lambda>m. st\<lparr>s_sm := m\<rparr>) (Put key val (s_sm st))"

text \<open>
  A type assertion on a value of another type, or on none, panics.  The results of the operations:
  \<open>None\<close> is a panic, \<open>Inl\<close> an error.
\<close>

type_synonym 'a res = "(db_error + 'a) option"

definition getAccount :: "state_deps \<Rightarrow> address \<Rightarrow> State \<Rightarrow> Account res" where
  "getAccount D addr st =
     do {
       r \<leftarrow> sm_get D (AccountKey addr) st;
       case r of
         Inl e \<Rightarrow> Some (Inl e)
       | Inr v \<Rightarrow> (case v of Some (AccountVal a) \<Rightarrow> Some (Inr a) | _ \<Rightarrow> None)
     }"

definition updateAccount :: "address \<Rightarrow> Account \<Rightarrow> State \<Rightarrow> State option" where
  "updateAccount addr acc st = sm_put (AccountKey addr) (AccountVal acc) st"

definition getStorageBarrier :: "state_deps \<Rightarrow> address \<Rightarrow> State \<Rightarrow> int option" where
  "getStorageBarrier D addr st =
     do {
       r \<leftarrow> sm_get D (BarrierKey addr) st;
       case r of Inr (Some (BarrierVal b)) \<Rightarrow> Some b | _ \<Rightarrow> None
     }"

definition setStorageBarrier :: "address \<Rightarrow> int \<Rightarrow> State \<Rightarrow> State option" where
  "setStorageBarrier addr barrier st = sm_put (BarrierKey addr) (BarrierVal barrier) st"

text \<open>The common body of the readers of an account, and of its writers.\<close>

definition read_account :: "state_deps \<Rightarrow> address \<Rightarrow> (Account \<Rightarrow> 'a) \<Rightarrow> State \<Rightarrow> 'a res" where
  "read_account D addr f st = map_option (map_sum StateError f) (getAccount D addr st)"

definition write_account ::
    "state_deps \<Rightarrow> address \<Rightarrow> (Account \<Rightarrow> Account) \<Rightarrow> State \<Rightarrow> (State \<times> db_error option) option" where
  "write_account D addr f st =
     do {
       r \<leftarrow> getAccount D addr st;
       case r of
         Inl e \<Rightarrow> Some (st, Some (StateError e))
       | Inr cpy \<Rightarrow> do { st \<leftarrow> updateAccount addr (f cpy) st; Some (st, None) }
     }"

definition State_GetBalance :: "state_deps \<Rightarrow> address \<Rightarrow> State \<Rightarrow> int res" where
  "State_GetBalance D addr st = read_account D addr Balance st"

definition State_SetBalance :: "state_deps \<Rightarrow> address \<Rightarrow> int \<Rightarrow> State \<Rightarrow> (State \<times> db_error option) option" where
  "State_SetBalance D addr balance st = write_account D addr (\<lambda>a. a\<lparr>Balance := balance\<rparr>) st"

definition State_GetEnergy :: "state_deps \<Rightarrow> address \<Rightarrow> u64 \<Rightarrow> State \<Rightarrow> int res" where
  "State_GetEnergy D addr blockTime st = read_account D addr (\<lambda>a. CalcEnergy a blockTime) st"

definition State_SetEnergy :: "state_deps \<Rightarrow> address \<Rightarrow> int \<Rightarrow> u64 \<Rightarrow> State \<Rightarrow> (State \<times> db_error option) option" where
  "State_SetEnergy D addr energy blockTime st =
     write_account D addr (\<lambda>a. a\<lparr>Energy := energy, BlockTime := blockTime\<rparr>) st"

definition State_GetMaster :: "state_deps \<Rightarrow> address \<Rightarrow> State \<Rightarrow> address res" where
  "State_GetMaster D addr st = read_account D addr (\<lambda>a. be_word (Master a)) st"

definition State_SetMaster :: "state_deps \<Rightarrow> address \<Rightarrow> address \<Rightarrow> State \<Rightarrow> (State \<times> db_error option) option" where
  "State_SetMaster D addr master st =
     write_account D addr (\<lambda>a. a\<lparr>Master := if master = 0 then [] else Address_bytes master\<rparr>) st"

definition State_GetRawStorage :: "state_deps \<Rightarrow> address \<Rightarrow> hash \<Rightarrow> State \<Rightarrow> bytes res" where
  "State_GetRawStorage D addr key st =
     do {
       barrier \<leftarrow> getStorageBarrier D addr st;
       r \<leftarrow> sm_get D (StorageKey addr barrier key) st;
       case r of
         Inl e \<Rightarrow> Some (Inl (StateError e))
       | Inr v \<Rightarrow> (case v of Some (RawVal raw) \<Rightarrow> Some (Inr raw) | _ \<Rightarrow> None)
     }"

definition State_SetRawStorage :: "state_deps \<Rightarrow> address \<Rightarrow> hash \<Rightarrow> bytes \<Rightarrow> State \<Rightarrow> State option" where
  "State_SetRawStorage D addr key raw st =
     do {
       barrier \<leftarrow> getStorageBarrier D addr st;
       sm_put (StorageKey addr barrier key) (RawVal raw) st
     }"

definition State_GetStorage :: "state_deps \<Rightarrow> address \<Rightarrow> hash \<Rightarrow> State \<Rightarrow> hash res" where
  "State_GetStorage D addr key st =
     do {
       r \<leftarrow> State_GetRawStorage D addr key st;
       Some (case r of
               Inl e \<Rightarrow> Inl (StateError e)
             | Inr raw \<Rightarrow>
                 if raw = [] then Inr 0
                 else case rlp_Split D raw of
                        Inl e \<Rightarrow> Inl (StateError e)
                      | Inr (kind, content, _) \<Rightarrow>
                          if kind = rlp_List then Inr (Blake2b D raw) else Inr (be_word content))
     }"

definition trim_left :: "bytes \<Rightarrow> bytes" where
  "trim_left = dropWhile (\<lambda>b. b = 0)"

definition State_SetStorage :: "state_deps \<Rightarrow> address \<Rightarrow> hash \<Rightarrow> hash \<Rightarrow> State \<Rightarrow> State option" where
  "State_SetStorage D addr key val st =
     (if val = 0 then State_SetRawStorage D addr key [] st
      else State_SetRawStorage D addr key (rlp_EncodeBytes D (trim_left (Bytes32_of val))) st)"

definition State_EncodeStorage ::
    "state_deps \<Rightarrow> address \<Rightarrow> hash \<Rightarrow> db_error + bytes \<Rightarrow> State \<Rightarrow> (State \<times> db_error option) option" where
  "State_EncodeStorage D addr key enc st =
     (case enc of
        Inl e \<Rightarrow> Some (st, Some (StateError e))
      | Inr raw \<Rightarrow> do { st \<leftarrow> State_SetRawStorage D addr key raw st; Some (st, None) })"

definition State_DecodeStorage ::
    "state_deps \<Rightarrow> address \<Rightarrow> hash \<Rightarrow> (bytes \<Rightarrow> db_error + 'a) \<Rightarrow> State \<Rightarrow> 'a res" where
  "State_DecodeStorage D addr key dec st =
     do {
       r \<leftarrow> State_GetRawStorage D addr key st;
       Some (case r of Inl e \<Rightarrow> Inl (StateError e) | Inr raw \<Rightarrow> map_sum StateError id (dec raw))
     }"

definition State_GetCode :: "state_deps \<Rightarrow> address \<Rightarrow> State \<Rightarrow> bytes res" where
  "State_GetCode D addr st =
     do {
       r \<leftarrow> sm_get D (CodeKey addr) st;
       case r of
         Inl e \<Rightarrow> Some (Inl (StateError e))
       | Inr v \<Rightarrow> (case v of Some (CodeVal code) \<Rightarrow> Some (Inr code) | _ \<Rightarrow> None)
     }"

definition State_GetCodeHash :: "state_deps \<Rightarrow> address \<Rightarrow> State \<Rightarrow> hash res" where
  "State_GetCodeHash D addr st = read_account D addr (\<lambda>a. be_word (acc_CodeHash a)) st"

definition State_SetCode :: "state_deps \<Rightarrow> address \<Rightarrow> bytes \<Rightarrow> State \<Rightarrow> (State \<times> db_error option) option" where
  "State_SetCode D addr code st =
     do {
       st \<leftarrow> sm_put (CodeKey addr) (CodeVal code) st;
       write_account D addr
         (\<lambda>a. a\<lparr>acc_CodeHash := if code \<noteq> [] then Bytes32_of (thor_Keccak256 D code) else []\<rparr>) st
     }"

definition State_Exists :: "state_deps \<Rightarrow> address \<Rightarrow> State \<Rightarrow> bool res" where
  "State_Exists D addr st = read_account D addr (\<lambda>a. \<not> IsEmpty a) st"

definition State_Delete :: "state_deps \<Rightarrow> address \<Rightarrow> State \<Rightarrow> State option" where
  "State_Delete D addr st =
     do {
       st \<leftarrow> sm_put (CodeKey addr) (CodeVal []) st;
       st \<leftarrow> updateAccount addr emptyAccount st;
       barrier \<leftarrow> getStorageBarrier D addr st;
       setStorageBarrier addr (barrier + 1) st
     }"

definition State_NewCheckpoint :: "State \<Rightarrow> nat \<times> State" where
  "State_NewCheckpoint st = (let (rev, m) = Push (s_sm st) in (rev, st\<lparr>s_sm := m\<rparr>))"

definition State_RevertTo :: "nat \<Rightarrow> State \<Rightarrow> State option" where
  "State_RevertTo revision st = map_option (\<lambda>m. st\<lparr>s_sm := m\<rparr>) (PopTo revision (s_sm st))"

section \<open>Invariant\<close>

fun typed :: "state_key \<Rightarrow> state_val \<Rightarrow> bool" where
  "typed (AccountKey _) (AccountVal _) = True"
| "typed (CodeKey _) (CodeVal _) = True"
| "typed (StorageKey _ _ _) (RawVal _) = True"
| "typed (BarrierKey _) (BarrierVal b) = (0 \<le> b)"
| "typed _ _ = False"

text \<open>The barrier of an account in a map, and what every map of the stack satisfies.\<close>

definition barrier_in :: "(state_key \<rightharpoonup> state_val) \<Rightarrow> address \<Rightarrow> int" where
  "barrier_in m a = (case m (BarrierKey a) of Some (BarrierVal b) \<Rightarrow> b | _ \<Rightarrow> 0)"

definition map_ok :: "(state_key \<rightharpoonup> state_val) \<Rightarrow> bool" where
  "map_ok m \<longleftrightarrow>
     (\<forall>key v. m key = Some v \<longrightarrow> typed key v) \<and>
     (\<forall>a b k. m (StorageKey a b k) \<noteq> None \<longrightarrow> b \<le> barrier_in m a)"

abbreviation smaps :: "State \<Rightarrow> (state_key \<rightharpoonup> state_val) list" where
  "smaps st \<equiv> sm_maps (s_sm st)"

definition state_ok :: "State \<Rightarrow> bool" where
  "state_ok st \<longleftrightarrow> sm_ok (s_sm st) \<and> smaps st \<noteq> [] \<and> list_all map_ok (smaps st)"

text \<open>What a reader of a key sees.\<close>

definition cur :: "state_deps \<Rightarrow> State \<Rightarrow> state_key \<Rightarrow> (db_error + state_val) option" where
  "cur D st key =
     (case last (smaps st) key of Some v \<Rightarrow> Some (Inr v) | None \<Rightarrow> getter D (s_trie st) key)"

text \<open>The database answers every read without an error.\<close>

definition healthy :: "state_deps \<Rightarrow> trie_root \<Rightarrow> bool" where
  "healthy D root \<longleftrightarrow> (\<forall>key. \<exists>v. getter D root key = Some (Inr v))"

lemma map_sum_Inr: "map_sum f g x = Inr v \<longleftrightarrow> (\<exists>y. x = Inr y \<and> v = g y)"
  by (cases x) auto

lemma getter_typed: "getter D root key = Some (Inr v) \<Longrightarrow> typed key v"
  by (cases key) (auto simp: getter_def map_sum_Inr split: sum.splits if_splits prod.splits)

lemma sm_get_cur: "state_ok st \<Longrightarrow> sm_get D key st = map_option (map_sum id Some) (cur D st key)"
  by (auto simp: sm_get_def state_ok_def cur_def Get_maps split: option.splits)

lemma map_ok_last: "state_ok st \<Longrightarrow> map_ok (last (smaps st))"
  by (simp add: state_ok_def list_all_iff)

lemma cur_typed: "state_ok st \<Longrightarrow> cur D st key = Some (Inr v) \<Longrightarrow> typed key v"
  using map_ok_last by (auto simp: cur_def map_ok_def dest: getter_typed split: option.splits)

lemma cur_healthy:
  assumes "state_ok st" and "healthy D (s_trie st)"
  obtains v where "cur D st key = Some (Inr v)" and "typed key v"
proof -
  have "\<exists>v. cur D st key = Some (Inr v)" using assms(2) by (auto simp: cur_def healthy_def split: option.split)
  with cur_typed [OF assms(1)] that show thesis by blast
qed

section \<open>The values of a state\<close>

definition account_of :: "state_deps \<Rightarrow> State \<Rightarrow> address \<Rightarrow> Account" where
  "account_of D st a = (case cur D st (AccountKey a) of Some (Inr (AccountVal x)) \<Rightarrow> x | _ \<Rightarrow> emptyAccount)"

definition code_of :: "state_deps \<Rightarrow> State \<Rightarrow> address \<Rightarrow> bytes" where
  "code_of D st a = (case cur D st (CodeKey a) of Some (Inr (CodeVal c)) \<Rightarrow> c | _ \<Rightarrow> [])"

definition barrier_of :: "State \<Rightarrow> address \<Rightarrow> int" where
  "barrier_of st a = barrier_in (last (smaps st)) a"

definition raw_of :: "state_deps \<Rightarrow> State \<Rightarrow> address \<Rightarrow> hash \<Rightarrow> bytes" where
  "raw_of D st a k = (case cur D st (StorageKey a (barrier_of st a) k) of Some (Inr (RawVal r)) \<Rightarrow> r | _ \<Rightarrow> [])"

lemma typed_cases:
  "typed (AccountKey a) v \<longleftrightarrow> (\<exists>x. v = AccountVal x)"
  "typed (CodeKey a) v \<longleftrightarrow> (\<exists>c. v = CodeVal c)"
  "typed (StorageKey a b k) v \<longleftrightarrow> (\<exists>r. v = RawVal r)"
  "typed (BarrierKey a) v \<longleftrightarrow> (\<exists>n. v = BarrierVal n \<and> 0 \<le> n)"
  by (cases v; simp)+

lemma getStorageBarrier_of: "state_ok st \<Longrightarrow> getStorageBarrier D addr st = Some (barrier_of st addr)"
  using cur_typed [of st D "BarrierKey addr"]
  by (auto simp: getStorageBarrier_def sm_get_cur barrier_of_def barrier_in_def cur_def getter_def typed_cases
      split: option.splits)

lemma map_ok_barrier:
  assumes "map_ok m"
  shows "0 \<le> barrier_in m a"
proof (cases "m (BarrierKey a)")
  case None
  then show ?thesis by (simp add: barrier_in_def)
next
  case (Some v)
  then have "typed (BarrierKey a) v" using assms by (simp add: map_ok_def)
  with Some show ?thesis by (auto simp: typed_cases barrier_in_def)
qed

lemma barrier_nonneg: "state_ok st \<Longrightarrow> 0 \<le> barrier_of st addr"
  unfolding barrier_of_def by (rule map_ok_barrier [OF map_ok_last])

lemma getAccount_of:
  assumes "state_ok st" and "healthy D (s_trie st)"
  shows "getAccount D addr st = Some (Inr (account_of D st addr))"
  by (rule cur_healthy [OF assms, of "AccountKey addr"])
    (use assms(1) in \<open>auto simp: getAccount_def sm_get_cur account_of_def typed_cases\<close>)

lemma State_GetCode_of:
  assumes "state_ok st" and "healthy D (s_trie st)"
  shows "State_GetCode D addr st = Some (Inr (code_of D st addr))"
  by (rule cur_healthy [OF assms, of "CodeKey addr"])
    (use assms(1) in \<open>auto simp: State_GetCode_def sm_get_cur code_of_def typed_cases\<close>)

lemma State_GetRawStorage_of:
  assumes "state_ok st" and "healthy D (s_trie st)"
  shows "State_GetRawStorage D addr key st = Some (Inr (raw_of D st addr key))"
  by (rule cur_healthy [OF assms, of "StorageKey addr (barrier_of st addr) key"])
    (use assms(1) in \<open>auto simp: State_GetRawStorage_def getStorageBarrier_of sm_get_cur raw_of_def typed_cases\<close>)

lemma read_account_of:
  assumes "state_ok st" and "healthy D (s_trie st)"
  shows "read_account D addr f st = Some (Inr (f (account_of D st addr)))"
  by (simp add: read_account_def getAccount_of [OF assms])

section \<open>Writes\<close>

text \<open>\<open>put_top\<close> is the effect of a write on the stack of maps.\<close>

definition put_top :: "'k \<Rightarrow> 'v \<Rightarrow> ('k \<rightharpoonup> 'v) list \<Rightarrow> ('k \<rightharpoonup> 'v) list" where
  "put_top key val ms = butlast ms @ [(last ms)(key \<mapsto> val)]"

lemma put_top_simps [simp]:
  "put_top key val ms \<noteq> []" "last (put_top key val ms) = (last ms)(key \<mapsto> val)" "butlast (put_top key val ms) = butlast ms"
  "ms \<noteq> [] \<Longrightarrow> length (put_top key val ms) = length ms"
  by (auto simp: put_top_def)

lemma take_put_top [simp]: "n < length ms \<Longrightarrow> take n (put_top key val ms) = take n ms"
  by (simp add: put_top_def take_butlast)

text \<open>A key that may be written: a storage key has the current barrier, a barrier does not decrease.\<close>

fun writable :: "(state_key \<rightharpoonup> state_val) \<Rightarrow> state_key \<Rightarrow> state_val \<Rightarrow> bool" where
  "writable m (StorageKey a b k) v = (typed (StorageKey a b k) v \<and> b = barrier_in m a)"
| "writable m (BarrierKey a) v = (\<exists>b. v = BarrierVal b \<and> barrier_in m a \<le> b)"
| "writable m key v = typed key v"

lemma barrier_in_upd:
  "barrier_in (m(key \<mapsto> v)) a = (if key = BarrierKey a then (case v of BarrierVal b \<Rightarrow> b | _ \<Rightarrow> 0) else barrier_in m a)"
  by (auto simp: barrier_in_def split: state_val.splits)

lemma map_ok_write:
  assumes "map_ok m" and "writable m key v"
  shows "map_ok (m(key \<mapsto> v))"
proof -
  have typed: "typed key v"
  proof (cases key)
    case (BarrierKey a)
    with assms(2) map_ok_barrier [OF assms(1), of a] show ?thesis by auto
  qed (use assms(2) in simp_all)
  have "b \<le> barrier_in (m(key \<mapsto> v)) a" if "(m(key \<mapsto> v)) (StorageKey a b k) \<noteq> None" for a b k
  proof (cases "key = StorageKey a b k")
    case True
    with assms(2) show ?thesis by (simp add: barrier_in_upd)
  next
    case False
    with that have "m (StorageKey a b k) \<noteq> None" by simp
    with assms(1) have "b \<le> barrier_in m a" unfolding map_ok_def by blast
    with assms(2) show ?thesis by (cases key) (auto simp: barrier_in_upd)
  qed
  with typed assms(1) show ?thesis by (auto simp: map_ok_def)
qed

lemma sm_put_ok:
  assumes "state_ok st" and "writable (last (smaps st)) key v"
  obtains st' where "sm_put key v st = Some st'" and "state_ok st'" and "s_trie st' = s_trie st"
    and "smaps st' = put_top key v (smaps st)"
proof -
  from assms(1) stacked.put [of "s_sm st" key v] obtain m where
    m: "Put key v (s_sm st) = Some m" "sm_ok m" "sm_maps m = put_top key v (smaps st)"
    by (auto simp: state_ok_def put_top_def)
  have "list_all map_ok (butlast (smaps st))" using assms(1) by (auto simp: state_ok_def list_all_iff dest: in_set_butlastD)
  moreover have "map_ok ((last (smaps st))(key \<mapsto> v))" by (rule map_ok_write [OF map_ok_last [OF assms(1)] assms(2)])
  ultimately have "list_all map_ok (put_top key v (smaps st))" by (simp add: put_top_def)
  with m that [of "st\<lparr>s_sm := m\<rparr>"] show thesis by (simp add: sm_put_def state_ok_def)
qed

lemma State_NewCheckpoint_ok:
  assumes "state_ok st"
  obtains st' where "State_NewCheckpoint st = (length (smaps st), st')" and "state_ok st'" and "s_trie st' = s_trie st"
    and "smaps st' = smaps st @ [last (smaps st)]"
proof -
  from assms stacked.push [of "s_sm st"] obtain m where
    m: "Push (s_sm st) = (length (smaps st), m)" "sm_ok m" "sm_maps m = smaps st @ [last (smaps st)]"
    by (auto simp: state_ok_def)
  with assms map_ok_last [OF assms] that [of "st\<lparr>s_sm := m\<rparr>"] show thesis by (simp add: State_NewCheckpoint_def state_ok_def)
qed

lemma State_RevertTo_ok:
  assumes "state_ok st" and "0 < r"
  obtains st' where "State_RevertTo r st = Some st'" and "state_ok st'" and "s_trie st' = s_trie st"
    and "smaps st' = take r (smaps st)"
proof -
  from assms stacked.popTo [of "s_sm st" r] obtain m where
    m: "PopTo r (s_sm st) = Some m" "sm_ok m" "sm_maps m = take r (smaps st)"
    by (auto simp: state_ok_def)
  with assms that [of "st\<lparr>s_sm := m\<rparr>"] show thesis
    by (auto simp: State_RevertTo_def state_ok_def list_all_iff dest: in_set_takeD)
qed

section \<open>The effect of the operations\<close>

definition written :: "state_key \<Rightarrow> state_val \<Rightarrow> State \<Rightarrow> State \<Rightarrow> bool" where
  "written key v st st' \<longleftrightarrow> state_ok st' \<and> s_trie st' = s_trie st \<and> smaps st' = put_top key v (smaps st)"

lemma sm_put_written:
  assumes "state_ok st" and "writable (last (smaps st)) key v"
  obtains st' where "sm_put key v st = Some st'" and "written key v st st'"
  using sm_put_ok [OF assms] by (metis written_def)

lemma written_ok: "written key v st st' \<Longrightarrow> state_ok st'" "written key v st st' \<Longrightarrow> s_trie st' = s_trie st"
  by (simp_all add: written_def)

lemma cur_written: "written key v st st' \<Longrightarrow> cur D st' = (cur D st)(key := Some (Inr v))"
  by (auto simp: written_def cur_def fun_eq_iff split: option.split)

lemma barrier_written:
  "written key v st st' \<Longrightarrow>
     barrier_of st' a = (if key = BarrierKey a then (case v of BarrierVal b \<Rightarrow> b | _ \<Rightarrow> 0) else barrier_of st a)"
  by (simp add: written_def barrier_of_def barrier_in_upd)

lemma values_written:
  assumes "written key v st st'"
  shows "account_of D st' a = (if key = AccountKey a then (case v of AccountVal x \<Rightarrow> x | _ \<Rightarrow> emptyAccount) else account_of D st a)"
    and "code_of D st' a = (if key = CodeKey a then (case v of CodeVal c \<Rightarrow> c | _ \<Rightarrow> []) else code_of D st a)"
    and "(\<And>b. key \<noteq> BarrierKey b) \<Longrightarrow> raw_of D st' a k =
      (if key = StorageKey a (barrier_of st a) k then (case v of RawVal r \<Rightarrow> r | _ \<Rightarrow> []) else raw_of D st a k)"
  using assms
  by (auto simp: account_of_def code_of_def raw_of_def cur_written barrier_written split: state_val.splits)

lemma write_account_of:
  assumes "state_ok st" and "healthy D (s_trie st)"
  obtains st' where "write_account D addr f st = Some (st', None)"
    and "written (AccountKey addr) (AccountVal (f (account_of D st addr))) st st'"
  by (rule sm_put_written [OF assms(1), of "AccountKey addr" "AccountVal (f (account_of D st addr))"])
    (simp_all add: write_account_def getAccount_of [OF assms] updateAccount_def that)

lemma State_SetRawStorage_of:
  assumes "state_ok st"
  obtains st' where "State_SetRawStorage D addr key raw st = Some st'"
    and "written (StorageKey addr (barrier_of st addr) key) (RawVal raw) st st'"
  by (rule sm_put_written [OF assms, of "StorageKey addr (barrier_of st addr) key" "RawVal raw"])
    (simp_all add: State_SetRawStorage_def getStorageBarrier_of [OF assms] that flip: barrier_of_def)

lemma State_SetCode_of:
  assumes "state_ok st" and "healthy D (s_trie st)"
  obtains st1 st' where "State_SetCode D addr code st = Some (st', None)"
    and "written (CodeKey addr) (CodeVal code) st st1"
    and "written (AccountKey addr) (AccountVal ((account_of D st addr)
      \<lparr>acc_CodeHash := if code \<noteq> [] then Bytes32_of (thor_Keccak256 D code) else []\<rparr>)) st1 st'"
proof -
  obtain st1 where st1: "sm_put (CodeKey addr) (CodeVal code) st = Some st1" "written (CodeKey addr) (CodeVal code) st st1"
    using sm_put_written [OF assms(1), of "CodeKey addr" "CodeVal code"] by auto
  have "healthy D (s_trie st1)" using assms(2) written_ok(2) [OF st1(2)] by simp
  let ?f = "\<lambda>a. a\<lparr>acc_CodeHash := if code \<noteq> [] then Bytes32_of (thor_Keccak256 D code) else []\<rparr>"
  obtain st' where st': "write_account D addr ?f st1 = Some (st', None)"
    "written (AccountKey addr) (AccountVal (?f (account_of D st1 addr))) st1 st'"
    by (rule write_account_of [OF written_ok(1) [OF st1(2)] \<open>healthy D (s_trie st1)\<close>])
  have "account_of D st1 addr = account_of D st addr" using values_written(1) [OF st1(2)] by simp
  with st1 st' that [of st' st1] show thesis by (simp add: State_SetCode_def)
qed

lemma State_Delete_of:
  assumes "state_ok st"
  obtains st1 st2 st' where "State_Delete D addr st = Some st'"
    and "written (CodeKey addr) (CodeVal []) st st1" and "written (AccountKey addr) (AccountVal emptyAccount) st1 st2"
    and "written (BarrierKey addr) (BarrierVal (barrier_of st addr + 1)) st2 st'"
proof -
  obtain st1 where st1: "sm_put (CodeKey addr) (CodeVal []) st = Some st1" "written (CodeKey addr) (CodeVal []) st st1"
    using sm_put_written [OF assms, of "CodeKey addr" "CodeVal []"] by auto
  obtain st2 where st2: "sm_put (AccountKey addr) (AccountVal emptyAccount) st1 = Some st2"
    "written (AccountKey addr) (AccountVal emptyAccount) st1 st2"
    using sm_put_written [OF written_ok(1) [OF st1(2)], of "AccountKey addr" "AccountVal emptyAccount"] by auto
  have b: "barrier_of st2 addr = barrier_of st addr" using barrier_written [OF st1(2)] barrier_written [OF st2(2)] by simp
  obtain st' where st': "sm_put (BarrierKey addr) (BarrierVal (barrier_of st addr + 1)) st2 = Some st'"
    "written (BarrierKey addr) (BarrierVal (barrier_of st addr + 1)) st2 st'"
    using sm_put_written [OF written_ok(1) [OF st2(2)], of "BarrierKey addr" "BarrierVal (barrier_of st addr + 1)"] b
    by (auto simp: barrier_of_def)
  have "State_Delete D addr st = Some st'"
    using st1(1) st2(1) st'(1) getStorageBarrier_of [OF written_ok(1) [OF st2(2)]] b
    by (simp add: State_Delete_def updateAccount_def setStorageBarrier_def)
  with st1(2) st2(2) st'(2) that show thesis by blast
qed

section \<open>Properties\<close>

text \<open>Reading back the trimmed bytes of a word.\<close>

lemma be_nat_trim: "be_nat (trim_left bs) = be_nat bs"
  by (induction bs) (auto simp: trim_left_def)

lemma be_nat_Bytes32_of: "be_nat (Bytes32_of v) = unat v"
proof -
  have "unat v < 256 ^ 32" using unsigned_less [of v] by (simp flip: of_nat_less_iff)
  then show ?thesis by (simp add: Bytes32_of_def be_nat_nat_be)
qed

lemma be_word_trim: "be_word (trim_left (Bytes32_of v)) = v"
  by (simp add: be_word_def be_nat_trim be_nat_Bytes32_of)

lemma trim_left_nonempty: "v \<noteq> 0 \<Longrightarrow> trim_left (Bytes32_of v) \<noteq> []"
  using be_word_trim [of v] by (auto simp: be_word_def)

lemma trim_left_props:
  "trim_left bs \<noteq> [] \<Longrightarrow> hd (trim_left bs) \<noteq> 0" "length (trim_left bs) \<le> length bs"
  using hd_dropWhile [of "\<lambda>b. b = 0" bs] by (simp_all add: trim_left_def length_dropWhile_le)

text \<open>The documented behaviour of the RLP package on short byte strings without leading zeros.\<close>

definition rlp_ok :: "state_deps \<Rightarrow> bool" where
  "rlp_ok D \<longleftrightarrow>
     (\<forall>bs. bs \<noteq> [] \<longrightarrow> hd bs \<noteq> 0 \<longrightarrow> length bs \<le> 32 \<longrightarrow> rlp_EncodeBytes D bs \<noteq> [] \<and>
        (\<exists>kind rest. kind \<noteq> rlp_List \<and> rlp_Split D (rlp_EncodeBytes D bs) = Inr (kind, bs, rest)))"

lemma rlp_word:
  assumes "rlp_ok D" and "v \<noteq> 0"
  obtains kind rest where "kind \<noteq> rlp_List" and "rlp_EncodeBytes D (trim_left (Bytes32_of v)) \<noteq> []"
    and "rlp_Split D (rlp_EncodeBytes D (trim_left (Bytes32_of v))) = Inr (kind, trim_left (Bytes32_of v), rest)"
proof -
  have "length (trim_left (Bytes32_of v)) \<le> 32"
    using trim_left_props(2) [of "Bytes32_of v"] by (simp add: Bytes32_of_def)
  with assms trim_left_nonempty [OF assms(2)] trim_left_props(1) [OF trim_left_nonempty [OF assms(2)]] that
  show thesis unfolding rlp_ok_def by blast
qed

lemma State_GetStorage_raw:
  assumes "state_ok st" and "healthy D (s_trie st)" and "state_ok st'" and "healthy D (s_trie st')"
    and "raw_of D st' a' k' = raw_of D st a k"
  shows "State_GetStorage D a' k' st' = State_GetStorage D a k st"
  by (simp add: State_GetStorage_def State_GetRawStorage_of [OF assms(1,2)] State_GetRawStorage_of [OF assms(3,4)] assms(5))

text \<open>
  C19: storage round trip.  A word written with \<open>SetStorage\<close> is read back by \<open>GetStorage\<close>, through the
  trimmed RLP encoding; every other slot, every account and every code keeps its value.
\<close>
theorem storage_round_trip:
  assumes "state_ok st" and "healthy D (s_trie st)" and "rlp_ok D"
  shows "\<exists>st'. State_SetStorage D a k v st = Some st' \<and> state_ok st' \<and> State_GetStorage D a k st' = Some (Inr v) \<and>
    (\<forall>a' k'. (a', k') = (a, k) \<or> State_GetStorage D a' k' st' = State_GetStorage D a' k' st) \<and>
    account_of D st' = account_of D st \<and> code_of D st' = code_of D st"
proof -
  let ?raw = "if v = 0 then [] else rlp_EncodeBytes D (trim_left (Bytes32_of v))"
  obtain st' where st': "State_SetRawStorage D a k ?raw st = Some st'"
    and w: "written (StorageKey a (barrier_of st a) k) (RawVal ?raw) st st'"
    by (rule State_SetRawStorage_of [OF assms(1)])
  have ok: "state_ok st'" "healthy D (s_trie st')" using written_ok [OF w] assms(2) by simp_all
  have set: "State_SetStorage D a k v st = Some st'" using st' by (simp add: State_SetStorage_def split: if_splits)
  have raw: "raw_of D st' a' k' = (if a' = a \<and> k' = k then ?raw else raw_of D st a' k')" for a' k'
    using values_written(3) [OF w] by (auto split: if_splits)
  have "State_GetStorage D a k st' = Some (Inr v)"
  proof (cases "v = 0")
    case True
    then show ?thesis by (simp add: State_GetStorage_def State_GetRawStorage_of [OF ok] raw)
  next
    case False
    obtain kind rest where "kind \<noteq> rlp_List" "rlp_EncodeBytes D (trim_left (Bytes32_of v)) \<noteq> []"
      "rlp_Split D (rlp_EncodeBytes D (trim_left (Bytes32_of v))) = Inr (kind, trim_left (Bytes32_of v), rest)"
      by (rule rlp_word [OF assms(3) False])
    with False show ?thesis by (simp add: State_GetStorage_def State_GetRawStorage_of [OF ok] raw be_word_trim)
  qed
  moreover have "State_GetStorage D a' k' st' = State_GetStorage D a' k' st" if "(a', k') \<noteq> (a, k)" for a' k'
    by (rule State_GetStorage_raw [OF assms(1,2) ok]) (use that raw [of a' k'] in auto)
  moreover have "account_of D st' = account_of D st" "code_of D st' = code_of D st"
    using values_written(1,2) [OF w] by (simp_all add: fun_eq_iff)
  ultimately show ?thesis using set ok(1) by blast
qed

text \<open>A database without accounts, for the witnesses.\<close>

definition demo_db :: state_deps where
  "demo_db =
     \<lparr>trie_Get = (\<lambda>name root key. Inr ([], [])), code_Get = (\<lambda>h. Inl (DbError ''not found'')),
      decode_Account = (\<lambda>bs. Inl (DbError ''rlp'')), decode_Metadata = (\<lambda>bs. Inl (DbError ''rlp'')),
      encode_Account = (\<lambda>a. Inl (DbError ''rlp'')), encode_Metadata = (\<lambda>a. Inl (DbError ''rlp'')),
      rlp_Split = (\<lambda>bs. case bs of [] \<Rightarrow> Inl (DbError ''rlp'') | b # bs \<Rightarrow> Inr (rlp_String, bs, [])),
      rlp_EncodeBytes = (\<lambda>bs. (0x80 + of_nat (length bs)) # bs), Blake2b = be_word, thor_Keccak256 = (\<lambda>bs. of_nat (length bs))\<rparr>"

definition demo_root :: trie_root where
  "demo_root = \<lparr>root_Hash = 0, root_Major = 0, root_Minor = 0\<rparr>"

lemma demo_db_ok: "healthy demo_db root" "rlp_ok demo_db"
proof -
  have "\<exists>v. getter demo_db root key = Some (Inr v)" for key
    by (cases key) (auto simp: getter_def loadAccount_def object_code_def object_storage_def demo_db_def emptyAccount_def)
  then show "healthy demo_db root" by (simp add: healthy_def)
  show "rlp_ok demo_db" by (auto simp: rlp_ok_def demo_db_def)
qed

lemma NewState_ok: "state_ok (NewState root)"
  by (simp add: NewState_def state_ok_def map_ok_def NewStackedMap_ok)

theorem storage_round_trip_witness:
  "\<exists>st'. State_SetStorage demo_db 1 2 0x1234 (NewState demo_root) = Some st' \<and>
     State_GetStorage demo_db 1 2 st' = Some (Inr 0x1234)"
  using storage_round_trip [OF NewState_ok [of demo_root] demo_db_ok, where a = 1 and k = 2 and v = "0x1234"] by blast

text \<open>
  C16: deletion clears an account for good.  After \<open>Delete\<close> the account does not exist, its balance,
  energy and code are empty and every slot of its storage reads zero, also the slots that the
  database still holds or that were written before; other accounts keep all their values.
\<close>
theorem Delete_clears_account:
  assumes "state_ok st" and "healthy D (s_trie st)"
  shows "\<exists>st'. State_Delete D a st = Some st' \<and> state_ok st' \<and> State_Exists D a st' = Some (Inr False) \<and>
    State_GetBalance D a st' = Some (Inr 0) \<and> State_GetEnergy D a t st' = Some (Inr 0) \<and>
    State_GetCode D a st' = Some (Inr []) \<and> State_GetStorage D a k st' = Some (Inr 0) \<and>
    (b = a \<or> account_of D st' b = account_of D st b \<and> code_of D st' b = code_of D st b \<and>
       State_GetStorage D b k st' = State_GetStorage D b k st)"
proof -
  obtain st1 st2 st' where del: "State_Delete D a st = Some st'"
    and w1: "written (CodeKey a) (CodeVal []) st st1" and w2: "written (AccountKey a) (AccountVal emptyAccount) st1 st2"
    and w3: "written (BarrierKey a) (BarrierVal (barrier_of st a + 1)) st2 st'"
    by (rule State_Delete_of [OF assms(1)])
  have ok: "state_ok st'" "healthy D (s_trie st')"
    using written_ok [OF w1] written_ok [OF w2] written_ok [OF w3] assms(2) by simp_all
  have acc: "account_of D st' a = emptyAccount" "code_of D st' a = []"
    using values_written(1,2) [OF w1] values_written(1,2) [OF w2] values_written(1,2) [OF w3] by simp_all
  have others: "account_of D st' b = account_of D st b" "code_of D st' b = code_of D st b" if "b \<noteq> a"
    using that values_written(1,2) [OF w1] values_written(1,2) [OF w2] values_written(1,2) [OF w3] by simp_all
  have bar: "barrier_of st' b = (if b = a then barrier_of st a + 1 else barrier_of st b)" for b
    using barrier_written [OF w1] barrier_written [OF w2] barrier_written [OF w3] by simp
  have cur: "cur D st' (StorageKey b n k) = cur D st (StorageKey b n k)" for b n
    using cur_written [OF w1] cur_written [OF w2] cur_written [OF w3] by simp
  have "last (smaps st) (StorageKey a (barrier_of st a + 1) k) = None"
    using map_ok_last [OF assms(1)] by (force simp: map_ok_def barrier_of_def)
  then have "raw_of D st' a k = []"
    using barrier_nonneg [OF assms(1), of a] by (simp add: raw_of_def bar cur) (simp add: cur_def getter_def)
  then have storage: "State_GetStorage D a k st' = Some (Inr 0)"
    by (simp add: State_GetStorage_def State_GetRawStorage_of [OF ok])
  have "State_GetStorage D b k st' = State_GetStorage D b k st" if "b \<noteq> a"
    by (rule State_GetStorage_raw [OF assms ok]) (simp add: raw_of_def bar cur that)
  with del ok acc others storage show ?thesis
    by (auto simp: State_Exists_def State_GetBalance_def State_GetEnergy_def read_account_of State_GetCode_of
        emptyAccount_def IsEmpty_def CalcEnergy_def)
qed

theorem Delete_clears_account_witness:
  "\<exists>st st'. State_SetRawStorage demo_db 1 2 [0x82, 0x12, 0x34] (NewState demo_root) = Some st \<and> State_Delete demo_db 1 st = Some st' \<and>
     State_GetStorage demo_db 1 2 st' = Some (Inr 0)"
proof -
  obtain st where "State_SetRawStorage demo_db 1 2 [0x82, 0x12, 0x34] (NewState demo_root) = Some st" "state_ok st"
    by (rule State_SetRawStorage_of [OF NewState_ok]) (auto dest: written_ok)
  with Delete_clears_account [OF _ demo_db_ok(1), where st = st and a = 1 and k = 2] show ?thesis by blast
qed

lemma div_add_bounds:
  assumes "(0 :: int) < c"
  shows "x div c + y div c \<le> (x + y) div c" and "(x + y) div c \<le> x div c + y div c + 1"
proof -
  have m: "0 \<le> x mod c" "x mod c < c" "0 \<le> y mod c" "y mod c < c" using assms by simp_all
  have "x + y = (x div c + y div c) * c + (x mod c + y mod c)" by (simp add: algebra_simps)
  then have "(x + y) div c = x div c + y div c + (x mod c + y mod c) div c"
    using assms by (metis div_mult_self3 less_irrefl)
  moreover have "0 \<le> (x mod c + y mod c) div c" using m assms by (simp add: pos_imp_zdiv_nonneg_iff)
  moreover have "(x mod c + y mod c) div c < 2"
  proof (rule ccontr)
    let ?s = "x mod c + y mod c"
    assume "\<not> ?s div c < 2"
    then have "2 * c \<le> ?s div c * c" using assms by (intro mult_right_mono) simp_all
    also have "\<dots> \<le> ?s" using assms div_mult_mod_eq [of ?s c] pos_mod_sign [OF assms, of ?s] by linarith
    finally show False using m by linarith
  qed
  ultimately show "x div c + y div c \<le> (x + y) div c" "(x + y) div c \<le> x div c + y div c + 1" by linarith+
qed

lemma CalcEnergy_touch:
  assumes "BlockTime a \<noteq> 0" and "BlockTime a \<le> t1" and "t1 \<le> t2"
  defines "b \<equiv> a\<lparr>Energy := CalcEnergy a t1, BlockTime := t1\<rparr>"
  shows "CalcEnergy b t2 \<le> CalcEnergy a t2" and "CalcEnergy a t2 \<le> CalcEnergy b t2 + 1"
proof -
  have c: "0 < bigE18" by (simp add: bigE18_def)
  have t1: "t1 \<noteq> 0" using assms(1,2) by auto
  have grow: "CalcEnergy x t = Energy x + uint (t - BlockTime x) * Balance x * EnergyGrowthRate div bigE18"
    if "BlockTime x \<noteq> 0" "BlockTime x \<le> t" for x t
    using that by (auto simp: CalcEnergy_def)
  have d: "uint (t2 - BlockTime a) = uint (t1 - BlockTime a) + uint (t2 - t1)"
    using assms(2,3) by (simp add: uint_minus_simple_alt [THEN iffD1] word_le_def)
  let ?x = "uint (t1 - BlockTime a) * Balance a * EnergyGrowthRate"
  let ?y = "uint (t2 - t1) * Balance a * EnergyGrowthRate"
  have "CalcEnergy a t2 = Energy a + (?x + ?y) div bigE18"
    using grow [of a t2] assms(1-3) by (simp add: d algebra_simps)
  moreover have "CalcEnergy b t2 = Energy a + ?x div bigE18 + ?y div bigE18"
    using grow [of b t2] grow [of a t1] assms(1-3) t1 by (simp add: b_def)
  ultimately show "CalcEnergy b t2 \<le> CalcEnergy a t2" and "CalcEnergy a t2 \<le> CalcEnergy b t2 + 1"
    using div_add_bounds [OF c, of ?x ?y] by linarith+
qed

lemma CalcEnergy_start:
  assumes "BlockTime a = 0"
  shows "CalcEnergy a t = Energy a"
    and "0 \<le> Balance a \<Longrightarrow> CalcEnergy a t2 \<le> CalcEnergy (a\<lparr>Energy := CalcEnergy a t1, BlockTime := t1\<rparr>) t2"
proof -
  show e: "CalcEnergy a t = Energy a" for t using assms by (simp add: CalcEnergy_def)
  assume "0 \<le> Balance a"
  then have "0 \<le> uint (t2 - t1) * Balance a * EnergyGrowthRate div bigE18"
    by (simp add: EnergyGrowthRate_def bigE18_def pos_imp_zdiv_nonneg_iff)
  then show "CalcEnergy a t2 \<le> CalcEnergy (a\<lparr>Energy := CalcEnergy a t1, BlockTime := t1\<rparr>) t2"
    by (simp add: e) (simp add: CalcEnergy_def)
qed

text \<open>
  C20: touching the energy.  Storing the energy of an account at the block time \<open>t1\<close>, as every transfer
  does, keeps its energy at that time.  For an account whose energy has been stored before (its block
  time is not 0), the energy at any later time changes by at most one unit, downwards: the rounding can
  lose a unit, never create one.  An account with block time 0 does not gather energy; touching it
  starts the growth, so that with a balance of at least 0 its later energy is not smaller.
\<close>
theorem touch_energy_loses_at_most_one:
  assumes "state_ok st" and "healthy D (s_trie st)" and "BlockTime (account_of D st a) \<le> t1" and "t1 \<le> t2"
  shows "\<exists>e st' e1 e2. State_GetEnergy D a t1 st = Some (Inr e) \<and> State_SetEnergy D a e t1 st = Some (st', None) \<and>
    State_GetEnergy D a t1 st' = Some (Inr e) \<and>
    State_GetEnergy D a t2 st = Some (Inr e1) \<and> State_GetEnergy D a t2 st' = Some (Inr e2) \<and>
    (if BlockTime (account_of D st a) \<noteq> 0 then e2 \<le> e1 \<and> e1 \<le> e2 + 1
     else e1 = e \<and> (0 \<le> Balance (account_of D st a) \<longrightarrow> e1 \<le> e2))"
proof -
  let ?x = "account_of D st a" and ?e = "CalcEnergy (account_of D st a) t1"
  obtain st' where set: "State_SetEnergy D a ?e t1 st = Some (st', None)"
    and w: "written (AccountKey a) (AccountVal (?x\<lparr>Energy := ?e, BlockTime := t1\<rparr>)) st st'"
    unfolding State_SetEnergy_def by (rule write_account_of [OF assms(1,2)])
  have ok: "state_ok st'" "healthy D (s_trie st')" using written_ok [OF w] assms(2) by simp_all
  have acc: "account_of D st' a = ?x\<lparr>Energy := ?e, BlockTime := t1\<rparr>" using values_written(1) [OF w] by simp
  have get: "State_GetEnergy D a t st = Some (Inr (CalcEnergy ?x t))"
    "State_GetEnergy D a t st' = Some (Inr (CalcEnergy (?x\<lparr>Energy := ?e, BlockTime := t1\<rparr>) t))" for t
    by (simp_all add: State_GetEnergy_def read_account_of [OF assms(1,2)] read_account_of [OF ok] acc)
  have "CalcEnergy (?x\<lparr>Energy := ?e, BlockTime := t1\<rparr>) t1 = ?e" by (simp add: CalcEnergy_def)
  with set get CalcEnergy_touch [OF _ assms(3,4)] CalcEnergy_start(1) [of ?x] CalcEnergy_start(2) [of ?x t2 t1] show ?thesis by auto
qed

theorem touch_energy_loses_at_most_one_witness:
  "\<exists>st e st' e1 e2. account_of demo_db st 1 = \<lparr>Balance = 3, Energy = 7, BlockTime = 10, Master = [], acc_CodeHash = [], StorageRoot = []\<rparr> \<and>
     State_GetEnergy demo_db 1 20 st = Some (Inr e) \<and> State_SetEnergy demo_db 1 e 20 st = Some (st', None) \<and>
     State_GetEnergy demo_db 1 30 st = Some (Inr e1) \<and> State_GetEnergy demo_db 1 30 st' = Some (Inr e2) \<and> e2 \<le> e1 \<and> e1 \<le> e2 + 1"
proof -
  let ?a = "\<lparr>Balance = 3, Energy = 7, BlockTime = 10, Master = [], acc_CodeHash = [], StorageRoot = []\<rparr>"
  obtain st where "written (AccountKey 1) (AccountVal ?a) (NewState demo_root) st"
    by (rule sm_put_written [OF NewState_ok [of demo_root], of "AccountKey 1" "AccountVal ?a"]) simp_all
  then have "state_ok st" "account_of demo_db st 1 = ?a" by (simp_all add: written_ok values_written)
  with touch_energy_loses_at_most_one [OF _ demo_db_ok(1), of st 1 20 30] show ?thesis by auto
qed

end
