(* ===== verification/OpCodes.thy ===== *)
theory OpCodes
  imports Prelude
begin

text \<open>
  The opcodes of the virtual machine (src/vm/opcodes.go).  An \<open>OpCode\<close> is a byte; the constants
  of the Go file are abbreviations for their values (the four names that are bit operators in
  Isabelle carry a prime).  The tables \<open>opCodeToString\<close> and \<open>stringToOp\<close> are association lists,
  read by \<open>String\<close> and \<open>StringToOp\<close>.
\<close>

type_synonym OpCode = byte

section \<open>Constants\<close>

abbreviation (input) STOP :: OpCode where "STOP \<equiv> 0x00"
abbreviation (input) ADD :: OpCode where "ADD \<equiv> 0x01"
abbreviation (input) MUL :: OpCode where "MUL \<equiv> 0x02"
abbreviation (input) SUB :: OpCode where "SUB \<equiv> 0x03"
abbreviation (input) DIV :: OpCode where "DIV \<equiv> 0x04"
abbreviation (input) SDIV :: OpCode where "SDIV \<equiv> 0x05"
abbreviation (input) MOD :: OpCode where "MOD \<equiv> 0x06"
abbreviation (input) SMOD :: OpCode where "SMOD \<equiv> 0x07"
abbreviation (input) ADDMOD :: OpCode where "ADDMOD \<equiv> 0x08"
abbreviation (input) MULMOD :: OpCode where "MULMOD \<equiv> 0x09"
abbreviation (input) EXP :: OpCode where "EXP \<equiv> 0x0a"
abbreviation (input) SIGNEXTEND :: OpCode where "SIGNEXTEND \<equiv> 0x0b"
abbreviation (input) LT :: OpCode where "LT \<equiv> 0x10"
abbreviation (input) GT :: OpCode where "GT \<equiv> 0x11"
abbreviation (input) SLT :: OpCode where "SLT \<equiv> 0x12"
abbreviation (input) SGT :: OpCode where "SGT \<equiv> 0x13"
abbreviation (input) EQ :: OpCode where "EQ \<equiv> 0x14"
abbreviation (input) ISZERO :: OpCode where "ISZERO \<equiv> 0x15"
abbreviation (input) AND' :: OpCode where "AND' \<equiv> 0x16"
abbreviation (input) OR' :: OpCode where "OR' \<equiv> 0x17"
abbreviation (input) XOR' :: OpCode where "XOR' \<equiv> 0x18"
abbreviation (input) NOT' :: OpCode where "NOT' \<equiv> 0x19"
abbreviation (input) BYTE :: OpCode where "BYTE \<equiv> 0x1a"
abbreviation (input) SHL :: OpCode where "SHL \<equiv> 0x1b"
abbreviation (input) SHR :: OpCode where "SHR \<equiv> 0x1c"
abbreviation (input) SAR :: OpCode where "SAR \<equiv> 0x1d"
abbreviation (input) SHA3 :: OpCode where "SHA3 \<equiv> 0x20"
abbreviation (input) ADDRESS :: OpCode where "ADDRESS \<equiv> 0x30"
abbreviation (input) BALANCE :: OpCode where "BALANCE \<equiv> 0x31"
abbreviation (input) ORIGIN :: OpCode where "ORIGIN \<equiv> 0x32"
abbreviation (input) CALLER :: OpCode where "CALLER \<equiv> 0x33"
abbreviation (input) CALLVALUE :: OpCode where "CALLVALUE \<equiv> 0x34"
abbreviation (input) CALLDATALOAD :: OpCode where "CALLDATALOAD \<equiv> 0x35"
abbreviation (input) CALLDATASIZE :: OpCode where "CALLDATASIZE \<equiv> 0x36"
abbreviation (input) CALLDATACOPY :: OpCode where "CALLDATACOPY \<equiv> 0x37"
abbreviation (input) CODESIZE :: OpCode where "CODESIZE \<equiv> 0x38"
abbreviation (input) CODECOPY :: OpCode where "CODECOPY \<equiv> 0x39"
abbreviation (input) GASPRICE :: OpCode where "GASPRICE \<equiv> 0x3a"
abbreviation (input) EXTCODESIZE :: OpCode where "EXTCODESIZE \<equiv> 0x3b"
abbreviation (input) EXTCODECOPY :: OpCode where "EXTCODECOPY \<equiv> 0x3c"
abbreviation (input) RETURNDATASIZE :: OpCode where "RETURNDATASIZE \<equiv> 0x3d"
abbreviation (input) RETURNDATACOPY :: OpCode where "RETURNDATACOPY \<equiv> 0x3e"
abbreviation (input) EXTCODEHASH :: OpCode where "EXTCODEHASH \<equiv> 0x3f"
abbreviation (input) BLOCKHASH :: OpCode where "BLOCKHASH \<equiv> 0x40"
abbreviation (input) COINBASE :: OpCode where "COINBASE \<equiv> 0x41"
abbreviation (input) TIMESTAMP :: OpCode where "TIMESTAMP \<equiv> 0x42"
abbreviation (input) NUMBER :: OpCode where "NUMBER \<equiv> 0x43"
abbreviation (input) DIFFICULTY :: OpCode where "DIFFICULTY \<equiv> 0x44"
abbreviation (input) GASLIMIT :: OpCode where "GASLIMIT \<equiv> 0x45"
abbreviation (input) CHAINID :: OpCode where "CHAINID \<equiv> 0x46"
abbreviation (input) SELFBALANCE :: OpCode where "SELFBALANCE \<equiv> 0x47"
abbreviation (input) POP :: OpCode where "POP \<equiv> 0x50"
abbreviation (input) MLOAD :: OpCode where "MLOAD \<equiv> 0x51"
abbreviation (input) MSTORE :: OpCode where "MSTORE \<equiv> 0x52"
abbreviation (input) MSTORE8 :: OpCode where "MSTORE8 \<equiv> 0x53"
abbreviation (input) SLOAD :: OpCode where "SLOAD \<equiv> 0x54"
abbreviation (input) SSTORE :: OpCode where "SSTORE \<equiv> 0x55"
abbreviation (input) JUMP :: OpCode where "JUMP \<equiv> 0x56"
abbreviation (input) JUMPI :: OpCode where "JUMPI \<equiv> 0x57"
abbreviation (input) PC :: OpCode where "PC \<equiv> 0x58"
abbreviation (input) MSIZE :: OpCode where "MSIZE \<equiv> 0x59"
abbreviation (input) GAS :: OpCode where "GAS \<equiv> 0x5a"
abbreviation (input) JUMPDEST :: OpCode where "JUMPDEST \<equiv> 0x5b"
abbreviation (input) PUSH1 :: OpCode where "PUSH1 \<equiv> 0x60"
abbreviation (input) PUSH2 :: OpCode where "PUSH2 \<equiv> 0x61"
abbreviation (input) PUSH3 :: OpCode where "PUSH3 \<equiv> 0x62"
abbreviation (input) PUSH4 :: OpCode where "PUSH4 \<equiv> 0x63"
abbreviation (input) PUSH5 :: OpCode where "PUSH5 \<equiv> 0x64"
abbreviation (input) PUSH6 :: OpCode where "PUSH6 \<equiv> 0x65"
abbreviation (input) PUSH7 :: OpCode where "PUSH7 \<equiv> 0x66"
abbreviation (input) PUSH8 :: OpCode where "PUSH8 \<equiv> 0x67"
abbreviation (input) PUSH9 :: OpCode where "PUSH9 \<equiv> 0x68"
abbreviation (input) PUSH10 :: OpCode where "PUSH10 \<equiv> 0x69"
abbreviation (input) PUSH11 :: OpCode where "PUSH11 \<equiv> 0x6a"
abbreviation (input) PUSH12 :: OpCode where "PUSH12 \<equiv> 0x6b"
abbreviation (input) PUSH13 :: OpCode where "PUSH13 \<equiv> 0x6c"
abbreviation (input) PUSH14 :: OpCode where "PUSH14 \<equiv> 0x6d"
abbreviation (input) PUSH15 :: OpCode where "PUSH15 \<equiv> 0x6e"
abbreviation (input) PUSH16 :: OpCode where "PUSH16 \<equiv> 0x6f"
abbreviation (input) PUSH17 :: OpCode where "PUSH17 \<equiv> 0x70"
abbreviation (input) PUSH18 :: OpCode where "PUSH18 \<equiv> 0x71"
abbreviation (input) PUSH19 :: OpCode where "PUSH19 \<equiv> 0x72"
abbreviation (input) PUSH20 :: OpCode where "PUSH20 \<equiv> 0x73"
abbreviation (input) PUSH21 :: OpCode where "PUSH21 \<equiv> 0x74"
abbreviation (input) PUSH22 :: OpCode where "PUSH22 \<equiv> 0x75"
abbreviation (input) PUSH23 :: OpCode where "PUSH23 \<equiv> 0x76"
abbreviation (input) PUSH24 :: OpCode where "PUSH24 \<equiv> 0x77"
abbreviation (input) PUSH25 :: OpCode where "PUSH25 \<equiv> 0x78"
abbreviation (input) PUSH26 :: OpCode where "PUSH26 \<equiv> 0x79"
abbreviation (input) PUSH27 :: OpCode where "PUSH27 \<equiv> 0x7a"
abbreviation (input) PUSH28 :: OpCode where "PUSH28 \<equiv> 0x7b"
abbreviation (input) PUSH29 :: OpCode where "PUSH29 \<equiv> 0x7c"
abbreviation (input) PUSH30 :: OpCode where "PUSH30 \<equiv> 0x7d"
abbreviation (input) PUSH31 :: OpCode where "PUSH31 \<equiv> 0x7e"
abbreviation (input) PUSH32 :: OpCode where "PUSH32 \<equiv> 0x7f"
abbreviation (input) DUP1 :: OpCode where "DUP1 \<equiv> 0x80"
abbreviation (input) DUP2 :: OpCode where "DUP2 \<equiv> 0x81"
abbreviation (input) DUP3 :: OpCode where "DUP3 \<equiv> 0x82"
abbreviation (input) DUP4 :: OpCode where "DUP4 \<equiv> 0x83"
abbreviation (input) DUP5 :: OpCode where "DUP5 \<equiv> 0x84"
abbreviation (input) DUP6 :: OpCode where "DUP6 \<equiv> 0x85"
abbreviation (input) DUP7 :: OpCode where "DUP7 \<equiv> 0x86"
abbreviation (input) DUP8 :: OpCode where "DUP8 \<equiv> 0x87"
abbreviation (input) DUP9 :: OpCode where "DUP9 \<equiv> 0x88"
abbreviation (input) DUP10 :: OpCode where "DUP10 \<equiv> 0x89"
abbreviation (input) DUP11 :: OpCode where "DUP11 \<equiv> 0x8a"
abbreviation (input) DUP12 :: OpCode where "DUP12 \<equiv> 0x8b"
abbreviation (input) DUP13 :: OpCode where "DUP13 \<equiv> 0x8c"
abbreviation (input) DUP14 :: OpCode where "DUP14 \<equiv> 0x8d"
abbreviation (input) DUP15 :: OpCode where "DUP15 \<equiv> 0x8e"
abbreviation (input) DUP16 :: OpCode where "DUP16 \<equiv> 0x8f"
abbreviation (input) SWAP1 :: OpCode where "SWAP1 \<equiv> 0x90"
abbreviation (input) SWAP2 :: OpCode where "SWAP2 \<equiv> 0x91"
abbreviation (input) SWAP3 :: OpCode where "SWAP3 \<equiv> 0x92"
abbreviation (input) SWAP4 :: OpCode where "SWAP4 \<equiv> 0x93"
abbreviation (input) SWAP5 :: OpCode where "SWAP5 \<equiv> 0x94"
abbreviation (input) SWAP6 :: OpCode where "SWAP6 \<equiv> 0x95"
abbreviation (input) SWAP7 :: OpCode where "SWAP7 \<equiv> 0x96"
abbreviation (input) SWAP8 :: OpCode where "SWAP8 \<equiv> 0x97"
abbreviation (input) SWAP9 :: OpCode where "SWAP9 \<equiv> 0x98"
abbreviation (input) SWAP10 :: OpCode where "SWAP10 \<equiv> 0x99"
abbreviation (input) SWAP11 :: OpCode where "SWAP11 \<equiv> 0x9a"
abbreviation (input) SWAP12 :: OpCode where "SWAP12 \<equiv> 0x9b"
abbreviation (input) SWAP13 :: OpCode where "SWAP13 \<equiv> 0x9c"
abbreviation (input) SWAP14 :: OpCode where "SWAP14 \<equiv> 0x9d"
abbreviation (input) SWAP15 :: OpCode where "SWAP15 \<equiv> 0x9e"
abbreviation (input) SWAP16 :: OpCode where "SWAP16 \<equiv> 0x9f"
abbreviation (input) LOG0 :: OpCode where "LOG0 \<equiv> 0xa0"
abbreviation (input) LOG1 :: OpCode where "LOG1 \<equiv> 0xa1"
abbreviation (input) LOG2 :: OpCode where "LOG2 \<equiv> 0xa2"
abbreviation (input) LOG3 :: OpCode where "LOG3 \<equiv> 0xa3"
abbreviation (input) LOG4 :: OpCode where "LOG4 \<equiv> 0xa4"
abbreviation (input) PUSH :: OpCode where "PUSH \<equiv> 0xb0"
abbreviation (input) DUP :: OpCode where "DUP \<equiv> 0xb1"
abbreviation (input) SWAP :: OpCode where "SWAP \<equiv> 0xb2"
abbreviation (input) CREATE :: OpCode where "CREATE \<equiv> 0xf0"
abbreviation (input) CALL :: OpCode where "CALL \<equiv> 0xf1"
abbreviation (input) CALLCODE :: OpCode where "CALLCODE \<equiv> 0xf2"
abbreviation (input) RETURN :: OpCode where "RETURN \<equiv> 0xf3"
abbreviation (input) DELEGATECALL :: OpCode where "DELEGATECALL \<equiv> 0xf4"
abbreviation (input) CREATE2 :: OpCode where "CREATE2 \<equiv> 0xf5"
abbreviation (input) STATICCALL :: OpCode where "STATICCALL \<equiv> 0xfa"
abbreviation (input) REVERT :: OpCode where "REVERT \<equiv> 0xfd"
abbreviation (input) SELFDESTRUCT :: OpCode where "SELFDESTRUCT \<equiv> 0xff"

section \<open>Names\<close>

definition opCodeToString :: "(OpCode \<times> string) list" where
  "opCodeToString =
    [(STOP, ''STOP''), (ADD, ''ADD''), (MUL, ''MUL''),
     (SUB, ''SUB''), (DIV, ''DIV''), (SDIV, ''SDIV''),
     (MOD, ''MOD''), (SMOD, ''SMOD''), (EXP, ''EXP''),
     (NOT', ''NOT''), (LT, ''LT''), (GT, ''GT''),
     (SLT, ''SLT''), (SGT, ''SGT''), (EQ, ''EQ''),
     (ISZERO, ''ISZERO''), (SIGNEXTEND, ''SIGNEXTEND''), (AND', ''AND''),
     (OR', ''OR''), (XOR', ''XOR''), (BYTE, ''BYTE''),
     (SHL, ''SHL''), (SHR, ''SHR''), (SAR, ''SAR''),
     (ADDMOD, ''ADDMOD''), (MULMOD, ''MULMOD''), (SHA3, ''SHA3''),
     (ADDRESS, ''ADDRESS''), (BALANCE, ''BALANCE''), (ORIGIN, ''ORIGIN''),
     (CALLER, ''CALLER''), (CALLVALUE, ''CALLVALUE''), (CALLDATALOAD, ''CALLDATALOAD''),
     (CALLDATASIZE, ''CALLDATASIZE''), (CALLDATACOPY, ''CALLDATACOPY''), (CODESIZE, ''CODESIZE''),
     (CODECOPY, ''CODECOPY''), (GASPRICE, ''GASPRICE''), (EXTCODESIZE, ''EXTCODESIZE''),
     (EXTCODECOPY, ''EXTCODECOPY''), (RETURNDATASIZE, ''RETURNDATASIZE''), (RETURNDATACOPY, ''RETURNDATACOPY''),
     (EXTCODEHASH, ''EXTCODEHASH''), (BLOCKHASH, ''BLOCKHASH''), (COINBASE, ''COINBASE''),
     (TIMESTAMP, ''TIMESTAMP''), (NUMBER, ''NUMBER''), (DIFFICULTY, ''DIFFICULTY''),
     (GASLIMIT, ''GASLIMIT''), (CHAINID, ''CHAINID''), (SELFBALANCE, ''SELFBALANCE''),
     (POP, ''POP''), (MLOAD, ''MLOAD''), (MSTORE, ''MSTORE''),
     (MSTORE8, ''MSTORE8''), (SLOAD, ''SLOAD''), (SSTORE, ''SSTORE''),
     (JUMP, ''JUMP''), (JUMPI, ''JUMPI''), (PC, ''PC''),
     (MSIZE, ''MSIZE''), (GAS, ''GAS''), (JUMPDEST, ''JUMPDEST''),
     (PUSH1, ''PUSH1''), (PUSH2, ''PUSH2''), (PUSH3, ''PUSH3''),
     (PUSH4, ''PUSH4''), (PUSH5, ''PUSH5''), (PUSH6, ''PUSH6''),
     (PUSH7, ''PUSH7''), (PUSH8, ''PUSH8''), (PUSH9, ''PUSH9''),
     (PUSH10, ''PUSH10''), (PUSH11, ''PUSH11''), (PUSH12, ''PUSH12''),
     (PUSH13, ''PUSH13''), (PUSH14, ''PUSH14''), (PUSH15, ''PUSH15''),
     (PUSH16, ''PUSH16''), (PUSH17, ''PUSH17''), (PUSH18, ''PUSH18''),
     (PUSH19, ''PUSH19''), (PUSH20, ''PUSH20''), (PUSH21, ''PUSH21''),
     (PUSH22, ''PUSH22''), (PUSH23, ''PUSH23''), (PUSH24, ''PUSH24''),
     (PUSH25, ''PUSH25''), (PUSH26, ''PUSH26''), (PUSH27, ''PUSH27''),
     (PUSH28, ''PUSH28''), (PUSH29, ''PUSH29''), (PUSH30, ''PUSH30''),
     (PUSH31, ''PUSH31''), (PUSH32, ''PUSH32''), (DUP1, ''DUP1''),
     (DUP2, ''DUP2''), (DUP3, ''DUP3''), (DUP4, ''DUP4''),
     (DUP5, ''DUP5''), (DUP6, ''DUP6''), (DUP7, ''DUP7''),
     (DUP8, ''DUP8''), (DUP9, ''DUP9''), (DUP10, ''DUP10''),
     (DUP11, ''DUP11''), (DUP12, ''DUP12''), (DUP13, ''DUP13''),
     (DUP14, ''DUP14''), (DUP15, ''DUP15''), (DUP16, ''DUP16''),
     (SWAP1, ''SWAP1''), (SWAP2, ''SWAP2''), (SWAP3, ''SWAP3''),
     (SWAP4, ''SWAP4''), (SWAP5, ''SWAP5''), (SWAP6, ''SWAP6''),
     (SWAP7, ''SWAP7''), (SWAP8, ''SWAP8''), (SWAP9, ''SWAP9''),
     (SWAP10, ''SWAP10''), (SWAP11, ''SWAP11''), (SWAP12, ''SWAP12''),
     (SWAP13, ''SWAP13''), (SWAP14, ''SWAP14''), (SWAP15, ''SWAP15''),
     (SWAP16, ''SWAP16''), (LOG0, ''LOG0''), (LOG1, ''LOG1''),
     (LOG2, ''LOG2''), (LOG3, ''LOG3''), (LOG4, ''LOG4''),
     (CREATE, ''CREATE''), (CALL, ''CALL''), (RETURN, ''RETURN''),
     (CALLCODE, ''CALLCODE''), (DELEGATECALL, ''DELEGATECALL''), (CREATE2, ''CREATE2''),
     (STATICCALL, ''STATICCALL''), (REVERT, ''REVERT''), (SELFDESTRUCT, ''SELFDESTRUCT''),
     (PUSH, ''PUSH''), (DUP, ''DUP''), (SWAP, ''SWAP'')]"

definition stringToOp :: "(string \<times> OpCode) list" where
  "stringToOp =
    [(''STOP'', STOP), (''ADD'', ADD), (''MUL'', MUL),
     (''SUB'', SUB), (''DIV'', DIV), (''SDIV'', SDIV),
     (''MOD'', MOD), (''SMOD'', SMOD), (''EXP'', EXP),
     (''NOT'', NOT'), (''LT'', LT), (''GT'', GT),
     (''SLT'', SLT), (''SGT'', SGT), (''EQ'', EQ),
     (''ISZERO'', ISZERO), (''SIGNEXTEND'', SIGNEXTEND), (''AND'', AND'),
     (''OR'', OR'), (''XOR'', XOR'), (''BYTE'', BYTE),
     (''SHL'', SHL), (''SHR'', SHR), (''SAR'', SAR),
     (''ADDMOD'', ADDMOD), (''MULMOD'', MULMOD), (''SHA3'', SHA3),
     (''ADDRESS'', ADDRESS), (''BALANCE'', BALANCE), (''ORIGIN'', ORIGIN),
     (''CALLER'', CALLER), (''CALLVALUE'', CALLVALUE), (''CALLDATALOAD'', CALLDATALOAD),
     (''CALLDATASIZE'', CALLDATASIZE), (''CALLDATACOPY'', CALLDATACOPY), (''CHAINID'', CHAINID),
     (''DELEGATECALL'', DELEGATECALL), (''STATICCALL'', STATICCALL), (''CODESIZE'', CODESIZE),
     (''CODECOPY'', CODECOPY), (''GASPRICE'', GASPRICE), (''EXTCODESIZE'', EXTCODESIZE),
     (''EXTCODECOPY'', EXTCODECOPY), (''RETURNDATASIZE'', RETURNDATASIZE), (''RETURNDATACOPY'', RETURNDATACOPY),
     (''EXTCODEHASH'', EXTCODEHASH), (''BLOCKHASH'', BLOCKHASH), (''COINBASE'', COINBASE),
     (''TIMESTAMP'', TIMESTAMP), (''NUMBER'', NUMBER), (''DIFFICULTY'', DIFFICULTY),
     (''GASLIMIT'', GASLIMIT), (''SELFBALANCE'', SELFBALANCE), (''POP'', POP),
     (''MLOAD'', MLOAD), (''MSTORE'', MSTORE), (''MSTORE8'', MSTORE8),
     (''SLOAD'', SLOAD), (''SSTORE'', SSTORE), (''JUMP'', JUMP),
     (''JUMPI'', JUMPI), (''PC'', PC), (''MSIZE'', MSIZE),
     (''GAS'', GAS), (''JUMPDEST'', JUMPDEST), (''PUSH1'', PUSH1),
     (''PUSH2'', PUSH2), (''PUSH3'', PUSH3), (''PUSH4'', PUSH4),
     (''PUSH5'', PUSH5), (''PUSH6'', PUSH6), (''PUSH7'', PUSH7),
     (''PUSH8'', PUSH8), (''PUSH9'', PUSH9), (''PUSH10'', PUSH10),
     (''PUSH11'', PUSH11), (''PUSH12'', PUSH12), (''PUSH13'', PUSH13),
     (''PUSH14'', PUSH14), (''PUSH15'', PUSH15), (''PUSH16'', PUSH16),
     (''PUSH17'', PUSH17), (''PUSH18'', PUSH18), (''PUSH19'', PUSH19),
     (''PUSH20'', PUSH20), (''PUSH21'', PUSH21), (''PUSH22'', PUSH22),
     (''PUSH23'', PUSH23), (''PUSH24'', PUSH24), (''PUSH25'', PUSH25),
     (''PUSH26'', PUSH26), (''PUSH27'', PUSH27), (''PUSH28'', PUSH28),
     (''PUSH29'', PUSH29), (''PUSH30'', PUSH30), (''PUSH31'', PUSH31),
     (''PUSH32'', PUSH32), (''DUP1'', DUP1), (''DUP2'', DUP2),
     (''DUP3'', DUP3), (''DUP4'', DUP4), (''DUP5'', DUP5),
     (''DUP6'', DUP6), (''DUP7'', DUP7), (''DUP8'', DUP8),
     (''DUP9'', DUP9), (''DUP10'', DUP10), (''DUP11'', DUP11),
     (''DUP12'', DUP12), (''DUP13'', DUP13), (''DUP14'', DUP14),
     (''DUP15'', DUP15), (''DUP16'', DUP16), (''SWAP1'', SWAP1),
     (''SWAP2'', SWAP2), (''SWAP3'', SWAP3), (''SWAP4'', SWAP4),
     (''SWAP5'', SWAP5), (''SWAP6'', SWAP6), (''SWAP7'', SWAP7),
     (''SWAP8'', SWAP8), (''SWAP9'', SWAP9), (''SWAP10'', SWAP10),
     (''SWAP11'', SWAP11), (''SWAP12'', SWAP12), (''SWAP13'', SWAP13),
     (''SWAP14'', SWAP14), (''SWAP15'', SWAP15), (''SWAP16'', SWAP16),
     (''LOG0'', LOG0), (''LOG1'', LOG1), (''LOG2'', LOG2),
     (''LOG3'', LOG3), (''LOG4'', LOG4), (''CREATE'', CREATE),
     (''CREATE2'', CREATE2), (''CALL'', CALL), (''RETURN'', RETURN),
     (''CALLCODE'', CALLCODE), (''REVERT'', REVERT), (''SELFDESTRUCT'', SELFDESTRUCT)]"

text \<open>A missing key of a Go map reads as the zero value: the empty string, the opcode 0.\<close>

definition String :: "OpCode \<Rightarrow> string" where
  "String op =
     (let str = (case map_of opCodeToString op of Some s \<Rightarrow> s | None \<Rightarrow> [])
      in if length str = 0 then ''Missing opcode 0x'' @ hex_byte op else str)"

definition StringToOp :: "string \<Rightarrow> OpCode" where
  "StringToOp str = (case map_of stringToOp str of Some op \<Rightarrow> op | None \<Rightarrow> 0)"

definition IsPush :: "OpCode \<Rightarrow> bool" where
  "IsPush op \<longleftrightarrow>
     op \<in> set [PUSH1, PUSH2, PUSH3, PUSH4, PUSH5, PUSH6, PUSH7, PUSH8, PUSH9, PUSH10, PUSH11,
       PUSH12, PUSH13, PUSH14, PUSH15, PUSH16, PUSH17, PUSH18, PUSH19, PUSH20, PUSH21, PUSH22,
       PUSH23, PUSH24, PUSH25, PUSH26, PUSH27, PUSH28, PUSH29, PUSH30, PUSH31, PUSH32]"

definition IsStaticJump :: "OpCode \<Rightarrow> bool" where
  "IsStaticJump op \<longleftrightarrow> op = JUMP"

section \<open>Properties\<close>

text \<open>A table lookup that succeeds returns an entry: facts about names are facts about entries.\<close>

lemma map_of_all: "list_all (\<lambda>(k, v). P k v) xs \<Longrightarrow> map_of xs k = Some v \<Longrightarrow> P k v"
  by (induction xs) (auto split: if_splits)

text \<open>All bytes, as the conversions of the numbers below 256.\<close>

lemma all_bytes: "(\<And>n. n < 256 \<Longrightarrow> P (of_nat n :: byte)) \<Longrightarrow> P b"
proof -
  assume "\<And>n. n < 256 \<Longrightarrow> P (of_nat n :: byte)"
  moreover have "unat b < 256" using unsigned_less [of b] by simp
  ultimately have "P (of_nat (unat b))" by blast
  then show ?thesis by simp
qed

lemma IsPush_upt: "IsPush op \<longleftrightarrow> op \<in> of_nat ` set [0x60..<0x80]"
  by (simp add: IsPush_def upt_rec del: set_upt)

lemma IsPush_iff: "IsPush op \<longleftrightarrow> 0x60 \<le> unat op \<and> unat op \<le> 0x7f"
proof
  assume "IsPush op"
  then obtain n where n: "n \<in> set [0x60..<0x80]" and "op = of_nat n"
    unfolding IsPush_upt by (rule imageE)
  moreover from n have "0x60 \<le> n \<and> n < 0x80"
    unfolding set_upt by (simp only: atLeastLessThan_iff)
  ultimately show "0x60 \<le> unat op \<and> unat op \<le> 0x7f" by (simp add: unat_of_nat del: set_upt)
next
  assume "0x60 \<le> unat op \<and> unat op \<le> 0x7f"
  then have "unat op \<in> {0x60..<0x80}" by (simp only: atLeastLessThan_iff) arith
  then have "unat op \<in> set [0x60..<0x80]" by (simp only: set_upt)
  then have "of_nat (unat op) \<in> (of_nat ` set [0x60..<0x80] :: byte set)" by (rule imageI)
  then show "IsPush op" by (simp add: IsPush_upt del: set_upt)
qed

lemma opCodeToString_entries:
  "list_all (\<lambda>(op, s). s \<noteq> [] \<and> CHR ''-'' \<notin> set s) opCodeToString"
  by (simp add: opCodeToString_def)

lemma opCodeToString_named: "map_of opCodeToString op = Some s \<Longrightarrow> s \<noteq> [] \<and> CHR ''-'' \<notin> set s"
  by (rule map_of_all [OF opCodeToString_entries])

lemma String_no_dash: "CHR ''-'' \<notin> set (String op)"
proof (cases "map_of opCodeToString op")
  case None
  have "CHR ''-'' \<notin> set (hex_byte op)"
    using hex_byte_chars [of op] by auto
  with None show ?thesis by (simp add: String_def)
next
  case (Some s)
  then show ?thesis using opCodeToString_named by (simp add: String_def)
qed

lemma String_nonempty: "String op \<noteq> []"
  by (auto simp: String_def Let_def)

text \<open>The opcodes that the machine knows; the three pseudo opcodes have a name that is not parsed.\<close>

definition named :: "OpCode \<Rightarrow> bool" where
  "named op \<longleftrightarrow> map_of opCodeToString op \<noteq> None \<and> op \<noteq> PUSH \<and> op \<noteq> DUP \<and> op \<noteq> SWAP"

lemma opCodeToString_parsed:
  "list_all (\<lambda>(op, s). map_of stringToOp s = (if op = PUSH \<or> op = DUP \<or> op = SWAP then None else Some op)) opCodeToString"
  by code_simp

lemma stringToOp_missing: "list_all (\<lambda>(s, op). take 7 s \<noteq> ''Missing'') stringToOp"
  by (simp add: stringToOp_def)

lemma opCodeToString_missing: "list_all (\<lambda>(op, s). take 7 s \<noteq> ''Missing'') opCodeToString"
  by (simp add: opCodeToString_def)

lemma stringToOp_values:
  "distinct (map (\<lambda>(s, op). unat op) stringToOp)"
  "list_all (\<lambda>n. n \<in> set (map (\<lambda>(op, s). unat op) opCodeToString) \<and> n \<noteq> 176 \<and> n \<noteq> 177 \<and> n \<noteq> 178) (map (\<lambda>(s, op). unat op) stringToOp)"
  by (simp_all add: stringToOp_def opCodeToString_def)

lemma stringToOp_printed:
  assumes "map_of stringToOp s = Some op"
  shows "map_of opCodeToString op = Some s"
proof -
  have s: "(s, op) \<in> set stringToOp" by (rule map_of_SomeD [OF assms])
  then have "unat op \<in> set (map (\<lambda>(op, s). unat op) opCodeToString)" and n: "unat op \<noteq> 176" "unat op \<noteq> 177" "unat op \<noteq> 178"
    using stringToOp_values(2) by (auto simp: list_all_iff)
  then obtain op' s' where "(op', s') \<in> set opCodeToString" "unat op' = unat op" by auto
  then have "op \<in> fst ` set opCodeToString" by (force simp: word_unat_eq_iff)
  then obtain s' where s': "map_of opCodeToString op = Some s'" by (metis map_of_eq_None_iff not_None_eq)
  have "op \<noteq> PUSH" "op \<noteq> DUP" "op \<noteq> SWAP" using n by auto
  with map_of_all [OF opCodeToString_parsed s'] have "map_of stringToOp s' = Some op" by simp
  from map_of_SomeD [OF this] s stringToOp_values(1) have "s' = s"
    by (auto simp: distinct_map inj_on_def)
  with s' show ?thesis by simp
qed

lemma opCodeToString_pseudo:
  "list_all (\<lambda>(op, s). op \<noteq> PUSH \<and> op \<noteq> DUP \<and> op \<noteq> SWAP \<or> map_of [(''PUSH'', PUSH), (''DUP'', DUP), (''SWAP'', SWAP)] s = Some op)
     opCodeToString"
  by (simp add: opCodeToString_def)

lemma String_named: "map_of opCodeToString op = Some s \<Longrightarrow> String op = s"
  using opCodeToString_named by (simp add: String_def)

lemma String_unnamed: "map_of opCodeToString op = None \<Longrightarrow> String op = ''Missing opcode 0x'' @ hex_byte op"
  by (simp add: String_def)

lemma StringToOp_String: "StringToOp (String op) = (if named op then op else STOP)"
proof (cases "map_of opCodeToString op")
  case None
  have "map_of stringToOp (''Missing opcode 0x'' @ hex_byte op) = None"
  proof (rule ccontr)
    assume "map_of stringToOp (''Missing opcode 0x'' @ hex_byte op) \<noteq> None"
    then obtain x where "map_of stringToOp (''Missing opcode 0x'' @ hex_byte op) = Some x" by blast
    from map_of_all [OF stringToOp_missing this] show False by simp
  qed
  with None show ?thesis by (simp add: StringToOp_def String_unnamed named_def)
next
  case (Some s)
  from map_of_all [OF opCodeToString_parsed this] Some show ?thesis
    by (auto simp: StringToOp_def String_named [OF Some] named_def)
qed

lemma String_StringToOp: "StringToOp s = STOP \<or> String (StringToOp s) = s"
proof (cases "map_of stringToOp s")
  case (Some op)
  from stringToOp_printed [OF this] show ?thesis using Some by (simp add: StringToOp_def String_named)
qed (simp add: StringToOp_def)

lemma String_inj: "inj String"
proof (rule injI)
  fix a b :: OpCode
  assume eq: "String a = String b"
  have miss: "take 7 (''Missing opcode 0x'' @ s) = ''Missing''" for s by simp
  show "a = b"
  proof (cases "map_of opCodeToString a"; cases "map_of opCodeToString b")
    fix s s'
    assume a: "map_of opCodeToString a = Some s" and b: "map_of opCodeToString b = Some s'"
    with eq have "s' = s" by (simp add: String_named)
    with map_of_all [OF opCodeToString_parsed a] map_of_all [OF opCodeToString_parsed b]
      map_of_all [OF opCodeToString_pseudo a] map_of_all [OF opCodeToString_pseudo b]
    show "a = b" by (auto split: if_splits)
  next
    assume "map_of opCodeToString a = None" "map_of opCodeToString b = None"
    with eq have "hex_byte a = hex_byte b" by (simp add: String_unnamed)
    then show "a = b" by (rule hex_byte_inj)
  next
    fix s
    assume a: "map_of opCodeToString a = Some s" and b: "map_of opCodeToString b = None"
    from map_of_all [OF opCodeToString_missing a] eq miss show "a = b" by (simp add: String_named [OF a] String_unnamed [OF b])
  next
    fix s
    assume a: "map_of opCodeToString a = None" and b: "map_of opCodeToString b = Some s"
    from map_of_all [OF opCodeToString_missing b] eq miss show "a = b" by (auto simp: String_named [OF b] String_unnamed [OF a])
  qed
qed

end
