(* ===== verification/VmTypes.thy ===== *)
theory VmTypes
  imports OpCodes "HOL-Library.Monad_Syntax"
begin

text \<open>
  What the package src/vm takes from outside and the errors it returns.

  The record \<open>deps\<close> holds the third-party functions and constants that the package calls: the
  arithmetic of \<open>github.com/holiman/uint256\<close>, the checked additions of go-ethereum's
  \<open>common/math\<close>, \<open>common.RightPadBytes\<close>, the hash behind \<open>thor.Keccak256\<close> and the protocol
  constants of go-ethereum's \<open>params\<close>.  Every definition that uses one of them takes the record
  as an argument; \<open>safe_math_ok\<close> and \<open>pad_ok\<close> state the documented behaviour that a theorem may
  rely on.
\<close>

section \<open>Errors\<close>

datatype error =
    ErrOutOfGas
  | ErrCodeStoreOutOfGas
  | ErrDepth
  | ErrTraceLimitReached
  | ErrInsufficientBalance
  | ErrContractAddressCollision
  | ErrExecutionReverted
  | errWriteProtection
  | errReturnDataOutOfBounds
  | errMaxCodeSizeExceeded
  | errGasUintOverflow
  | ErrInvalidOpCode OpCode
  | ErrStackUnderflow nat nat
  | ErrStackLimit nat nat
  | ErrInvalidJump OpCode u256
  | ErrNative string

section \<open>Third-party functions and constants\<close>

record deps =
  RightPadBytes :: "bytes \<Rightarrow> int \<Rightarrow> bytes"
  SafeAdd :: "u64 \<Rightarrow> u64 \<Rightarrow> u64 \<times> bool"
  SafeMul :: "u64 \<Rightarrow> u64 \<Rightarrow> u64 \<times> bool"
  Keccak256 :: "bytes \<Rightarrow> hash"
  Add :: "u256 \<Rightarrow> u256 \<Rightarrow> u256"
  Sub :: "u256 \<Rightarrow> u256 \<Rightarrow> u256"
  Mul :: "u256 \<Rightarrow> u256 \<Rightarrow> u256"
  Div :: "u256 \<Rightarrow> u256 \<Rightarrow> u256"
  SDiv :: "u256 \<Rightarrow> u256 \<Rightarrow> u256"
  Mod :: "u256 \<Rightarrow> u256 \<Rightarrow> u256"
  SMod :: "u256 \<Rightarrow> u256 \<Rightarrow> u256"
  Exp :: "u256 \<Rightarrow> u256 \<Rightarrow> u256"
  ExtendSign :: "u256 \<Rightarrow> u256 \<Rightarrow> u256"
  Not :: "u256 \<Rightarrow> u256"
  Lt :: "u256 \<Rightarrow> u256 \<Rightarrow> bool"
  Gt :: "u256 \<Rightarrow> u256 \<Rightarrow> bool"
  Slt :: "u256 \<Rightarrow> u256 \<Rightarrow> bool"
  Sgt :: "u256 \<Rightarrow> u256 \<Rightarrow> bool"
  And :: "u256 \<Rightarrow> u256 \<Rightarrow> u256"
  Or :: "u256 \<Rightarrow> u256 \<Rightarrow> u256"
  Xor :: "u256 \<Rightarrow> u256 \<Rightarrow> u256"
  Byte :: "u256 \<Rightarrow> u256 \<Rightarrow> u256"
  AddMod :: "u256 \<Rightarrow> u256 \<Rightarrow> u256 \<Rightarrow> u256"
  MulMod :: "u256 \<Rightarrow> u256 \<Rightarrow> u256 \<Rightarrow> u256"
  Lsh :: "u256 \<Rightarrow> nat \<Rightarrow> u256"
  Rsh :: "u256 \<Rightarrow> nat \<Rightarrow> u256"
  SRsh :: "u256 \<Rightarrow> nat \<Rightarrow> u256"
  StackLimit :: nat
  MemoryGas :: u64
  QuadCoeffDiv :: u64
  CopyGas :: u64
  SstoreSetGas :: u64
  SstoreRefundGas :: u64
  SstoreClearGas :: u64
  SstoreResetGas :: u64
  LogGas :: u64
  LogTopicGas :: u64
  LogDataGas :: u64
  Sha3Gas :: u64
  Sha3WordGas :: u64
  CreateGas :: u64
  Create2Gas :: u64
  CallNewAccountGas :: u64
  CallValueTransferGas :: u64
  CallStipend :: u64
  SuicideRefundGas :: u64
  JumpdestGas :: u64
  CallCreateDepth :: nat
  MaxCodeSize :: nat
  CreateDataGas :: u64

text \<open>Documented behaviour of the checked additions and of the padding.\<close>

definition safe_math_ok :: "deps \<Rightarrow> bool" where
  "safe_math_ok d \<longleftrightarrow>
     (\<forall>x y. SafeAdd d x y = (x + y, 2 ^ 64 \<le> unat x + unat y)) \<and>
     (\<forall>x y. SafeMul d x y = (x * y, 2 ^ 64 \<le> unat x * unat y))"

definition pad_ok :: "deps \<Rightarrow> bool" where
  "pad_ok d \<longleftrightarrow>
     (\<forall>bs l. RightPadBytes d bs l =
        (if l \<le> int (length bs) then bs else bs @ replicate (nat l - length bs) 0))"

lemma SafeAdd_noovf:
  "safe_math_ok d \<Longrightarrow> SafeAdd d x y = (z, False) \<Longrightarrow> unat z = unat x + unat y"
  by (auto simp: safe_math_ok_def unat_word_ariths)

lemma SafeMul_noovf:
  "safe_math_ok d \<Longrightarrow> SafeMul d x y = (z, False) \<Longrightarrow> unat z = unat x * unat y"
  by (auto simp: safe_math_ok_def unat_word_ariths)

end
