(* ===== verification/VmMemory.thy ===== *)
theory VmMemory
  imports VmTypes
begin

text \<open>
  The operand stack and the byte memory of one execution frame (src/vm/stack.go,
  src/vm/memory.go), the helpers of src/vm/common.go, and the size and stack checks that the
  jump table attaches to an operation (src/vm/memory_table.go, src/vm/stack_table.go).

  A \<open>Stack\<close> is the list of its words with the top first (the Go slice in reverse).  The result
  \<open>None\<close> is a Go run-time panic: an index out of range, or the explicit \<open>panic\<close> of
  \<open>Memory.Set\<close>.  Go allows to re-slice beyond the length of a slice up to its capacity; the
  model treats such a read as a panic, and the theorems show that it does not happen.
\<close>

section \<open>Stack\<close>

type_synonym Stack = "u256 list"

definition push :: "u256 \<Rightarrow> Stack \<Rightarrow> Stack" where
  [vm_defs]: "push d st = d # st"

fun popptr :: "Stack \<Rightarrow> (u256 \<times> Stack) option" where
  "popptr [] = None"
| "popptr (x # st) = Some (x, st)"

definition pop :: "Stack \<Rightarrow> (u256 \<times> Stack) option" where
  [vm_defs]: "pop st = popptr st"

definition swap :: "nat \<Rightarrow> Stack \<Rightarrow> Stack option" where
  [vm_defs]: "swap n st =
     (if 1 \<le> n \<and> n \<le> length st then Some (st[n - 1 := st ! 0, 0 := st ! (n - 1)]) else None)"

definition dup :: "nat \<Rightarrow> Stack \<Rightarrow> Stack option" where
  [vm_defs]: "dup n st = (if 1 \<le> n \<and> n \<le> length st then Some (push (st ! (n - 1)) st) else None)"

fun peek :: "Stack \<Rightarrow> u256 option" where
  "peek [] = None"
| "peek (x # st) = Some x"

definition Back :: "nat \<Rightarrow> Stack \<Rightarrow> u256 option" where
  [vm_defs]: "Back n st = (if n < length st then Some (st ! n) else None)"

text \<open>Writing through the pointer that \<open>peek\<close> returned.\<close>

fun set_top :: "u256 \<Rightarrow> Stack \<Rightarrow> Stack" where
  "set_top v [] = []"
| "set_top v (x # st) = v # st"

section \<open>Memory\<close>

record Memory =
  store :: bytes
  lastGasCost :: u64

definition NewMemory :: Memory where
  [vm_defs]: "NewMemory = \<lparr>store = [], lastGasCost = 0\<rparr>"

definition Len :: "Memory \<Rightarrow> nat" where
  [vm_defs]: "Len m = length (store m)"

text \<open>A slice expression \<open>s[lo:hi]\<close>.\<close>

definition slice :: "'a list \<Rightarrow> int \<Rightarrow> int \<Rightarrow> 'a list option" where
  "slice s lo hi =
     (if 0 \<le> lo \<and> lo \<le> hi \<and> hi \<le> int (length s)
      then Some (take (nat hi - nat lo) (drop (nat lo) s)) else None)"

definition Memory_Set :: "u64 \<Rightarrow> u64 \<Rightarrow> bytes \<Rightarrow> Memory \<Rightarrow> Memory option" where
  "Memory_Set offset sz value m =
     (if sz > 0 then
        (if unat (offset + sz) > length (store m) then None
         else do {
           dst \<leftarrow> slice (store m) (uint offset) (uint (offset + sz));
           Some (m\<lparr>store := copy_at (unat offset) (length dst) (store m) value\<rparr>)
         })
      else Some m)"

definition Bytes32 :: "u256 \<Rightarrow> bytes" where
  "Bytes32 x = nat_be 32 (unat x)"

definition Set32 :: "u64 \<Rightarrow> u256 \<Rightarrow> Memory \<Rightarrow> Memory option" where
  "Set32 offset val m =
     (if unat (offset + 32) > length (store m) then None
      else do {
        dst \<leftarrow> slice (store m) (uint offset) (int (length (store m)));
        Some (m\<lparr>store := copy_at (unat offset) (length dst) (store m) (Bytes32 val)\<rparr>)
      })"

definition Resize :: "u64 \<Rightarrow> Memory \<Rightarrow> Memory" where
  "Resize sz m =
     (if Len m < unat sz
      then m\<lparr>store := store m @ replicate (unat sz - Len m) 0\<rparr> else m)"

definition GetCopy :: "int \<Rightarrow> int \<Rightarrow> Memory \<Rightarrow> bytes option" where
  "GetCopy offset sz m =
     (if sz = 0 then Some []
      else if int (length (store m)) > offset then
        (if sz < 0 then None
         else do {
           src \<leftarrow> slice (store m) offset (offset + sz);
           Some (pad_right (nat sz) src)
         })
      else Some [])"

definition GetPtr :: "int \<Rightarrow> int \<Rightarrow> Memory \<Rightarrow> bytes option" where
  "GetPtr offset sz m =
     (if sz = 0 then Some []
      else if int (length (store m)) > offset then slice (store m) offset (offset + sz)
      else Some [])"

section \<open>Helpers\<close>

definition Uint64WithOverflow :: "u256 \<Rightarrow> u64 \<times> bool" where
  "Uint64WithOverflow x = (Uint64 x, \<not> IsUint64 x)"

definition calcMemSize64WithUint :: "u256 \<Rightarrow> u64 \<Rightarrow> u64 \<times> bool" where
  "calcMemSize64WithUint off length64 =
     (if length64 = 0 then (0, False)
      else let (offset64, overflow) = Uint64WithOverflow off
           in if overflow then (0, True)
              else let val = offset64 + length64 in (val, val < offset64))"

definition calcMemSize64 :: "u256 \<Rightarrow> u256 \<Rightarrow> u64 \<times> bool" where
  "calcMemSize64 off l =
     (if \<not> IsUint64 l then (0, True) else calcMemSize64WithUint off (Uint64 l))"

definition getData :: "deps \<Rightarrow> bytes \<Rightarrow> u64 \<Rightarrow> u64 \<Rightarrow> bytes option" where
  "getData d data start sz =
     (let len = of_nat (length data);
          start' = (if start > len then len else start);
          end' = min (start' + sz) len
      in do {
        s \<leftarrow> slice data (uint start') (uint end');
        Some (RightPadBytes d s (sint sz))
      })"

definition toWordSize :: "u64 \<Rightarrow> u64" where
  "toWordSize sz =
     (if sz > 0xffffffffffffffff - 31 then 0xffffffffffffffff div 32 + 1 else (sz + 31) div 32)"

fun allZero :: "bytes \<Rightarrow> bool" where
  "allZero [] = True"
| "allZero (b # bs) = (if b \<noteq> 0 then False else allZero bs)"

section \<open>Memory sizes\<close>

type_synonym memorySizeFunc = "Stack \<Rightarrow> (u64 \<times> bool) option"

text \<open>\<open>calcMemSize64\<close> of two stack positions.\<close>

definition mem_at :: "nat \<Rightarrow> nat \<Rightarrow> memorySizeFunc" where
  [vm_defs]: "mem_at i j st = do {
     off \<leftarrow> Back i st;
     l \<leftarrow> Back j st;
     Some (calcMemSize64 off l)
   }"

definition memorySha3 :: memorySizeFunc where
  [vm_defs]: "memorySha3 st = mem_at 0 1 st"

definition memoryCallDataCopy :: memorySizeFunc where
  [vm_defs]: "memoryCallDataCopy st = mem_at 0 2 st"

definition memoryReturnDataCopy :: memorySizeFunc where
  [vm_defs]: "memoryReturnDataCopy st = mem_at 0 2 st"

definition memoryCodeCopy :: memorySizeFunc where
  [vm_defs]: "memoryCodeCopy st = mem_at 0 2 st"

definition memoryExtCodeCopy :: memorySizeFunc where
  [vm_defs]: "memoryExtCodeCopy st = mem_at 1 3 st"

definition memoryMLoad :: memorySizeFunc where
  [vm_defs]: "memoryMLoad st = map_option (\<lambda>o1. calcMemSize64WithUint o1 32) (Back 0 st)"

definition memoryMStore8 :: memorySizeFunc where
  [vm_defs]: "memoryMStore8 st = map_option (\<lambda>o1. calcMemSize64WithUint o1 1) (Back 0 st)"

definition memoryMStore :: memorySizeFunc where
  [vm_defs]: "memoryMStore st = map_option (\<lambda>o1. calcMemSize64WithUint o1 32) (Back 0 st)"

definition memoryCreate :: memorySizeFunc where
  [vm_defs]: "memoryCreate st = mem_at 1 2 st"

definition memoryCreate2 :: memorySizeFunc where
  [vm_defs]: "memoryCreate2 st = mem_at 1 2 st"

text \<open>The larger of two regions, the second one first evaluated when the first fits.\<close>

definition mem_max :: "nat \<Rightarrow> nat \<Rightarrow> nat \<Rightarrow> nat \<Rightarrow> memorySizeFunc" where
  [vm_defs]: "mem_max i j k l st = do {
     (x, overflow) \<leftarrow> mem_at i j st;
     if overflow then Some (0, True)
     else do {
       (y, overflow) \<leftarrow> mem_at k l st;
       if overflow then Some (0, True)
       else if x > y then Some (x, False) else Some (y, False)
     }
   }"

definition memoryCall :: memorySizeFunc where
  [vm_defs]: "memoryCall st = mem_max 5 6 3 4 st"

definition memoryDelegateCall :: memorySizeFunc where
  [vm_defs]: "memoryDelegateCall st = mem_max 4 5 2 3 st"

definition memoryStaticCall :: memorySizeFunc where
  [vm_defs]: "memoryStaticCall st = mem_max 4 5 2 3 st"

definition memoryReturn :: memorySizeFunc where
  [vm_defs]: "memoryReturn st = mem_at 0 1 st"

definition memoryRevert :: memorySizeFunc where
  [vm_defs]: "memoryRevert st = mem_at 0 1 st"

definition memoryLog :: memorySizeFunc where
  [vm_defs]: "memoryLog st = mem_at 0 1 st"

section \<open>Stack checks\<close>

definition makeStackFunc :: "deps \<Rightarrow> nat \<Rightarrow> nat \<Rightarrow> Stack \<Rightarrow> error option" where
  "makeStackFunc d pops pushes st =
     (if length st < pops then Some (ErrStackUnderflow (length st) pops)
      else if length st + pushes - pops > StackLimit d
      then Some (ErrStackLimit (length st) (StackLimit d))
      else None)"

definition makeDupStackFunc :: "deps \<Rightarrow> nat \<Rightarrow> Stack \<Rightarrow> error option" where
  "makeDupStackFunc d n = makeStackFunc d n (n + 1)"

definition makeSwapStackFunc :: "deps \<Rightarrow> nat \<Rightarrow> Stack \<Rightarrow> error option" where
  "makeSwapStackFunc d n = makeStackFunc d n n"

end
