(* ===== verification/CodeAnalysis.thy ===== *)
theory CodeAnalysis
  imports VmMemory
begin

text \<open>
  The analysis of contract code that separates opcodes from push data (src/vm/analysis.go), and
  its correctness: \<open>codeBitmap\<close> never panics and marks exactly the push data of the code.

  A \<open>bitvec\<close> is a list of bytes; bit \<open>p mod 8\<close> of byte \<open>p div 8\<close> is 1 when position \<open>p\<close> of the code
  is push data.  Positions are natural numbers: the length of a Go slice is below \<open>2 ^ 63\<close>, so
  the \<open>uint64\<close> program counter of the analysis does not wrap.  \<open>None\<close> is an index out of range.
\<close>

unbundle bit_operations_syntax

section \<open>Bit vectors\<close>

type_synonym bitvec = bytes

definition upd :: "nat \<Rightarrow> (byte \<Rightarrow> byte) \<Rightarrow> bitvec \<Rightarrow> bitvec option" where
  "upd i f bits = (if i < length bits then Some (bits[i := f (bits ! i)]) else None)"

definition set1 :: "nat \<Rightarrow> bitvec \<Rightarrow> bitvec option" where
  "set1 pos bits = upd (pos div 8) (\<lambda>b. b OR push_bit (pos mod 8) 1) bits"

definition setN :: "16 word \<Rightarrow> nat \<Rightarrow> bitvec \<Rightarrow> bitvec option" where
  "setN flag pos bits =
     (let a = push_bit (pos mod 8) flag; b = (ucast (drop_bit 8 a) :: byte)
      in do {
        bits \<leftarrow> upd (pos div 8) (\<lambda>x. x OR ucast a) bits;
        if b \<noteq> 0 then upd (pos div 8 + 1) (\<lambda>_. b) bits else Some bits
      })"

definition set8 :: "nat \<Rightarrow> bitvec \<Rightarrow> bitvec option" where
  "set8 pos bits =
     (let a = push_bit (pos mod 8) 0xFF
      in do {
        bits \<leftarrow> upd (pos div 8) (\<lambda>x. x OR a) bits;
        upd (pos div 8 + 1) (\<lambda>_. NOT a) bits
      })"

definition set16 :: "nat \<Rightarrow> bitvec \<Rightarrow> bitvec option" where
  "set16 pos bits =
     (let a = push_bit (pos mod 8) 0xFF
      in do {
        bits \<leftarrow> upd (pos div 8) (\<lambda>x. x OR a) bits;
        bits \<leftarrow> upd (pos div 8 + 1) (\<lambda>_. 0xFF) bits;
        upd (pos div 8 + 2) (\<lambda>_. NOT a) bits
      })"

definition codeSegment :: "bitvec \<Rightarrow> nat \<Rightarrow> bool option" where
  "codeSegment bits pos =
     (if pos div 8 < length bits
      then Some (drop_bit (pos mod 8) (bits ! (pos div 8)) AND 1 = 0) else None)"

section \<open>Code bitmaps\<close>

abbreviation (input) set2BitsMask :: "16 word" where "set2BitsMask \<equiv> 0b11"
abbreviation (input) set3BitsMask :: "16 word" where "set3BitsMask \<equiv> 0b111"
abbreviation (input) set4BitsMask :: "16 word" where "set4BitsMask \<equiv> 0b1111"
abbreviation (input) set5BitsMask :: "16 word" where "set5BitsMask \<equiv> 0b11111"
abbreviation (input) set6BitsMask :: "16 word" where "set6BitsMask \<equiv> 0b111111"
abbreviation (input) set7BitsMask :: "16 word" where "set7BitsMask \<equiv> 0b1111111"

text \<open>The two counting loops over whole groups of 16 and of 8 bits.\<close>

fun push16 :: "nat \<Rightarrow> nat \<Rightarrow> bitvec \<Rightarrow> (nat \<times> nat \<times> bitvec) option" where
  "push16 numbits pc bits =
     (if numbits \<ge> 16 then do { bits \<leftarrow> set16 pc bits; push16 (numbits - 16) (pc + 16) bits }
      else Some (numbits, pc, bits))"

fun push8 :: "nat \<Rightarrow> nat \<Rightarrow> bitvec \<Rightarrow> (nat \<times> nat \<times> bitvec) option" where
  "push8 numbits pc bits =
     (if numbits \<ge> 8 then do { bits \<leftarrow> set8 pc bits; push8 (numbits - 8) (pc + 8) bits }
      else Some (numbits, pc, bits))"

declare push16.simps [simp del] push8.simps [simp del]

text \<open>The final \<open>switch numbits\<close>.\<close>

definition push_rest :: "nat \<Rightarrow> nat \<Rightarrow> bitvec \<Rightarrow> (nat \<times> bitvec) option" where
  "push_rest numbits pc bits =
     (if numbits = 1 then map_option (Pair (pc + 1)) (set1 pc bits)
      else if numbits = 2 then map_option (Pair (pc + 2)) (setN set2BitsMask pc bits)
      else if numbits = 3 then map_option (Pair (pc + 3)) (setN set3BitsMask pc bits)
      else if numbits = 4 then map_option (Pair (pc + 4)) (setN set4BitsMask pc bits)
      else if numbits = 5 then map_option (Pair (pc + 5)) (setN set5BitsMask pc bits)
      else if numbits = 6 then map_option (Pair (pc + 6)) (setN set6BitsMask pc bits)
      else if numbits = 7 then map_option (Pair (pc + 7)) (setN set7BitsMask pc bits)
      else Some (pc, bits))"

definition push_data :: "nat \<Rightarrow> nat \<Rightarrow> bitvec \<Rightarrow> (nat \<times> bitvec) option" where
  "push_data numbits pc bits = do {
     (numbits, pc, bits) \<leftarrow>
       (if numbits \<ge> 8
        then do { (numbits, pc, bits) \<leftarrow> push16 numbits pc bits; push8 numbits pc bits }
        else Some (numbits, pc, bits));
     push_rest numbits pc bits
   }"

section \<open>Marking push data\<close>

definition bit_at :: "bitvec \<Rightarrow> nat \<Rightarrow> bool" where
  "bit_at bits p \<longleftrightarrow> p div 8 < length bits \<and> bit (bits ! (p div 8)) (p mod 8)"

text \<open>Positions from \<open>pos\<close> on are still unmarked; the \<open>n\<close> positions from \<open>pos\<close> have been marked.\<close>

definition clean :: "nat \<Rightarrow> bitvec \<Rightarrow> bool" where
  "clean pos bits \<longleftrightarrow> (\<forall>p \<ge> pos. \<not> bit_at bits p)"

definition marked :: "nat \<Rightarrow> nat \<Rightarrow> bitvec \<Rightarrow> bitvec \<Rightarrow> bool" where
  "marked pos n bits bits' \<longleftrightarrow>
     length bits' = length bits \<and>
     (\<forall>p. bit_at bits' p \<longleftrightarrow> bit_at bits p \<or> (pos \<le> p \<and> p < pos + n))"

lemma bit_at_update:
  "i < length bits \<Longrightarrow>
   bit_at (bits[i := v]) p \<longleftrightarrow> (if p div 8 = i then bit v (p mod 8) else bit_at bits p)"
  by (auto simp: bit_at_def)

lemma marked_clean: "clean pos bits \<Longrightarrow> marked pos n bits bits' \<Longrightarrow> clean (pos + n) bits'"
  by (auto simp: clean_def marked_def)

lemma marked_trans:
  "marked pos n bits bits' \<Longrightarrow> marked (pos + n) m bits' bits'' \<Longrightarrow> marked pos (n + m) bits bits''"
  by (auto simp: marked_def)

lemma marked_0 [simp]: "marked pos 0 bits bits"
  by (auto simp: marked_def)

text \<open>Reading the positions of the two bytes that a group of bits starting at \<open>pos\<close> touches.\<close>

lemma first_byte: "p div 8 = pos div 8 \<Longrightarrow> pos \<le> p \<longleftrightarrow> pos mod 8 \<le> p mod (8 :: nat)"
  by (metis div_mult_mod_eq nat_add_left_cancel_le)

lemma byte_less:
  assumes "p div 8 = pos div 8 + k"
  shows "p < pos + m \<longleftrightarrow> 8 * k + p mod 8 < pos mod 8 + (m :: nat)"
proof -
  have "p = 8 * (pos div 8 + k) + p mod 8" using assms by (metis mult_div_mod_eq)
  moreover have "pos = 8 * (pos div 8) + pos mod 8" by simp
  moreover have "x = 8 * (a + k) + r \<Longrightarrow> y = 8 * a + s \<Longrightarrow> x < y + m \<longleftrightarrow> 8 * k + r < s + m"
    for x y a r s :: nat by arith
  ultimately show ?thesis by blast
qed

lemma bit_ff: "bit (push_bit s 0xFF :: byte) j \<longleftrightarrow> s \<le> j \<and> j < 8"
proof -
  have ff: "(0xFF :: byte) = mask 8" by (simp add: mask_eq_exp_minus_1)
  show ?thesis unfolding ff by (auto simp: bit_push_bit_iff bit_mask_iff simp del: mask_numeral)
qed

lemma set8_marks:
  assumes "clean pos bits" and "pos div 8 + 1 < length bits"
  shows "\<exists>bits'. set8 pos bits = Some bits' \<and> marked pos 8 bits bits'"
proof -
  let ?a = "push_bit (pos mod 8) 0xFF :: byte"
  let ?b1 = "bits[pos div 8 := bits ! (pos div 8) OR ?a]"
  let ?b2 = "?b1[pos div 8 + 1 := NOT ?a]"
  have s: "set8 pos bits = Some ?b2"
    using assms(2) by (simp add: set8_def upd_def Let_def)
  have "bit_at ?b2 p \<longleftrightarrow> bit_at bits p \<or> (pos \<le> p \<and> p < pos + 8)" for p
  proof -
    consider "p div 8 = pos div 8" | "p div 8 = pos div 8 + 1"
      | "p div 8 \<noteq> pos div 8" "p div 8 \<noteq> pos div 8 + 1" by blast
    then show ?thesis
    proof cases
      case 1
      then have "p < pos + 8" by linarith
      with 1 assms(2) first_byte [OF 1] show ?thesis
        by (simp add: bit_at_update bit_or_iff bit_ff) (auto simp: bit_at_def)
    next
      case 2
      then have "pos \<le> p" by linarith
      moreover have "\<not> bit_at bits p" using \<open>pos \<le> p\<close> assms(1) by (simp add: clean_def)
      moreover have "p < pos + 8 \<longleftrightarrow> p mod 8 < pos mod 8" using byte_less [OF 2, of 8] by simp
      ultimately show ?thesis
        using 2 assms(2) by (auto simp: bit_at_update bit_not_iff bit_ff)
    next
      case 3
      then have "\<not> (pos \<le> p \<and> p < pos + 8)" by linarith
      with 3 assms(2) show ?thesis by (auto simp: bit_at_update)
    qed
  qed
  then show ?thesis using s by (simp add: marked_def)
qed

lemma set16_marks:
  assumes "clean pos bits" and "pos div 8 + 2 < length bits"
  shows "\<exists>bits'. set16 pos bits = Some bits' \<and> marked pos 16 bits bits'"
proof -
  let ?a = "push_bit (pos mod 8) 0xFF :: byte"
  let ?b1 = "bits[pos div 8 := bits ! (pos div 8) OR ?a]"
  let ?b2 = "?b1[pos div 8 + 1 := 0xFF]"
  let ?b3 = "?b2[pos div 8 + 2 := NOT ?a]"
  have s: "set16 pos bits = Some ?b3"
    using assms(2) by (simp add: set16_def upd_def Let_def)
  have "bit_at ?b3 p \<longleftrightarrow> bit_at bits p \<or> (pos \<le> p \<and> p < pos + 16)" for p
  proof -
    consider "p div 8 = pos div 8" | "p div 8 = pos div 8 + 1" | "p div 8 = pos div 8 + 2"
      | "p div 8 \<noteq> pos div 8" "p div 8 \<noteq> pos div 8 + 1" "p div 8 \<noteq> pos div 8 + 2" by blast
    then show ?thesis
    proof cases
      case 1
      then have "p < pos + 16" by linarith
      with 1 assms(2) first_byte [OF 1] show ?thesis
        by (simp add: bit_at_update bit_or_iff bit_ff) (auto simp: bit_at_def)
    next
      case 2
      then have "pos \<le> p" "p < pos + 16" by linarith+
      moreover have "bit (0xFF :: byte) (p mod 8)" using bit_ff [of 0 "p mod 8"] by simp
      ultimately show ?thesis using 2 assms(2) by (simp add: bit_at_update)
    next
      case 3
      then have "pos \<le> p" by linarith
      moreover have "\<not> bit_at bits p" using \<open>pos \<le> p\<close> assms(1) by (simp add: clean_def)
      moreover have "p < pos + 16 \<longleftrightarrow> p mod 8 < pos mod 8" using byte_less [OF 3, of 16] by simp
      ultimately show ?thesis
        using 3 assms(2) by (auto simp: bit_at_update bit_not_iff bit_ff)
    next
      case 4
      then have "\<not> (pos \<le> p \<and> p < pos + 16)" by linarith
      with 4 assms(2) show ?thesis by (auto simp: bit_at_update)
    qed
  qed
  then show ?thesis using s by (simp add: marked_def)
qed

lemma set1_marks:
  assumes "pos div 8 < length bits"
  shows "\<exists>bits'. set1 pos bits = Some bits' \<and> marked pos 1 bits bits'"
proof -
  let ?b = "bits[pos div 8 := bits ! (pos div 8) OR push_bit (pos mod 8) 1]"
  have s: "set1 pos bits = Some ?b"
    using assms by (simp add: set1_def upd_def del: push_bit_of_1)
  have one: "bit (push_bit (pos mod 8) 1 :: byte) (p mod 8) \<longleftrightarrow> pos mod 8 = p mod 8" for p
    by (auto simp: bit_push_bit_iff bit_1_iff simp del: push_bit_of_1)
  have "bit_at ?b p \<longleftrightarrow> bit_at bits p \<or> p = pos" for p
  proof (cases "p div 8 = pos div 8")
    case True
    then have "p = pos \<longleftrightarrow> pos mod 8 = p mod 8" by (metis div_mult_mod_eq)
    with True assms show ?thesis
      by (simp add: bit_at_update bit_or_iff one del: push_bit_of_1) (auto simp: bit_at_def)
  next
    case False
    with assms show ?thesis by (auto simp: bit_at_update)
  qed
  then show ?thesis using s by (auto simp: marked_def)
qed

text \<open>The result of \<open>setN\<close> with low byte \<open>u\<close> and high byte \<open>v\<close>, read at the two bytes it touches.\<close>

lemma bit_at_or:
  assumes "i + 1 < length bits" and "p div 8 = i"
  shows "bit_at (if v \<noteq> 0 then bits[i := bits ! i OR u, i + 1 := v] else bits[i := bits ! i OR u]) p
    \<longleftrightarrow> bit_at bits p \<or> bit u (p mod 8)"
  using assms by (cases "v = 0") (auto simp: bit_at_def bit_or_iff)

lemma bit_at_next:
  assumes "i + 1 < length bits" and "p div 8 = i + 1" and "\<not> bit_at bits p"
  shows "bit_at (if v \<noteq> 0 then bits[i := u, i + 1 := v] else bits[i := u]) p \<longleftrightarrow> bit v (p mod 8)"
  using assms by (cases "v = 0") (auto simp: bit_at_update)

lemma bit_at_else:
  assumes "i + 1 < length bits" and "p div 8 \<noteq> i" and "p div 8 \<noteq> i + 1"
  shows "bit_at (if v \<noteq> 0 then bits[i := u, i + 1 := v] else bits[i := u]) p \<longleftrightarrow> bit_at bits p"
  using assms by (cases "v = 0") (auto simp: bit_at_update)

lemma bit_low_byte:
  "bit (ucast (push_bit s (mask n) :: 16 word) :: byte) j \<longleftrightarrow> s \<le> j \<and> j < s + n \<and> j < 8"
  by (auto simp: bit_ucast_iff bit_push_bit_iff bit_mask_iff)

lemma bit_high_byte:
  assumes "j < 8" and "s < 8"
  shows "bit (ucast (drop_bit 8 (push_bit s (mask n) :: 16 word)) :: byte) j \<longleftrightarrow> 8 + j < s + n"
  using assms by (simp add: bit_ucast_iff bit_drop_bit_eq bit_push_bit_iff bit_mask_iff) linarith

lemma setN_marks:
  assumes "clean pos bits" and "pos div 8 + 1 < length bits" and "n \<le> 8"
  shows "\<exists>bits'. setN (mask n) pos bits = Some bits' \<and> marked pos n bits bits'"
proof -
  let ?a = "push_bit (pos mod 8) (mask n) :: 16 word"
  let ?b = "ucast (drop_bit 8 ?a) :: byte"
  let ?b1 = "bits[pos div 8 := bits ! (pos div 8) OR ucast ?a]"
  let ?b2 = "if ?b \<noteq> 0 then ?b1[pos div 8 + 1 := ?b] else ?b1"
  have s: "setN (mask n) pos bits = Some ?b2"
    using assms(2) by (simp add: setN_def upd_def Let_def)
  have "bit_at ?b2 p \<longleftrightarrow> bit_at bits p \<or> (pos \<le> p \<and> p < pos + n)" for p
  proof -
    consider "p div 8 = pos div 8" | "p div 8 = pos div 8 + 1"
      | "p div 8 \<noteq> pos div 8" "p div 8 \<noteq> pos div 8 + 1" by blast
    then show ?thesis
    proof cases
      case 1
      have "bit_at ?b2 p \<longleftrightarrow> bit_at bits p \<or> bit (ucast ?a :: byte) (p mod 8)"
        by (rule bit_at_or [OF assms(2) 1])
      moreover have "bit (ucast ?a :: byte) (p mod 8) \<longleftrightarrow> pos \<le> p \<and> p < pos + n"
        using byte_less [of p pos 0 n] 1 by (simp add: bit_low_byte first_byte [OF 1])
      ultimately show ?thesis by blast
    next
      case 2
      then have "pos \<le> p" by linarith
      moreover from this have "\<not> bit_at bits p" using assms(1) by (simp add: clean_def)
      moreover have "p < pos + n \<longleftrightarrow> 8 + p mod 8 < pos mod 8 + n" using byte_less [OF 2, of n] by simp
      ultimately show ?thesis using bit_at_next [OF assms(2) 2] by (simp add: bit_high_byte)
    next
      case 3
      then have "\<not> (pos \<le> p \<and> p < pos + n)" using assms(3) by linarith
      with bit_at_else [OF assms(2) 3] show ?thesis by blast
    qed
  qed
  then show ?thesis using s by (simp add: marked_def)
qed

lemma push16_marks:
  "r < 16 \<Longrightarrow> clean pc bits \<Longrightarrow> (pc + 16 * q) div 8 < length bits \<Longrightarrow>
   \<exists>bits'. push16 (16 * q + r) pc bits = Some (r, pc + 16 * q, bits') \<and>
     marked pc (16 * q) bits bits'"
proof (induction q arbitrary: pc bits)
  case 0
  then show ?case by (simp add: push16.simps)
next
  case (Suc q)
  have "pc div 8 + 2 = (pc + 16) div 8" by simp
  also have "\<dots> \<le> (pc + 16 * Suc q) div 8" by (rule div_le_mono) simp
  finally have "pc div 8 + 2 < length bits" using Suc.prems(3) by linarith
  then obtain b1 where b1: "set16 pc bits = Some b1" and m1: "marked pc 16 bits b1"
    using set16_marks Suc.prems(2) by blast
  moreover have "length b1 = length bits" using m1 by (simp add: marked_def)
  ultimately obtain b2 where "push16 (16 * q + r) (pc + 16) b1 = Some (r, pc + 16 + 16 * q, b2)"
    and "marked (pc + 16) (16 * q) b1 b2"
    using Suc.IH [of "pc + 16" b1] marked_clean [OF Suc.prems(2) m1] Suc.prems
    by (auto simp: add.assoc)
  moreover have "push16 (16 * Suc q + r) pc bits = push16 (16 * q + r) (pc + 16) b1"
    using b1 by (subst push16.simps) simp
  ultimately show ?case using marked_trans [OF m1] by (auto simp: add.assoc)
qed

lemma push8_marks:
  "r < 8 \<Longrightarrow> clean pc bits \<Longrightarrow> (pc + 8 * q) div 8 < length bits \<Longrightarrow>
   \<exists>bits'. push8 (8 * q + r) pc bits = Some (r, pc + 8 * q, bits') \<and>
     marked pc (8 * q) bits bits'"
proof (induction q arbitrary: pc bits)
  case 0
  then show ?case by (simp add: push8.simps)
next
  case (Suc q)
  have "pc div 8 + 1 < length bits" using Suc.prems(3) by simp
  then obtain b1 where b1: "set8 pc bits = Some b1" and m1: "marked pc 8 bits b1"
    using set8_marks Suc.prems(2) by blast
  moreover have "length b1 = length bits" using m1 by (simp add: marked_def)
  ultimately obtain b2 where "push8 (8 * q + r) (pc + 8) b1 = Some (r, pc + 8 + 8 * q, b2)"
    and "marked (pc + 8) (8 * q) b1 b2"
    using Suc.IH [of "pc + 8" b1] marked_clean [OF Suc.prems(2) m1] Suc.prems
    by (auto simp: add.assoc)
  moreover have "push8 (8 * Suc q + r) pc bits = push8 (8 * q + r) (pc + 8) b1"
    using b1 by (subst push8.simps) simp
  ultimately show ?case using marked_trans [OF m1] by (auto simp: add.assoc)
qed

text \<open>The masks of the source are the \<open>n\<close> low bits.\<close>

lemma bits_masks:
  "set2BitsMask = mask 2" "set3BitsMask = mask 3" "set4BitsMask = mask 4"
  "set5BitsMask = mask 5" "set6BitsMask = mask 6" "set7BitsMask = mask 7"
  by (simp_all add: mask_eq_exp_minus_1)

lemma push_rest_marks:
  assumes "clean pc bits" and "n < 8" and "n = 0 \<or> pc div 8 + 1 < length bits"
  shows "\<exists>bits'. push_rest n pc bits = Some (pc + n, bits') \<and> marked pc n bits bits'"
proof -
  consider "n = 0" | "n = 1" | "n \<in> {2..7}" using assms(2) by force
  then show ?thesis
  proof cases
    case 1
    then show ?thesis by (simp add: push_rest_def)
  next
    case 2
    with assms(3) have "pc div 8 < length bits" by simp
    with 2 set1_marks [of pc bits] show ?thesis by (auto simp: push_rest_def)
  next
    case 3
    then have "n = 2 \<or> n = 3 \<or> n = 4 \<or> n = 5 \<or> n = 6 \<or> n = 7" by auto
    then have "push_rest n pc bits = map_option (Pair (pc + n)) (setN (mask n) pc bits)"
      unfolding push_rest_def bits_masks by (elim disjE) (simp_all del: mask_numeral)
    with 3 assms setN_marks [of pc bits n] show ?thesis by auto
  qed
qed

text \<open>A push of \<open>n\<close> bytes splits into groups of 16, groups of 8 and a rest below 8.\<close>

lemma push_data_split:
  assumes "clean pc bits" and "c < 8" and "b < 2" and "16 * a + 8 * b + c \<le> 32"
    and "8 \<le> 16 * a + 8 * b + c" and "pc div 8 + 4 < length bits"
  shows "\<exists>bits'. push_data (16 * a + (8 * b + c)) pc bits = Some (pc + (16 * a + (8 * b + c)), bits') \<and>
           marked pc (16 * a + (8 * b + c)) bits bits'"
proof -
  have "(pc + 16 * a) div 8 \<le> (pc + 32) div 8" using assms(4) by (intro div_le_mono) linarith
  then have "(pc + 16 * a) div 8 < length bits" using assms(6) by simp
  then obtain b1 where b1: "push16 (16 * a + (8 * b + c)) pc bits = Some (8 * b + c, pc + 16 * a, b1)"
    "marked pc (16 * a) bits b1"
    using push16_marks [of "8 * b + c" pc bits a] assms(1-3) by auto
  have c1: "clean (pc + 16 * a) b1" using marked_clean [OF assms(1) b1(2)] .
  have l1: "length b1 = length bits" using b1(2) by (simp add: marked_def)
  have "(pc + 16 * a + 8 * b) div 8 \<le> (pc + 32) div 8" using assms(4) by (intro div_le_mono) linarith
  then have "(pc + 16 * a + 8 * b) div 8 < length b1" using assms(6) l1 by simp
  then obtain b2 where b2: "push8 (8 * b + c) (pc + 16 * a) b1 = Some (c, pc + 16 * a + 8 * b, b2)"
    "marked (pc + 16 * a) (8 * b) b1 b2"
    using push8_marks [OF assms(2) c1] by blast
  have c2: "clean (pc + 16 * a + 8 * b) b2" using marked_clean [OF c1 b2(2)] .
  have l2: "length b2 = length bits" using b2(2) l1 by (simp add: marked_def)
  have "(pc + 16 * a + 8 * b) div 8 + 1 < length b2" if "c \<noteq> 0"
  proof -
    have "16 * a + 8 * b \<le> 24" using that assms(4) by presburger
    then have "(pc + 16 * a + 8 * b) div 8 \<le> (pc + 24) div 8" by (intro div_le_mono) linarith
    then show ?thesis using assms(6) l2 by simp
  qed
  then obtain b3 where b3: "push_rest c (pc + 16 * a + 8 * b) b2 = Some (pc + 16 * a + 8 * b + c, b3)"
    "marked (pc + 16 * a + 8 * b) c b2 b3"
    using push_rest_marks [OF c2 assms(2)] by auto
  have "marked pc (16 * a + 8 * b + c) bits b3"
    using marked_trans [OF marked_trans [OF b1(2) b2(2)]] b3(2) by (simp add: add.assoc)
  moreover have "push_data (16 * a + (8 * b + c)) pc bits = Some (pc + (16 * a + (8 * b + c)), b3)"
    using assms(5) b1(1) b2(1) b3(1) by (simp add: push_data_def add.assoc)
  ultimately show ?thesis by (auto simp: add.assoc)
qed

lemma push_data_marks:
  assumes "clean pc bits" and "n \<le> 32" and "pc div 8 + 4 < length bits"
  shows "\<exists>bits'. push_data n pc bits = Some (pc + n, bits') \<and> marked pc n bits bits'"
proof (cases "n \<ge> 8")
  case True
  let ?a = "n div 16" and ?b = "n mod 16 div 8" and ?c = "n mod 16 mod 8"
  have n: "16 * ?a + (8 * ?b + ?c) = n" and n': "16 * ?a + 8 * ?b + ?c = n" by simp_all
  have "?c < 8" and "?b < 2" by (simp, rule less_mult_imp_div_less) simp
  from push_data_split [OF assms(1) this, of ?a, unfolded n n', OF assms(2) True assms(3)]
  show ?thesis .
next
  case False
  then have "push_data n pc bits = push_rest n pc bits" by (simp add: push_data_def)
  with False assms push_rest_marks [of pc bits n] show ?thesis by auto
qed

text \<open>Whatever the bit vector, a push never moves the program counter back.\<close>

lemma push16_ge: "push16 n pc bits = Some (n', pc', bits') \<Longrightarrow> pc \<le> pc'"
proof (induction n pc bits rule: push16.induct)
  case (1 n pc bits)
  show ?case
  proof (cases "n \<ge> 16")
    case True
    with "1.prems" obtain b where "set16 pc bits = Some b"
      and "push16 (n - 16) (pc + 16) b = Some (n', pc', bits')"
      by (auto simp: push16.simps [of n] bind_eq_Some_conv)
    with "1.IH" [OF True] show ?thesis by fastforce
  next
    case False
    with "1.prems" show ?thesis by (simp add: push16.simps [of n])
  qed
qed

lemma push8_ge: "push8 n pc bits = Some (n', pc', bits') \<Longrightarrow> pc \<le> pc'"
proof (induction n pc bits rule: push8.induct)
  case (1 n pc bits)
  show ?case
  proof (cases "n \<ge> 8")
    case True
    with "1.prems" obtain b where "set8 pc bits = Some b"
      and "push8 (n - 8) (pc + 8) b = Some (n', pc', bits')"
      by (auto simp: push8.simps [of n] bind_eq_Some_conv)
    with "1.IH" [OF True] show ?thesis by fastforce
  next
    case False
    with "1.prems" show ?thesis by (simp add: push8.simps [of n])
  qed
qed

lemma push_rest_ge: "push_rest n pc bits = Some (pc', bits') \<Longrightarrow> pc \<le> pc'"
  by (auto simp: push_rest_def split: if_splits)

lemma push_data_ge:
  assumes "push_data n pc bits = Some (pc', bits')"
  shows "pc \<le> pc'"
proof (cases "n \<ge> 8")
  case True
  with assms obtain n1 p1 b1 n2 p2 b2 where "push16 n pc bits = Some (n1, p1, b1)"
    and "push8 n1 p1 b1 = Some (n2, p2, b2)" and "push_rest n2 p2 b2 = Some (pc', bits')"
    by (auto simp: push_data_def bind_eq_Some_conv)
  then show ?thesis using push16_ge push8_ge push_rest_ge by (meson order_trans)
next
  case False
  with assms show ?thesis by (simp add: push_data_def push_rest_ge)
qed

section \<open>The bitmap of a contract\<close>

text \<open>The main loop: every iteration advances \<open>pc\<close>.\<close>

function codeBitmap_loop :: "bytes \<Rightarrow> nat \<Rightarrow> bitvec \<Rightarrow> bitvec option" where
  "codeBitmap_loop code pc bits =
     (if pc < length code then
        if code ! pc < PUSH1 \<or> code ! pc > PUSH32 then codeBitmap_loop code (pc + 1) bits
        else do {
          (pc', bits') \<leftarrow> push_data (unat (code ! pc - PUSH1 + 1)) (pc + 1) bits;
          codeBitmap_loop code pc' bits'
        }
      else Some bits)"
  by pat_completeness auto
termination
proof (relation "measure (\<lambda>(code, pc, bits). length code - pc)", goal_cases)
  case (3 code pc bits a pc' bits')
  then have "pc + 1 \<le> pc'" using push_data_ge by blast
  with 3(1) show ?case by simp
qed simp_all

declare codeBitmap_loop.simps [simp del]

definition codeBitmapInternal :: "bytes \<Rightarrow> bitvec \<Rightarrow> bitvec option" where
  "codeBitmapInternal code bits = codeBitmap_loop code 0 bits"

definition codeBitmap :: "bytes \<Rightarrow> bitvec option" where
  "codeBitmap code = codeBitmapInternal code (replicate (length code div 8 + 1 + 4) 0)"

text \<open>
  The specification: reading the code from the left, a position is an opcode unless it is one
  of the \<open>n\<close> bytes that follow a \<open>PUSHn\<close>.
\<close>

definition push_size :: "OpCode \<Rightarrow> nat" where
  "push_size op = (if IsPush op then unat op - 0x5f else 0)"

fun code_mask :: "nat \<Rightarrow> bytes \<Rightarrow> bool list" where
  "code_mask k [] = []"
| "code_mask 0 (op # code) = True # code_mask (push_size op) code"
| "code_mask (Suc k) (op # code) = False # code_mask k code"

lemma length_code_mask [simp]: "length (code_mask k code) = length code"
  by (induction k code rule: code_mask.induct) auto

lemma code_mask_skip: "code_mask k code = replicate (min k (length code)) False @ code_mask 0 (drop k code)"
  by (induction k arbitrary: code) (case_tac code; simp)+

lemma push_range: "op < PUSH1 \<or> op > PUSH32 \<longleftrightarrow> \<not> IsPush op"
  by (auto simp: IsPush_iff word_less_nat_alt)

lemma push_size_le: "push_size op \<le> 32"
  by (auto simp: push_size_def IsPush_iff)

lemma push_count: "IsPush op \<Longrightarrow> unat (op - PUSH1 + 1) = push_size op"
  by (simp add: push_size_def IsPush_iff unat_word_ariths unat_sub_if')

lemma codeSegment_bit_at: "p div 8 < length bits \<Longrightarrow> codeSegment bits p = Some (\<not> bit_at bits p)"
  by (simp add: codeSegment_def bit_at_def and_one_eq bit_iff_odd_drop_bit even_iff_mod_2_eq_zero)

text \<open>
  The loop invariant, from program counter \<open>pc\<close> on: the bits below \<open>pc\<close> stay, those from \<open>pc\<close> on
  become the complement of the mask of the remaining code.
\<close>

lemma codeBitmap_loop_correct:
  "clean pc bits \<Longrightarrow> length bits = length code div 8 + 5 \<Longrightarrow>
   \<exists>bits'. codeBitmap_loop code pc bits = Some bits' \<and> length bits' = length bits \<and>
     (\<forall>p < pc. bit_at bits' p = bit_at bits p) \<and>
     (\<forall>p. pc \<le> p \<and> p < length code \<longrightarrow> bit_at bits' p = (\<not> code_mask 0 (drop pc code) ! (p - pc)))"
proof (induction code pc bits rule: codeBitmap_loop.induct)
  case (1 code pc bits)
  show ?case
  proof (cases "pc < length code")
    case False
    then show ?thesis by (auto simp: codeBitmap_loop.simps)
  next
    case pc: True
    then have d: "drop pc code = code ! pc # drop (pc + 1) code" by (simp add: Cons_nth_drop_Suc)
    show ?thesis
    proof (cases "IsPush (code ! pc)")
      case False
      then have np: "code ! pc < PUSH1 \<or> code ! pc > PUSH32" by (simp add: push_range)
      have "clean (pc + 1) bits" using "1.prems"(1) by (simp add: clean_def)
      from "1.IH"(1) [OF pc np this "1.prems"(2)] obtain bits' where
        b: "codeBitmap_loop code (pc + 1) bits = Some bits'" "length bits' = length bits"
        "\<forall>p < pc + 1. bit_at bits' p = bit_at bits p"
        "\<forall>p. pc + 1 \<le> p \<and> p < length code \<longrightarrow>
           bit_at bits' p = (\<not> code_mask 0 (drop (pc + 1) code) ! (p - (pc + 1)))"
        by blast
      have "bit_at bits' p = (\<not> code_mask 0 (drop pc code) ! (p - pc))"
        if "pc \<le> p" "p < length code" for p
      proof (cases "p = pc")
        case True
        then show ?thesis using b(3) "1.prems"(1) by (simp add: d clean_def)
      next
        case ne: False
        with that have "pc + 1 \<le> p" "p - pc = Suc (p - (pc + 1))" by simp_all
        with b(4) that False show ?thesis by (simp add: d push_size_def)
      qed
      with b np pc show ?thesis
        by (auto simp: codeBitmap_loop.simps [of code pc])
    next
      case True
      then have np: "\<not> (code ! pc < PUSH1 \<or> code ! pc > PUSH32)" by (simp add: push_range)
      let ?n = "push_size (code ! pc)"
      have c1: "clean (pc + 1) bits" using "1.prems"(1) by (simp add: clean_def)
      have "(pc + 1) div 8 \<le> length code div 8" using pc by (intro div_le_mono) simp
      then have "(pc + 1) div 8 + 4 < length bits" using "1.prems"(2) by simp
      then obtain b1 where b1: "push_data ?n (pc + 1) bits = Some (pc + 1 + ?n, b1)"
        and m1: "marked (pc + 1) ?n bits b1"
        using push_data_marks [OF c1 push_size_le] by blast
      have l1: "length b1 = length code div 8 + 5" using m1 "1.prems"(2) by (simp add: marked_def)
      have pd: "push_data (unat (code ! pc - PUSH1 + 1)) (pc + 1) bits = Some (pc + 1 + ?n, b1)"
        using b1 by (simp only: push_count [OF True])
      from "1.IH"(2) [OF pc np pd refl marked_clean [OF c1 m1] l1] obtain bits' where
        b: "codeBitmap_loop code (pc + 1 + ?n) b1 = Some bits'" "length bits' = length b1"
        "\<forall>p < pc + 1 + ?n. bit_at bits' p = bit_at b1 p"
        "\<forall>p. pc + 1 + ?n \<le> p \<and> p < length code \<longrightarrow>
           bit_at bits' p = (\<not> code_mask 0 (drop (pc + 1 + ?n) code) ! (p - (pc + 1 + ?n)))"
        by blast
      have low: "bit_at bits' p = bit_at bits p" if "p < pc" for p
        using that b(3) m1 by (simp add: marked_def)
      have "bit_at bits' p = (\<not> code_mask 0 (drop pc code) ! (p - pc))"
        if pr: "pc \<le> p" "p < length code" for p
      proof -
        consider "p = pc" | "pc < p" "p < pc + 1 + ?n" | "pc + 1 + ?n \<le> p"
          using pr(1) by linarith
        then show ?thesis
        proof cases
          case 1
          then show ?thesis using b(3) m1 "1.prems"(1) by (simp add: d clean_def marked_def)
        next
          case 2
          then have "bit_at bits' p" using b(3) m1 by (simp add: marked_def)
          moreover have "\<not> code_mask 0 (drop pc code) ! (p - pc)"
            using 2 pr by (auto simp: d nth_Cons' code_mask_skip [of ?n] nth_append)
          ultimately show ?thesis by simp
        next
          case 3
          then have "\<not> p - Suc pc < ?n" by linarith
          with 3 have "code_mask 0 (drop pc code) ! (p - pc) =
            code_mask 0 (drop (pc + 1 + ?n) code) ! (p - (pc + 1 + ?n))"
            using pr by (simp add: d nth_Cons' code_mask_skip [of ?n] nth_append add.commute)
          with b(4) 3 pr show ?thesis by blast
        qed
      qed
      with b(1,2) pd np pc low l1 "1.prems"(2) show ?thesis
        by (auto simp: codeBitmap_loop.simps [of code pc])
    qed
  qed
qed

lemma codeBitmap_correct:
  "\<exists>bits. codeBitmap code = Some bits \<and>
     (\<forall>p < length code. codeSegment bits p = Some (code_mask 0 code ! p))"
proof -
  let ?z = "replicate (length code div 8 + 1 + 4) 0 :: bitvec"
  have "clean 0 ?z" by (auto simp: clean_def bit_at_def)
  from codeBitmap_loop_correct [OF this, of code] obtain bits where
    b: "codeBitmap_loop code 0 ?z = Some bits" "length bits = length code div 8 + 5"
    "\<forall>p < length code. bit_at bits p = (\<not> code_mask 0 code ! p)"
    by auto
  have "codeSegment bits p = Some (code_mask 0 code ! p)" if "p < length code" for p
  proof -
    have "p div 8 \<le> length code div 8" using that by (intro div_le_mono) simp
    then have "p div 8 < length bits" using b(2) by simp
    with b(3) that show ?thesis by (simp add: codeSegment_bit_at)
  qed
  with b(1) show ?thesis by (auto simp: codeBitmap_def codeBitmapInternal_def)
qed

end
