(* ===== verification/VmContract.thy ===== *)
theory VmContract
  imports CodeAnalysis
begin

text \<open>
  The contract object of a call frame (src/vm/contract.go): its code, its gas, and the check of
  jump destinations with the cached analysis of src/vm/analysis.go.
\<close>

section \<open>Contracts\<close>

text \<open>
  One call frame's contract.  The Go struct also keeps the \<open>ContractRef\<close> of the caller, which
  only \<open>AsDelegate\<close> reads, right after \<open>NewContract\<close>: here the parent is its argument.  A nil
  \<open>analysis\<close>, \<open>CodeAddr\<close> or \<open>value\<close> is \<open>None\<close>.
\<close>

record Contract =
  CallerAddress :: address
  self :: address
  analysis :: "bitvec option"
  Code :: bytes
  CodeHash :: hash
  CodeAddr :: "address option"
  Input :: bytes
  Gas :: u64
  "value" :: "int option"
  DelegateCall_flag :: bool

definition NewContract :: "address \<Rightarrow> address \<Rightarrow> int option \<Rightarrow> u64 \<Rightarrow> Contract" where
  [vm_defs]: "NewContract caller object val gas =
     \<lparr>CallerAddress = caller, self = object, analysis = None, Code = [], CodeHash = 0,
      CodeAddr = None, Input = [], Gas = gas, value = val, DelegateCall_flag = False\<rparr>"

definition AsDelegate :: "Contract \<Rightarrow> Contract \<Rightarrow> Contract" where
  [vm_defs]: "AsDelegate parent c =
     c\<lparr>DelegateCall_flag := True, CallerAddress := CallerAddress parent, value := value parent\<rparr>"

definition GetByte :: "Contract \<Rightarrow> u64 \<Rightarrow> byte" where
  "GetByte c n = (if unat n < length (Code c) then Code c ! unat n else 0)"

definition GetOp :: "Contract \<Rightarrow> u64 \<Rightarrow> OpCode" where
  "GetOp c n = GetByte c n"

text \<open>\<open>UseGas\<close> returns whether the gas sufficed, with the contract.\<close>

definition UseGas :: "u64 \<Rightarrow> Contract \<Rightarrow> bool \<times> Contract" where
  "UseGas gas c = (if Gas c < gas then (False, c) else (True, c\<lparr>Gas := Gas c - gas\<rparr>))"

definition SetCallCode :: "address \<Rightarrow> hash \<Rightarrow> bytes \<Rightarrow> Contract \<Rightarrow> Contract" where
  [vm_defs]: "SetCallCode addr h code c = c\<lparr>Code := code, CodeHash := h, CodeAddr := Some addr\<rparr>"

text \<open>
  The bitmap cache (an ARC cache of a third-party package) is a map from code hash to bitmap;
  eviction, which only turns a hit into a miss, is not modelled.
\<close>

type_synonym bitmapCache = "hash \<rightharpoonup> bitvec"

definition getCodeBitmapCached :: "bitmapCache \<Rightarrow> hash \<Rightarrow> bytes \<Rightarrow> (bitmapCache \<times> bitvec) option" where
  "getCodeBitmapCached cache codehash code =
     (case cache codehash of
        Some bitmap \<Rightarrow> Some (cache, bitmap)
      | None \<Rightarrow> do { bitmap \<leftarrow> codeBitmap code; Some (cache(codehash \<mapsto> bitmap), bitmap) })"

definition isCode :: "bitmapCache \<Rightarrow> Contract \<Rightarrow> u64 \<Rightarrow> (bitmapCache \<times> Contract \<times> bool) option" where
  "isCode cache c udest =
     (case analysis c of
        Some bits \<Rightarrow> do { b \<leftarrow> codeSegment bits (unat udest); Some (cache, c, b) }
      | None \<Rightarrow>
          if CodeHash c \<noteq> 0 then do {
            (cache, bits) \<leftarrow> getCodeBitmapCached cache (CodeHash c) (Code c);
            b \<leftarrow> codeSegment bits (unat udest);
            Some (cache, c\<lparr>analysis := Some bits\<rparr>, b)
          } else do {
            bits \<leftarrow> codeBitmap (Code c);
            b \<leftarrow> codeSegment bits (unat udest);
            Some (cache, c\<lparr>analysis := Some bits\<rparr>, b)
          })"

definition validJumpdest :: "bitmapCache \<Rightarrow> Contract \<Rightarrow> u256 \<Rightarrow> (bitmapCache \<times> Contract \<times> bool) option" where
  "validJumpdest cache c dest =
     (let (udest, overflow) = Uint64WithOverflow dest
      in if overflow \<or> unat udest \<ge> length (Code c) then Some (cache, c, False)
         else if Code c ! unat udest \<noteq> JUMPDEST then Some (cache, c, False)
         else isCode cache c udest)"

text \<open>
  \<open>preimage\<close> gives the code behind a hash (the documented collision resistance of the hash): the
  cache and the analysis of a contract only hold bitmaps of the right code.
\<close>

definition cache_ok :: "(hash \<Rightarrow> bytes) \<Rightarrow> bitmapCache \<Rightarrow> bool" where
  "cache_ok preimage cache \<longleftrightarrow> (\<forall>h bits. cache h = Some bits \<longrightarrow> codeBitmap (preimage h) = Some bits)"

definition contract_ok :: "(hash \<Rightarrow> bytes) \<Rightarrow> Contract \<Rightarrow> bool" where
  "contract_ok preimage c \<longleftrightarrow>
     (CodeHash c \<noteq> 0 \<longrightarrow> preimage (CodeHash c) = Code c) \<and>
     (\<forall>bits. analysis c = Some bits \<longrightarrow> codeBitmap (Code c) = Some bits)"

lemma codeSegment_bitmap:
  "codeBitmap code = Some bits \<Longrightarrow> p < length code \<Longrightarrow> codeSegment bits p = Some (code_mask 0 code ! p)"
  using codeBitmap_correct [of code] by auto

lemma UseGas_fields [simp]:
  "snd (UseGas g c) = (if Gas c < g then c else c\<lparr>Gas := Gas c - g\<rparr>)"
  "fst (UseGas g c) \<longleftrightarrow> g \<le> Gas c"
  by (auto simp: UseGas_def)

lemma analysis_same: "analysis c = a \<Longrightarrow> c\<lparr>analysis := a\<rparr> = c"
  by (cases c) simp

lemma getCodeBitmapCached_ok:
  assumes "cache_ok preimage cache" and "preimage h = code" and "codeBitmap code = Some bits"
  shows "\<exists>cache'. getCodeBitmapCached cache h code = Some (cache', bits) \<and> cache_ok preimage cache'"
proof (cases "cache h")
  case None
  with assms show ?thesis by (auto simp: getCodeBitmapCached_def cache_ok_def)
next
  case (Some bits')
  with assms(1) have "codeBitmap (preimage h) = Some bits'" unfolding cache_ok_def by blast
  with assms(2,3) have "bits' = bits" by simp
  with Some assms(1) show ?thesis by (simp add: getCodeBitmapCached_def)
qed

lemma isCode_correct:
  assumes "cache_ok preimage cache" and "contract_ok preimage c" and "unat udest < length (Code c)"
  shows "\<exists>cache' c'. isCode cache c udest = Some (cache', c', code_mask 0 (Code c) ! unat udest) \<and>
    cache_ok preimage cache' \<and> contract_ok preimage c' \<and> c'\<lparr>analysis := analysis c\<rparr> = c"
proof -
  obtain bits where b: "codeBitmap (Code c) = Some bits" using codeBitmap_correct by blast
  note seg = codeSegment_bitmap [OF b assms(3)]
  show ?thesis
  proof (cases "analysis c")
    case None
    then show ?thesis
    proof (cases "CodeHash c = 0")
      case True
      with None assms b seg show ?thesis
        by (simp add: isCode_def contract_ok_def analysis_same)
    next
      case False
      with assms(2) have "preimage (CodeHash c) = Code c" by (simp add: contract_ok_def)
      with getCodeBitmapCached_ok [OF assms(1) _ b] obtain cache'
        where "getCodeBitmapCached cache (CodeHash c) (Code c) = Some (cache', bits)"
          and "cache_ok preimage cache'" by blast
      with False None assms(2) b seg show ?thesis
        by (simp add: isCode_def contract_ok_def analysis_same)
    qed
  next
    case (Some bits')
    with assms(2) b have "bits' = bits" by (simp add: contract_ok_def)
    with Some assms b seg show ?thesis by (simp add: isCode_def analysis_same)
  qed
qed

lemma validJumpdest_ok:
  assumes "cache_ok preimage cache" and "contract_ok preimage c"
  shows "\<exists>cache' c'. validJumpdest cache c dest =
      Some (cache', c', unat dest < length (Code c) \<and> unat dest < 2 ^ 64 \<and>
        Code c ! unat dest = JUMPDEST \<and> code_mask 0 (Code c) ! unat dest) \<and>
    cache_ok preimage cache' \<and> contract_ok preimage c' \<and> c'\<lparr>analysis := analysis c\<rparr> = c"
proof (cases "IsUint64 dest \<and> unat dest < length (Code c) \<and> Code c ! unat dest = JUMPDEST")
  case True
  then have u: "unat (Uint64 dest) = unat dest" by (simp add: unat_Uint64)
  with True isCode_correct [OF assms, of "Uint64 dest"] show ?thesis
    by (auto simp: validJumpdest_def Uint64WithOverflow_def IsUint64_def)
next
  case False
  then show ?thesis using assms
    by (auto simp: validJumpdest_def Uint64WithOverflow_def unat_Uint64 IsUint64_def analysis_same)
qed

end
