(* ===== verification/VmEvm.thy ===== *)
theory VmEvm
  imports VmContract
begin

text \<open>
  The state and the environment of the virtual machine: the interface \<open>StateDB\<close>
  (src/vm/interface.go), the tracer interface \<open>Logger\<close> (src/vm/logger.go), the chain rules
  (src/vm/chain_config.go), and the structs \<open>Context\<close>, \<open>EVM\<close>, \<open>Config\<close> and \<open>Interpreter\<close>
  (src/vm/evm.go, src/vm/interpreter.go).

  A Go interface is a record of functions over the state \<open>'s\<close> of its implementation (\<open>'t\<close> for the
  tracer).  What never changes during an execution is collected in \<open>Env\<close>; what changes is in
  \<open>EVM\<close>, in the tracer state, and in the local variables \<open>M\<close> of one run of the interpreter.
\<close>

section \<open>State database\<close>

record Log =
  log_Address :: address
  log_Topics :: "hash list"
  log_Data :: bytes
  log_BlockNumber :: u64

record 's StateDB =
  CreateAccount :: "address \<Rightarrow> 's \<Rightarrow> 's"
  SubBalance :: "address \<Rightarrow> int \<Rightarrow> 's \<Rightarrow> 's"
  AddBalance :: "address \<Rightarrow> int \<Rightarrow> 's \<Rightarrow> 's"
  GetBalance :: "address \<Rightarrow> 's \<Rightarrow> int"
  GetNonce :: "address \<Rightarrow> 's \<Rightarrow> u64"
  SetNonce :: "address \<Rightarrow> u64 \<Rightarrow> 's \<Rightarrow> 's"
  GetCodeHash :: "address \<Rightarrow> 's \<Rightarrow> hash"
  GetCode :: "address \<Rightarrow> 's \<Rightarrow> bytes"
  SetCode :: "address \<Rightarrow> bytes \<Rightarrow> 's \<Rightarrow> 's"
  GetCodeSize :: "address \<Rightarrow> 's \<Rightarrow> int"
  AddRefund :: "u64 \<Rightarrow> 's \<Rightarrow> 's"
  GetRefund :: "'s \<Rightarrow> u64"
  GetState :: "address \<Rightarrow> hash \<Rightarrow> 's \<Rightarrow> hash"
  SetState :: "address \<Rightarrow> hash \<Rightarrow> hash \<Rightarrow> 's \<Rightarrow> 's"
  Suicide :: "address \<Rightarrow> 's \<Rightarrow> bool \<times> 's"
  HasSuicided :: "address \<Rightarrow> 's \<Rightarrow> bool"
  Exist :: "address \<Rightarrow> 's \<Rightarrow> bool"
  Empty :: "address \<Rightarrow> 's \<Rightarrow> bool"
  RevertToSnapshot :: "nat \<Rightarrow> 's \<Rightarrow> 's"
  Snapshot :: "'s \<Rightarrow> nat \<times> 's"
  AddLog :: "Log \<Rightarrow> 's \<Rightarrow> 's"
  AddPreimage :: "hash \<Rightarrow> bytes \<Rightarrow> 's \<Rightarrow> 's"

section \<open>Chain rules\<close>

text \<open>The gas table of go-ethereum's \<open>params\<close>.\<close>

record GasTable =
  gt_ExtcodeSize :: u64
  gt_ExtcodeCopy :: u64
  gt_ExtcodeHash :: u64
  gt_Balance :: u64
  gt_SLoad :: u64
  gt_Calls :: u64
  gt_Suicide :: u64
  gt_ExpByte :: u64
  gt_CreateBySuicide :: u64

definition isForked :: "int option \<Rightarrow> int option \<Rightarrow> bool" where
  "isForked s head =
     (case (s, head) of (Some b, Some h) \<Rightarrow> b \<le> h | _ \<Rightarrow> False)"

text \<open>
  \<open>vm.ChainConfig\<close> embeds go-ethereum's \<open>params.ChainConfig\<close>, whose fork tests and gas table are
  functions of the block number, and adds the Istanbul block.
\<close>

record ChainConfig =
  ChainID :: "int option"
  IsHomestead :: "int \<Rightarrow> bool"
  IsEIP150 :: "int \<Rightarrow> bool"
  IsEIP155 :: "int \<Rightarrow> bool"
  IsEIP158 :: "int \<Rightarrow> bool"
  IsByzantium :: "int \<Rightarrow> bool"
  IsConstantinople :: "int \<Rightarrow> bool"
  GasTable_at :: "int \<Rightarrow> GasTable"
  IstanbulBlock :: "int option"

definition IsIstanbul :: "ChainConfig \<Rightarrow> int \<Rightarrow> bool" where
  "IsIstanbul c num = isForked (IstanbulBlock c) (Some num)"

record Rules =
  rules_ChainID :: int
  rules_IsHomestead :: bool
  rules_IsEIP150 :: bool
  rules_IsEIP155 :: bool
  rules_IsEIP158 :: bool
  rules_IsByzantium :: bool
  rules_IsIstanbul :: bool

definition Rules_of :: "ChainConfig \<Rightarrow> int \<Rightarrow> Rules" where
  "Rules_of c num =
     (let chainID = (case ChainID c of None \<Rightarrow> 0 | Some i \<Rightarrow> i)
      in \<lparr>rules_ChainID = chainID, rules_IsHomestead = IsHomestead c num,
          rules_IsEIP150 = IsEIP150 c num, rules_IsEIP155 = IsEIP155 c num,
          rules_IsEIP158 = IsEIP158 c num, rules_IsByzantium = IsByzantium c num,
          rules_IsIstanbul = IsIstanbul c num\<rparr>)"

section \<open>Addresses\<close>

definition address_bytes :: "address \<Rightarrow> bytes" where
  "address_bytes a = nat_be 20 (unat a)"

definition CreateAddress2 :: "deps \<Rightarrow> address \<Rightarrow> hash \<Rightarrow> bytes \<Rightarrow> address" where
  "CreateAddress2 d b salt inithash =
     ucast (Keccak256 d ([0xff] @ address_bytes b @ Bytes32 salt @ inithash))"

section \<open>The machine\<close>

text \<open>
  The struct \<open>EVM\<close> without its constant part, with the two mutable fields of its \<open>Interpreter\<close>
  (\<open>readOnly\<close>, \<open>returnData\<close>) and the package-level bitmap cache.
\<close>

record 's EVM =
  statedb :: 's
  depth :: nat
  abort :: bool
  callGasTemp :: u64
  contractCreationCount :: u32
  readOnly :: bool
  returnData :: bytes
  bitmaps :: bitmapCache

text \<open>
  The callbacks of \<open>Context\<close> come from another package, which cannot reach the unexported fields
  of the machine: they read it, and change the state database and, for an intercepted call, the
  gas of the contract.
\<close>

record 's Context =
  CanTransfer :: "'s \<Rightarrow> address \<Rightarrow> int \<Rightarrow> bool"
  Transfer :: "'s \<Rightarrow> address \<Rightarrow> address \<Rightarrow> int \<Rightarrow> 's"
  GetHash :: "u64 \<Rightarrow> hash"
  NewContractAddress :: "'s EVM \<Rightarrow> u32 \<Rightarrow> address"
  InterceptContractCall ::
    "('s EVM \<Rightarrow> Contract \<Rightarrow> bool \<Rightarrow> ('s \<times> u64 \<times> bytes \<times> error option) option) option"
  OnCreateContract :: "('s EVM \<Rightarrow> address \<Rightarrow> address \<Rightarrow> 's) option"
  OnSuicideContract :: "('s EVM \<Rightarrow> address \<Rightarrow> address \<Rightarrow> 's) option"
  Origin :: address
  GasPrice :: int
  Coinbase :: address
  GasLimit :: u64
  BlockNumber :: int
  Time :: int
  Difficulty :: int

text \<open>What the tracer sees of one step: the arguments of \<open>CaptureState\<close> and \<open>CaptureFault\<close>.\<close>

record StepInfo =
  si_pc :: u64
  si_op :: OpCode
  si_gas :: u64
  si_cost :: u64
  si_memory :: Memory
  si_stack :: Stack
  si_contract :: Contract
  si_depth :: nat
  si_err :: "error option"

text \<open>
  The tracer.  Its methods see the machine and return their new state; those that can stop the
  execution also return whether they called \<open>EVM.Cancel\<close>.
\<close>

record ('s, 't) Logger =
  CaptureStart :: "'s EVM \<Rightarrow> address \<Rightarrow> address \<Rightarrow> bool \<Rightarrow> bytes \<Rightarrow> u64 \<Rightarrow> int \<Rightarrow> 't \<Rightarrow> 't"
  CaptureEnd :: "bytes \<Rightarrow> u64 \<Rightarrow> error option \<Rightarrow> 't \<Rightarrow> 't"
  CaptureEnter :: "OpCode \<Rightarrow> address \<Rightarrow> address \<Rightarrow> bytes \<Rightarrow> u64 \<Rightarrow> int option \<Rightarrow> 't \<Rightarrow> 't \<times> bool"
  CaptureExit :: "bytes \<Rightarrow> u64 \<Rightarrow> error option \<Rightarrow> 't \<Rightarrow> 't \<times> bool"
  CaptureState :: "'s EVM \<Rightarrow> StepInfo \<Rightarrow> 't \<Rightarrow> 't \<times> bool"
  CaptureFault :: "'s EVM \<Rightarrow> StepInfo \<Rightarrow> 't \<Rightarrow> 't \<times> bool"

record PrecompiledContract =
  RequiredGas :: "bytes \<Rightarrow> u64"
  PRun :: "bytes \<Rightarrow> bytes \<times> error option"

text \<open>The three tables of precompiled contracts are arguments of the model.\<close>

record ('s, 't) Env =
  lib :: deps
  sdb :: "'s StateDB"
  ctx :: "'s Context"
  chainConfig :: ChainConfig
  Tracer :: "('s, 't) Logger option"
  NoRecursion :: bool
  EnablePreimageRecording :: bool
  PrecompiledContractsHomestead :: "address \<rightharpoonup> PrecompiledContract"
  PrecompiledContractsByzantium :: "address \<rightharpoonup> PrecompiledContract"
  PrecompiledContractsIstanbul :: "address \<rightharpoonup> PrecompiledContract"

abbreviation blockNumber :: "('s, 't) Env \<Rightarrow> int" where
  "blockNumber E \<equiv> BlockNumber (ctx E)"

definition gasTable :: "('s, 't) Env \<Rightarrow> GasTable" where
  [vm_defs]: "gasTable E = GasTable_at (chainConfig E) (blockNumber E)"

definition Cancel :: "'s EVM \<Rightarrow> 's EVM" where
  "Cancel e = e\<lparr>abort := True\<rparr>"

text \<open>
  The variables of \<open>Interpreter.Run\<close>: the machine, the tracer, the program counter, the contract,
  the memory, the stack, and the cost of the current operation.
\<close>

record ('s, 't) M =
  evm :: "'s EVM"
  trc :: 't
  pc :: u64
  contract :: Contract
  memory :: Memory
  stack :: Stack
  cost :: u64

abbreviation db :: "('s, 't) M \<Rightarrow> 's" where
  "db m \<equiv> statedb (evm m)"

definition set_db :: "'s \<Rightarrow> ('s, 't) M \<Rightarrow> ('s, 't) M" where
  [vm_defs]: "set_db s m = m\<lparr>evm := (evm m)\<lparr>statedb := s\<rparr>\<rparr>"

text \<open>The result of an operation: the variables, the returned bytes and the error.\<close>

type_synonym ('s, 't) result = "(('s, 't) M \<times> bytes \<times> error option) option"

abbreviation ok :: "('s, 't) M \<Rightarrow> ('s, 't) result" where
  "ok m \<equiv> Some (m, [], None)"

end
