(* ===== verification/StateDbs.thy ===== *)
theory StateDbs
  imports States VmEvm
begin

text \<open>
  The adapter of the state for the virtual machine (src/runtime/statedb/statedb.go).

  It wraps a state, and keeps refunds, suicide flags, preimages, logs and transfers in a second
  stacked map, the repository.  A snapshot pushes both maps and records the revision of the state in
  the repository; a revert pops the repository and reads that revision back.  \<open>db_ok\<close> is the
  invariant: the values in the repository have the types of their keys, and level \<open>n\<close> records the
  revision that the state had when the level was left.
\<close>

declare length_sm_maps [simp del]

section \<open>The adapter\<close>

record transfer_log =
  tl_Sender :: address
  tl_Recipient :: address
  tl_Amount :: int

record event =
  ev_Address :: address
  ev_Topics :: "hash list"
  ev_Data :: bytes

datatype repo_key =
    suicideFlagKey address
  | refundKey
  | preimageKey hash
  | eventKey
  | transferKey
  | stateRevKey

datatype repo_val =
    FlagVal bool
  | RefundVal u64
  | PreimageVal bytes
  | EventVal Log
  | TransferVal transfer_log
  | RevVal nat

record Thor_StateDB =
  sd_state :: State
  sd_repo :: "(repo_key, repo_val) StackedMap"

text \<open>The source of the repository; it panics on keys that have no initial value.\<close>

definition repo_getter :: "repo_key \<Rightarrow> (unit + repo_val option) option" where
  "repo_getter k =
     (case k of
        suicideFlagKey _ \<Rightarrow> Some (Inr (Some (FlagVal False)))
      | refundKey \<Rightarrow> Some (Inr (Some (RefundVal 0)))
      | _ \<Rightarrow> None)"

definition NewStateDB :: "State \<Rightarrow> Thor_StateDB" where
  "NewStateDB st = \<lparr>sd_state = st, sd_repo = NewStackedMap\<rparr>"

definition repo_get :: "repo_key \<Rightarrow> Thor_StateDB \<Rightarrow> (unit + repo_val option) option" where
  "repo_get key s = Get repo_getter key (sd_repo s)"

definition repo_put :: "repo_key \<Rightarrow> repo_val \<Rightarrow> Thor_StateDB \<Rightarrow> Thor_StateDB option" where
  "repo_put key val s = map_option (\<lambda>m. s\<lparr>sd_repo := m\<rparr>) (Put key val (sd_repo s))"

definition StateDB_GetRefund :: "Thor_StateDB \<Rightarrow> u64 option" where
  "StateDB_GetRefund s =
     do { r \<leftarrow> repo_get refundKey s; case r of Inr (Some (RefundVal n)) \<Rightarrow> Some n | _ \<Rightarrow> None }"

definition ethlogToEvent :: "Log \<Rightarrow> event" where
  "ethlogToEvent l = \<lparr>ev_Address = log_Address l, ev_Topics = log_Topics l, ev_Data = log_Data l\<rparr>"

text \<open>The callback of \<open>GetLogs\<close>; its closure is \<open>None\<close> after a panic.\<close>

definition collect_log ::
    "repo_key \<Rightarrow> repo_val \<Rightarrow> (event list \<times> transfer_log list) option \<Rightarrow> (event list \<times> transfer_log list) option \<times> bool" where
  "collect_log k v acc =
     (case acc of
        None \<Rightarrow> (None, False)
      | Some (events, transfers) \<Rightarrow>
          (case k of
             eventKey \<Rightarrow> (case v of EventVal l \<Rightarrow> (Some (events @ [ethlogToEvent l], transfers), True) | _ \<Rightarrow> (None, False))
           | transferKey \<Rightarrow> (case v of TransferVal t \<Rightarrow> (Some (events, transfers @ [t]), True) | _ \<Rightarrow> (None, False))
           | _ \<Rightarrow> (acc, True)))"

definition StateDB_GetLogs :: "Thor_StateDB \<Rightarrow> (event list \<times> transfer_log list) option" where
  "StateDB_GetLogs s = Journal collect_log (sd_repo s) (Some ([], []))"

text \<open>An error of the state is a panic here.\<close>

definition must :: "'a res \<Rightarrow> 'a option" where
  "must r = (case r of Some (Inr x) \<Rightarrow> Some x | _ \<Rightarrow> None)"

definition set_state :: "Thor_StateDB \<Rightarrow> (State \<times> db_error option) option \<Rightarrow> Thor_StateDB option" where
  "set_state s r = (case r of Some (st, None) \<Rightarrow> Some (s\<lparr>sd_state := st\<rparr>) | _ \<Rightarrow> None)"

definition StateDB_CreateAccount :: "address \<Rightarrow> Thor_StateDB \<Rightarrow> Thor_StateDB" where
  "StateDB_CreateAccount a s = s"

definition StateDB_GetBalance :: "state_deps \<Rightarrow> address \<Rightarrow> Thor_StateDB \<Rightarrow> int option" where
  "StateDB_GetBalance D addr s = must (State_GetBalance D addr (sd_state s))"

definition StateDB_SubBalance :: "state_deps \<Rightarrow> address \<Rightarrow> int \<Rightarrow> Thor_StateDB \<Rightarrow> Thor_StateDB option" where
  "StateDB_SubBalance D addr amount s =
     (if amount = 0 then Some s
      else do {
        balance \<leftarrow> must (State_GetBalance D addr (sd_state s));
        set_state s (State_SetBalance D addr (balance - amount) (sd_state s))
      })"

definition StateDB_AddBalance :: "state_deps \<Rightarrow> address \<Rightarrow> int \<Rightarrow> Thor_StateDB \<Rightarrow> Thor_StateDB option" where
  "StateDB_AddBalance D addr amount s =
     (if amount = 0 then Some s
      else do {
        balance \<leftarrow> must (State_GetBalance D addr (sd_state s));
        set_state s (State_SetBalance D addr (balance + amount) (sd_state s))
      })"

definition StateDB_GetNonce :: "address \<Rightarrow> Thor_StateDB \<Rightarrow> u64" where
  "StateDB_GetNonce a s = 0"

definition StateDB_SetNonce :: "address \<Rightarrow> u64 \<Rightarrow> Thor_StateDB \<Rightarrow> Thor_StateDB" where
  "StateDB_SetNonce a n s = s"

definition StateDB_GetCodeHash :: "state_deps \<Rightarrow> address \<Rightarrow> Thor_StateDB \<Rightarrow> hash option" where
  "StateDB_GetCodeHash D addr s = must (State_GetCodeHash D addr (sd_state s))"

definition StateDB_GetCode :: "state_deps \<Rightarrow> address \<Rightarrow> Thor_StateDB \<Rightarrow> bytes option" where
  "StateDB_GetCode D addr s = must (State_GetCode D addr (sd_state s))"

text \<open>The package-level cache of code sizes is an argument and a result.\<close>

definition StateDB_GetCodeSize ::
    "state_deps \<Rightarrow> (hash \<rightharpoonup> int) \<Rightarrow> address \<Rightarrow> Thor_StateDB \<Rightarrow> (int \<times> (hash \<rightharpoonup> int)) option" where
  "StateDB_GetCodeSize D codeSizeCache addr s =
     do {
       hash \<leftarrow> must (State_GetCodeHash D addr (sd_state s));
       if hash = 0 then Some (0, codeSizeCache)
       else case codeSizeCache hash of
              Some v \<Rightarrow> Some (v, codeSizeCache)
            | None \<Rightarrow>
                do {
                  code \<leftarrow> must (State_GetCode D addr (sd_state s));
                  let size = int (length code) in Some (size, codeSizeCache(hash \<mapsto> size))
                }
     }"

definition StateDB_SetCode :: "state_deps \<Rightarrow> address \<Rightarrow> bytes \<Rightarrow> Thor_StateDB \<Rightarrow> Thor_StateDB option" where
  "StateDB_SetCode D addr code s = set_state s (State_SetCode D addr code (sd_state s))"

definition StateDB_HasSuicided :: "address \<Rightarrow> Thor_StateDB \<Rightarrow> bool option" where
  "StateDB_HasSuicided addr s =
     do { r \<leftarrow> repo_get (suicideFlagKey addr) s; case r of Inr (Some (FlagVal b)) \<Rightarrow> Some b | _ \<Rightarrow> None }"

definition StateDB_Suicide :: "state_deps \<Rightarrow> address \<Rightarrow> Thor_StateDB \<Rightarrow> (bool \<times> Thor_StateDB) option" where
  "StateDB_Suicide D addr s =
     do {
       exist \<leftarrow> must (State_Exists D addr (sd_state s));
       if \<not> exist then Some (False, s)
       else do {
         st \<leftarrow> State_Delete D addr (sd_state s);
         s \<leftarrow> repo_put (suicideFlagKey addr) (FlagVal True) (s\<lparr>sd_state := st\<rparr>);
         Some (True, s)
       }
     }"

definition StateDB_GetState :: "state_deps \<Rightarrow> address \<Rightarrow> hash \<Rightarrow> Thor_StateDB \<Rightarrow> hash option" where
  "StateDB_GetState D addr key s = must (State_GetStorage D addr key (sd_state s))"

definition StateDB_SetState :: "state_deps \<Rightarrow> address \<Rightarrow> hash \<Rightarrow> hash \<Rightarrow> Thor_StateDB \<Rightarrow> Thor_StateDB option" where
  "StateDB_SetState D addr key val s =
     map_option (\<lambda>st. s\<lparr>sd_state := st\<rparr>) (State_SetStorage D addr key val (sd_state s))"

definition StateDB_Exist :: "state_deps \<Rightarrow> address \<Rightarrow> Thor_StateDB \<Rightarrow> bool option" where
  "StateDB_Exist D addr s = must (State_Exists D addr (sd_state s))"

definition StateDB_Empty :: "state_deps \<Rightarrow> address \<Rightarrow> Thor_StateDB \<Rightarrow> bool option" where
  "StateDB_Empty D addr s = map_option (\<lambda>b. \<not> b) (StateDB_Exist D addr s)"

definition StateDB_AddRefund :: "u64 \<Rightarrow> Thor_StateDB \<Rightarrow> Thor_StateDB option" where
  "StateDB_AddRefund gas s =
     do {
       r \<leftarrow> repo_get refundKey s;
       v \<leftarrow> (case r of Inr (Some (RefundVal n)) \<Rightarrow> Some n | _ \<Rightarrow> None);
       repo_put refundKey (RefundVal (v + gas)) s
     }"

definition StateDB_AddPreimage :: "hash \<Rightarrow> bytes \<Rightarrow> Thor_StateDB \<Rightarrow> Thor_StateDB option" where
  "StateDB_AddPreimage h preimage s = repo_put (preimageKey h) (PreimageVal preimage) s"

definition StateDB_AddLog :: "Log \<Rightarrow> Thor_StateDB \<Rightarrow> Thor_StateDB option" where
  "StateDB_AddLog vmlog s = repo_put eventKey (EventVal vmlog) s"

definition StateDB_AddTransfer :: "transfer_log \<Rightarrow> Thor_StateDB \<Rightarrow> Thor_StateDB option" where
  "StateDB_AddTransfer transfer s = repo_put transferKey (TransferVal transfer) s"

definition StateDB_Snapshot :: "Thor_StateDB \<Rightarrow> (nat \<times> Thor_StateDB) option" where
  "StateDB_Snapshot s =
     (let (srev, st) = State_NewCheckpoint (sd_state s)
      in do {
        s \<leftarrow> repo_put stateRevKey (RevVal srev) (s\<lparr>sd_state := st\<rparr>);
        let (rev, m) = Push (sd_repo s) in Some (rev, s\<lparr>sd_repo := m\<rparr>)
      })"

definition StateDB_RevertToSnapshot :: "nat \<Rightarrow> Thor_StateDB \<Rightarrow> Thor_StateDB option" where
  "StateDB_RevertToSnapshot revision s =
     do {
       m \<leftarrow> PopTo revision (sd_repo s);
       let s = s\<lparr>sd_repo := m\<rparr>
       in do {
         r \<leftarrow> repo_get stateRevKey s;
         srev \<leftarrow> (case r of Inr (Some (RevVal n)) \<Rightarrow> Some n | _ \<Rightarrow> None);
         st \<leftarrow> State_RevertTo srev (sd_state s);
         Some (s\<lparr>sd_state := st\<rparr>)
       }
     }"

section \<open>Invariant\<close>

fun repo_typed :: "repo_key \<Rightarrow> repo_val \<Rightarrow> bool" where
  "repo_typed (suicideFlagKey _) (FlagVal _) = True"
| "repo_typed refundKey (RefundVal _) = True"
| "repo_typed (preimageKey _) (PreimageVal _) = True"
| "repo_typed eventKey (EventVal _) = True"
| "repo_typed transferKey (TransferVal _) = True"
| "repo_typed stateRevKey (RevVal _) = True"
| "repo_typed _ _ = False"

abbreviation rmaps :: "Thor_StateDB \<Rightarrow> (repo_key \<rightharpoonup> repo_val) list" where
  "rmaps s \<equiv> sm_maps (sd_repo s)"

abbreviation rjournals :: "Thor_StateDB \<Rightarrow> (repo_key \<times> repo_val) list list" where
  "rjournals s \<equiv> sm_journals (sd_repo s)"

abbreviation dmaps :: "Thor_StateDB \<Rightarrow> (state_key \<rightharpoonup> state_val) list" where
  "dmaps s \<equiv> smaps (sd_state s)"

text \<open>The depth of the state when the adapter was created, and the revision that a level records.\<close>

definition base :: "Thor_StateDB \<Rightarrow> nat" where
  "base s = length (dmaps s) + 1 - length (rmaps s)"

definition repo_map_ok :: "(repo_key \<rightharpoonup> repo_val) \<Rightarrow> bool" where
  "repo_map_ok m \<longleftrightarrow> (\<forall>k v. m k = Some v \<longrightarrow> repo_typed k v)"

definition repo_ok :: "Thor_StateDB \<Rightarrow> bool" where
  "repo_ok s \<longleftrightarrow>
     sm_ok (sd_repo s) \<and> rmaps s \<noteq> [] \<and>
     list_all repo_map_ok (rmaps s) \<and>
     list_all (list_all (\<lambda>(k, v). repo_typed k v)) (rjournals s) \<and>
     length (rmaps s) \<le> length (dmaps s) \<and>
     (\<forall>n. 0 < n \<longrightarrow> n < length (rmaps s) \<longrightarrow> (rmaps s ! (n - 1)) stateRevKey = Some (RevVal (base s + n - 1)))"

definition db_ok :: "state_deps \<Rightarrow> Thor_StateDB \<Rightarrow> bool" where
  "db_ok D s \<longleftrightarrow> state_ok (sd_state s) \<and> healthy D (s_trie (sd_state s)) \<and> repo_ok s"

lemma db_okD:
  assumes "db_ok D s"
  shows "state_ok (sd_state s)" and "healthy D (s_trie (sd_state s))" and "sm_ok (sd_repo s)" and "rmaps s \<noteq> []"
    and "dmaps s \<noteq> []" and "0 < length (rmaps s)" and "length (rmaps s) \<le> length (dmaps s)" and "0 < base s"
  using assms by (auto simp: db_ok_def repo_ok_def state_ok_def base_def)

lemma nth_put_top: "n < length ms - 1 \<Longrightarrow> put_top key val ms ! n = ms ! n"
  by (simp add: put_top_def nth_append nth_butlast)

lemma list_all_put_top: "list_all P ms \<Longrightarrow> P ((last ms)(key \<mapsto> v)) \<Longrightarrow> list_all P (put_top key v ms)"
  by (auto simp: put_top_def list_all_iff dest: in_set_butlastD)

lemma list_all_last: "list_all P xs \<Longrightarrow> xs \<noteq> [] \<Longrightarrow> P (last xs)"
  by (simp add: list_all_iff)

lemma repo_put_ok:
  assumes "db_ok D s" and "repo_typed key v"
  obtains s' where "repo_put key v s = Some s'" and "sd_state s' = sd_state s" and "rmaps s' = put_top key v (rmaps s)"
    and "rjournals s' = butlast (rjournals s) @ [last (rjournals s) @ [(key, v)]]" and "db_ok D s'"
proof -
  note d = db_okD [OF assms(1)]
  obtain m where m: "Put key v (sd_repo s) = Some m" "sm_ok m" "sm_maps m = put_top key v (rmaps s)"
    "sm_journals m = butlast (rjournals s) @ [last (rjournals s) @ [(key, v)]]"
    using stacked.put [OF d(3,4), of key v] by (auto simp: put_top_def)
  let ?s = "s\<lparr>sd_repo := m\<rparr>"
  have len: "length (rmaps ?s) = length (rmaps s)" using m(3) d(4) by simp
  have ok: "list_all repo_map_ok (rmaps s)"
    "list_all (list_all (\<lambda>(k, v). repo_typed k v)) (rjournals s)"
    "\<And>n. 0 < n \<Longrightarrow> n < length (rmaps s) \<Longrightarrow> (rmaps s ! (n - 1)) stateRevKey = Some (RevVal (base s + n - 1))"
    using assms(1) by (auto simp: db_ok_def repo_ok_def)
  have "repo_map_ok (last (rmaps s))" by (rule list_all_last [OF ok(1) d(4)])
  then have "repo_map_ok ((last (rmaps s))(key \<mapsto> v))" using assms(2) by (auto simp: repo_map_ok_def)
  then have "list_all repo_map_ok (rmaps ?s)" using ok(1) m(3) by (auto intro: list_all_put_top)
  moreover have "rjournals s \<noteq> []"
    using stacked.length_journals [OF d(3)] d(4) by auto
  then have "list_all (list_all (\<lambda>(k, v). repo_typed k v)) (rjournals ?s)"
    using ok(2) assms(2) m(4) by (auto simp: list_all_iff dest: in_set_butlastD)
  moreover have "base ?s = base s" using len by (simp add: base_def)
  moreover have "(rmaps ?s ! (n - 1)) stateRevKey = Some (RevVal (base s + n - 1))" if "0 < n" "n < length (rmaps s)" for n
    using ok(3) [OF that] that m(3) by (simp add: nth_put_top)
  ultimately have "db_ok D ?s" using assms(1) m len d(7) by (simp add: db_ok_def repo_ok_def)
  with m that [of ?s] show thesis by (simp add: repo_put_def)
qed

lemma db_ok_state:
  assumes "db_ok D s" and "state_ok st" and "s_trie st = s_trie (sd_state s)" and "length (smaps st) = length (dmaps s)"
  shows "db_ok D (s\<lparr>sd_state := st\<rparr>)"
  using assms by (simp add: db_ok_def repo_ok_def base_def)

lemma written_length: "written key v st st' \<Longrightarrow> state_ok st \<Longrightarrow> length (smaps st') = length (smaps st)"
  by (simp add: written_def state_ok_def)

lemma db_ok_written:
  assumes "db_ok D s" and "written key v (sd_state s) st"
  shows "db_ok D (s\<lparr>sd_state := st\<rparr>)"
  using assms written_ok [OF assms(2)] written_length [OF assms(2) db_okD(1) [OF assms(1)]] by (intro db_ok_state) auto

lemma StateDB_Snapshot_ok:
  assumes "db_ok D s"
  obtains s' where "StateDB_Snapshot s = Some (length (rmaps s), s')" and "db_ok D s'"
    and "s_trie (sd_state s') = s_trie (sd_state s)" and "dmaps s' = dmaps s @ [last (dmaps s)]"
    and "rmaps s' = put_top stateRevKey (RevVal (length (dmaps s))) (rmaps s) @ [last (put_top stateRevKey (RevVal (length (dmaps s))) (rmaps s))]"
    and "rjournals s' = butlast (rjournals s) @ [last (rjournals s) @ [(stateRevKey, RevVal (length (dmaps s)))], []]"
proof -
  note d = db_okD [OF assms]
  obtain st where st: "State_NewCheckpoint (sd_state s) = (length (dmaps s), st)" "state_ok st"
    "s_trie st = s_trie (sd_state s)" "smaps st = dmaps s @ [last (dmaps s)]"
    by (rule State_NewCheckpoint_ok [OF d(1)])
  obtain s1 where s1: "repo_put stateRevKey (RevVal (length (dmaps s))) s = Some s1" "sd_state s1 = sd_state s"
    "rmaps s1 = put_top stateRevKey (RevVal (length (dmaps s))) (rmaps s)"
    "rjournals s1 = butlast (rjournals s) @ [last (rjournals s) @ [(stateRevKey, RevVal (length (dmaps s)))]]" "db_ok D s1"
    by (rule repo_put_ok [OF assms, of stateRevKey "RevVal (length (dmaps s))"]) simp
  note d1 = db_okD [OF s1(5)]
  obtain m where m: "Push (sd_repo s1) = (length (rmaps s1), m)" "sm_ok m" "sm_maps m = rmaps s1 @ [last (rmaps s1)]"
    "sm_journals m = rjournals s1 @ [[]]"
    using stacked.push [OF d1(3,4)] by auto
  let ?s = "\<lparr>sd_state = st, sd_repo = m\<rparr>"
  have len: "length (rmaps s1) = length (rmaps s)" using s1(3) d(4) by simp
  have put: "repo_put stateRevKey (RevVal (length (dmaps s))) (s\<lparr>sd_state := st\<rparr>) = Some (s1\<lparr>sd_state := st\<rparr>)"
    using s1(1) by (auto simp: repo_put_def)
  have base: "base ?s = base s" using len st(4) m(3) d(7) by (simp add: base_def)
  have "(rmaps ?s ! (n - 1)) stateRevKey = Some (RevVal (base s + n - 1))" if "0 < n" "n < length (rmaps ?s)" for n
  proof (cases "n < length (rmaps s)")
    case True
    have "base s1 = base s" using len s1(2) by (simp add: base_def)
    with True that s1(5) len m(3) show ?thesis by (auto simp: db_ok_def repo_ok_def nth_append)
  next
    case False
    then have n: "n = length (rmaps s)" using that m(3) len by (simp)
    have "rmaps ?s ! (n - 1) = last (rmaps s1)"
      using n m(3) d1(4) len d(6) by (simp add: nth_append last_conv_nth)
    moreover have "length (dmaps s) = base s + n - 1" using n d(7) by (simp add: base_def)
    ultimately show ?thesis using s1(3) by simp
  qed
  then have "repo_ok ?s"
    using s1(5) m base len st(4) d(7) d1(4) list_all_last [OF _ d1(4), of repo_map_ok]
    by (auto simp: db_ok_def repo_ok_def)
  then have "db_ok D ?s" using st d(2) by (simp add: db_ok_def)
  moreover have "StateDB_Snapshot s = Some (length (rmaps s), ?s)"
    using st(1) put m(1) len by (simp add: StateDB_Snapshot_def)
  ultimately show thesis using that [of ?s] st(3,4) m s1(3,4) by simp
qed

lemma StateDB_RevertToSnapshot_ok:
  assumes "db_ok D s" and "0 < n" and "n < length (rmaps s)"
  obtains s' where "StateDB_RevertToSnapshot n s = Some s'" and "db_ok D s'"
    and "s_trie (sd_state s') = s_trie (sd_state s)" and "dmaps s' = take (base s + n - 1) (dmaps s)"
    and "rmaps s' = take n (rmaps s)" and "rjournals s' = take n (rjournals s)"
proof -
  note d = db_okD [OF assms(1)]
  obtain m where m: "PopTo n (sd_repo s) = Some m" "sm_ok m" "sm_maps m = take n (rmaps s)" "sm_journals m = take n (rjournals s)"
    using stacked.popTo [OF d(3), of n] by auto
  obtain st where st: "State_RevertTo (base s + n - 1) (sd_state s) = Some st" "state_ok st"
    "s_trie st = s_trie (sd_state s)" "smaps st = take (base s + n - 1) (dmaps s)"
    by (rule State_RevertTo_ok [OF d(1), of "base s + n - 1"]) (use d(8) assms(2) in simp)
  let ?s = "\<lparr>sd_state = st, sd_repo = m\<rparr>"
  have len: "length (rmaps ?s) = n" using m(3) assms(3) by (simp)
  have ne: "sm_maps m \<noteq> []" using len assms(2) by auto
  have rev: "(rmaps s ! (n - 1)) stateRevKey = Some (RevVal (base s + n - 1))"
    using assms by (simp add: db_ok_def repo_ok_def)
  have "last (sm_maps m) = rmaps s ! (n - 1)" using m(3) assms(2,3) ne by (simp add: last_conv_nth min_absorb2)
  then have get: "repo_get stateRevKey (s\<lparr>sd_repo := m\<rparr>) = Some (Inr (Some (RevVal (base s + n - 1))))"
    using rev by (simp add: repo_get_def Get_maps [OF m(2) ne])
  have lend: "length (dmaps ?s) = base s + n - 1"
    using st(4) assms(3) d(7) by (simp add: base_def min_absorb2)
  then have base: "base ?s = base s" using len d(8) assms(2) by (simp add: base_def [of ?s])
  have "(rmaps ?s ! (i - 1)) stateRevKey = Some (RevVal (base s + i - 1))" if "0 < i" "i < n" for i
    using that assms m(3) by (auto simp: db_ok_def repo_ok_def)
  then have "repo_ok ?s"
    using assms(1) m base len lend ne d(8) assms(2)
    by (auto simp: db_ok_def repo_ok_def list_all_iff dest: in_set_takeD)
  then have "db_ok D ?s" using st d(2) by (simp add: db_ok_def)
  moreover have "StateDB_RevertToSnapshot n s = Some ?s"
    using m(1) get st(1) by (simp add: StateDB_RevertToSnapshot_def)
  ultimately show thesis using that [of ?s] st(3,4) m(3,4) by simp
qed

section \<open>Local changes\<close>

text \<open>A change of the top level only, which all operations but snapshots and reverts make.\<close>

definition local :: "state_deps \<Rightarrow> Thor_StateDB \<Rightarrow> Thor_StateDB \<Rightarrow> bool" where
  "local D s s' \<longleftrightarrow>
     db_ok D s' \<and> s_trie (sd_state s') = s_trie (sd_state s) \<and>
     length (dmaps s') = length (dmaps s) \<and> length (rmaps s') = length (rmaps s) \<and>
     butlast (dmaps s') = butlast (dmaps s) \<and> butlast (rmaps s') = butlast (rmaps s) \<and>
     butlast (rjournals s') = butlast (rjournals s)"

lemma local_refl [simp]: "db_ok D s \<Longrightarrow> local D s s"
  by (simp add: local_def)

lemma local_trans: "local D s s' \<Longrightarrow> local D s' s'' \<Longrightarrow> local D s s''"
  by (simp add: local_def)

lemma local_ok: "local D s s' \<Longrightarrow> db_ok D s'"
  by (simp add: local_def)

lemma written_local:
  assumes "db_ok D s" and "written key v (sd_state s) st"
  shows "local D s (s\<lparr>sd_state := st\<rparr>)"
  using db_ok_written [OF assms] written_length [OF assms(2) db_okD(1) [OF assms(1)]] assms(2)
  by (simp add: local_def written_def)

lemma repo_put_local:
  assumes "db_ok D s" and "repo_typed key v"
  obtains s' where "repo_put key v s = Some s'" and "local D s s'" and "sd_state s' = sd_state s"
    and "rmaps s' = put_top key v (rmaps s)" and "rjournals s' = butlast (rjournals s) @ [last (rjournals s) @ [(key, v)]]"
proof (rule repo_put_ok [OF assms])
  fix s'
  assume s': "repo_put key v s = Some s'" "sd_state s' = sd_state s" "rmaps s' = put_top key v (rmaps s)"
    "rjournals s' = butlast (rjournals s) @ [last (rjournals s) @ [(key, v)]]" "db_ok D s'"
  then have "local D s s'" using db_okD(4) [OF assms(1)] by (simp add: local_def)
  with s' that show thesis by blast
qed

lemma set_state_local:
  assumes "db_ok D s"
  obtains st where "write_account D a f (sd_state s) = Some (st, None)" and "local D s (s\<lparr>sd_state := st\<rparr>)"
    and "written (AccountKey a) (AccountVal (f (account_of D (sd_state s) a))) (sd_state s) st"
  by (rule write_account_of [OF db_okD(1,2) [OF assms], of a f]) (use assms written_local that in blast)

abbreviation acc :: "state_deps \<Rightarrow> Thor_StateDB \<Rightarrow> address \<Rightarrow> Account" where
  "acc D s a \<equiv> account_of D (sd_state s) a"

lemma StateDB_reads:
  assumes "db_ok D s"
  shows "StateDB_GetBalance D a s = Some (Balance (acc D s a))"
    and "StateDB_GetCodeHash D a s = Some (be_word (acc_CodeHash (acc D s a)))"
    and "StateDB_GetCode D a s = Some (code_of D (sd_state s) a)"
    and "StateDB_Exist D a s = Some (\<not> IsEmpty (acc D s a))"
    and "StateDB_Empty D a s = Some (IsEmpty (acc D s a))"
  using db_okD(1,2) [OF assms]
  by (simp_all add: StateDB_GetBalance_def StateDB_GetCodeHash_def StateDB_GetCode_def StateDB_Exist_def StateDB_Empty_def
      State_GetBalance_def State_GetCodeHash_def State_Exists_def read_account_of State_GetCode_of must_def)

lemma StateDB_AddBalance_ok:
  assumes "db_ok D s"
  obtains s' where "StateDB_AddBalance D a v s = Some s'" and "local D s s'" and "sd_repo s' = sd_repo s"
    and "acc D s' = (acc D s)(a := (acc D s a)\<lparr>Balance := Balance (acc D s a) + v\<rparr>)"
    and "code_of D (sd_state s') = code_of D (sd_state s)"
proof (cases "v = 0")
  case True
  with assms that [of s] show thesis by (simp add: StateDB_AddBalance_def)
next
  case False
  obtain st where st: "write_account D a (\<lambda>x. x\<lparr>Balance := Balance (acc D s a) + v\<rparr>) (sd_state s) = Some (st, None)"
    "local D s (s\<lparr>sd_state := st\<rparr>)"
    "written (AccountKey a) (AccountVal ((acc D s a)\<lparr>Balance := Balance (acc D s a) + v\<rparr>)) (sd_state s) st"
    by (rule set_state_local [OF assms])
  have "StateDB_AddBalance D a v s = Some (s\<lparr>sd_state := st\<rparr>)"
    using False st(1) db_okD(1,2) [OF assms]
    by (simp add: StateDB_AddBalance_def State_GetBalance_def State_SetBalance_def read_account_of must_def set_state_def)
  with st that [of "s\<lparr>sd_state := st\<rparr>"] values_written(1,2) [OF st(3), of D] show thesis by (simp add: fun_eq_iff)
qed

lemma StateDB_SubBalance_eq: "StateDB_SubBalance D a v s = StateDB_AddBalance D a (- v) s"
  by (simp add: StateDB_SubBalance_def StateDB_AddBalance_def)

lemma StateDB_SetCode_ok:
  assumes "db_ok D s"
  obtains s' where "StateDB_SetCode D a code s = Some s'" and "local D s s'" and "sd_repo s' = sd_repo s"
    and "acc D s' = (acc D s)(a := (acc D s a)\<lparr>acc_CodeHash := if code \<noteq> [] then Bytes32_of (thor_Keccak256 D code) else []\<rparr>)"
    and "code_of D (sd_state s') = (code_of D (sd_state s))(a := code)"
proof -
  obtain st1 st where st: "State_SetCode D a code (sd_state s) = Some (st, None)"
    and w1: "written (CodeKey a) (CodeVal code) (sd_state s) st1"
    and w2: "written (AccountKey a) (AccountVal ((acc D s a)
      \<lparr>acc_CodeHash := if code \<noteq> [] then Bytes32_of (thor_Keccak256 D code) else []\<rparr>)) st1 st"
    by (rule State_SetCode_of [OF db_okD(1,2) [OF assms]])
  have "local D s (s\<lparr>sd_state := st1\<rparr>)" by (rule written_local [OF assms w1])
  moreover from this have "local D (s\<lparr>sd_state := st1\<rparr>) (s\<lparr>sd_state := st\<rparr>)"
    using written_local [OF local_ok, of D s "s\<lparr>sd_state := st1\<rparr>" _ _ st] w2 by simp
  ultimately have "local D s (s\<lparr>sd_state := st\<rparr>)" by (rule local_trans)
  with st that [of "s\<lparr>sd_state := st\<rparr>"] values_written(1,2) [OF w1, of D] values_written(1,2) [OF w2, of D]
  show thesis by (simp add: StateDB_SetCode_def set_state_def fun_eq_iff)
qed

lemma StateDB_SetState_ok:
  assumes "db_ok D s"
  obtains s' where "StateDB_SetState D a k v s = Some s'" and "local D s s'" and "sd_repo s' = sd_repo s"
    and "acc D s' = acc D s" and "code_of D (sd_state s') = code_of D (sd_state s)"
proof -
  let ?raw = "if v = 0 then [] else rlp_EncodeBytes D (trim_left (Bytes32_of v))"
  obtain st where st: "State_SetRawStorage D a k ?raw (sd_state s) = Some st"
    and w: "written (StorageKey a (barrier_of (sd_state s) a) k) (RawVal ?raw) (sd_state s) st"
    by (rule State_SetRawStorage_of [OF db_okD(1) [OF assms]])
  have "State_SetStorage D a k v (sd_state s) = Some st" using st by (simp add: State_SetStorage_def split: if_splits)
  with that [of "s\<lparr>sd_state := st\<rparr>"] written_local [OF assms w] values_written(1,2) [OF w, of D] show thesis
    by (simp add: StateDB_SetState_def fun_eq_iff)
qed

lemma repo_get_typed:
  assumes "db_ok D s"
  shows "\<exists>n. repo_get refundKey s = Some (Inr (Some (RefundVal n)))"
    and "\<exists>b. repo_get (suicideFlagKey a) s = Some (Inr (Some (FlagVal b)))"
proof -
  have "repo_map_ok (last (rmaps s))"
    by (rule list_all_last [OF _ db_okD(4) [OF assms]]) (use assms in \<open>simp add: db_ok_def repo_ok_def\<close>)
  then have typed: "repo_typed k v" if "last (rmaps s) k = Some v" for k v using that by (simp add: repo_map_ok_def)
  have get: "repo_get k s = (case last (rmaps s) k of Some v \<Rightarrow> Some (Inr (Some v)) | None \<Rightarrow> repo_getter k)" for k
    by (simp add: repo_get_def Get_maps [OF db_okD(3,4) [OF assms]])
  have "\<exists>n. v = RefundVal n" if "repo_typed refundKey v" for v using that by (cases v) simp_all
  with typed show "\<exists>n. repo_get refundKey s = Some (Inr (Some (RefundVal n)))"
    by (auto simp: get repo_getter_def split: option.split)
  have "\<exists>b. v = FlagVal b" if "repo_typed (suicideFlagKey a) v" for v using that by (cases v) simp_all
  with typed show "\<exists>b. repo_get (suicideFlagKey a) s = Some (Inr (Some (FlagVal b)))"
    by (auto simp: get repo_getter_def split: option.split)
qed

lemma StateDB_AddRefund_ok:
  assumes "db_ok D s"
  obtains s' where "StateDB_AddRefund g s = Some s'" and "local D s s'" and "sd_state s' = sd_state s"
proof -
  obtain n where n: "repo_get refundKey s = Some (Inr (Some (RefundVal n)))" using repo_get_typed(1) [OF assms] by blast
  obtain s' where "repo_put refundKey (RefundVal (n + g)) s = Some s'" "local D s s'" "sd_state s' = sd_state s"
    by (rule repo_put_local [OF assms, of refundKey "RefundVal (n + g)"]) simp
  with n that show thesis by (simp add: StateDB_AddRefund_def)
qed

lemma StateDB_Suicide_ok:
  assumes "db_ok D s"
  obtains s' where "StateDB_Suicide D a s = Some (\<not> IsEmpty (acc D s a), s')" and "local D s s'"
    and "acc D s' = (acc D s)(a := if IsEmpty (acc D s a) then acc D s a else emptyAccount)"
    and "code_of D (sd_state s') = (code_of D (sd_state s))(a := if IsEmpty (acc D s a) then code_of D (sd_state s) a else [])"
proof (cases "IsEmpty (acc D s a)")
  case True
  with that [of s] assms db_okD(1,2) [OF assms] show thesis
    by (simp add: StateDB_Suicide_def State_Exists_def read_account_of must_def)
next
  case False
  obtain st1 st2 st where del: "State_Delete D a (sd_state s) = Some st"
    and w1: "written (CodeKey a) (CodeVal []) (sd_state s) st1" and w2: "written (AccountKey a) (AccountVal emptyAccount) st1 st2"
    and w3: "written (BarrierKey a) (BarrierVal (barrier_of (sd_state s) a + 1)) st2 st"
    by (rule State_Delete_of [OF db_okD(1) [OF assms]])
  have l1: "local D s (s\<lparr>sd_state := st1\<rparr>)" by (rule written_local [OF assms w1])
  have l2: "local D (s\<lparr>sd_state := st1\<rparr>) (s\<lparr>sd_state := st2\<rparr>)"
    using written_local [OF local_ok [OF l1]] w2 by simp
  have l3: "local D (s\<lparr>sd_state := st2\<rparr>) (s\<lparr>sd_state := st\<rparr>)"
    using written_local [OF local_ok [OF l2]] w3 by simp
  note l = local_trans [OF local_trans [OF l1 l2] l3]
  obtain s' where s': "repo_put (suicideFlagKey a) (FlagVal True) (s\<lparr>sd_state := st\<rparr>) = Some s'"
    "local D (s\<lparr>sd_state := st\<rparr>) s'" "sd_state s' = st"
    by (rule repo_put_local [OF local_ok [OF l], of "suicideFlagKey a" "FlagVal True"]) simp_all
  have "StateDB_Suicide D a s = Some (True, s')"
    using False del s'(1) db_okD(1,2) [OF assms] by (simp add: StateDB_Suicide_def State_Exists_def read_account_of must_def)
  with False that [of s'] s' local_trans [OF l s'(2)]
    values_written(1,2) [OF w1, of D] values_written(1,2) [OF w2, of D] values_written(1,2) [OF w3, of D]
  show thesis by (simp add: fun_eq_iff)
qed

section \<open>Logs\<close>

definition events_of :: "(repo_key \<times> repo_val) list \<Rightarrow> event list" where
  "events_of es = List.map_filter (\<lambda>e. case e of (eventKey, EventVal l) \<Rightarrow> Some (ethlogToEvent l) | _ \<Rightarrow> None) es"

definition transfers_of :: "(repo_key \<times> repo_val) list \<Rightarrow> transfer_log list" where
  "transfers_of es = List.map_filter (\<lambda>e. case e of (transferKey, TransferVal t) \<Rightarrow> Some t | _ \<Rightarrow> None) es"

lemma logs_simps [simp]:
  "events_of [] = []" "transfers_of [] = []"
  "events_of (xs @ ys) = events_of xs @ events_of ys" "transfers_of (xs @ ys) = transfers_of xs @ transfers_of ys"
  by (simp_all add: events_of_def transfers_of_def map_filter_def)

lemma repo_typed_cases:
  "repo_typed eventKey v \<longleftrightarrow> (\<exists>l. v = EventVal l)" "repo_typed transferKey v \<longleftrightarrow> (\<exists>t. v = TransferVal t)"
  "repo_typed stateRevKey v \<longleftrightarrow> (\<exists>n. v = RevVal n)"
  by (cases v; simp)+

lemma journal_level_logs:
  "list_all (\<lambda>(k, v). repo_typed k v) es \<Longrightarrow>
     journal_level collect_log es (Some (ev, tr)) = (Some (ev @ events_of es, tr @ transfers_of es), True)"
proof (induction es arbitrary: ev tr)
  case Nil
  show ?case by simp
next
  case (Cons e es)
  obtain k v where e: "e = (k, v)" by force
  show ?case
  proof (cases k)
    case eventKey
    with Cons.prems e obtain l where "v = EventVal l" by (auto simp: repo_typed_cases)
    with Cons e eventKey show ?thesis by (simp add: collect_log_def events_of_def transfers_of_def map_filter_def)
  next
    case transferKey
    with Cons.prems e obtain t where "v = TransferVal t" by (auto simp: repo_typed_cases)
    with Cons e transferKey show ?thesis by (simp add: collect_log_def events_of_def transfers_of_def map_filter_def)
  qed (use Cons e in \<open>simp_all add: collect_log_def events_of_def transfers_of_def map_filter_def\<close>)
qed

lemma journal_levels_logs:
  "list_all (list_all (\<lambda>(k, v). repo_typed k v)) (map journal ls) \<Longrightarrow>
     journal_levels collect_log ls (Some (ev, tr)) =
       (Some (ev @ events_of (concat (map journal ls)), tr @ transfers_of (concat (map journal ls))), True)"
  by (induction ls arbitrary: ev tr) (simp_all add: journal_level_logs)

lemma GetLogs_of:
  assumes "db_ok D s"
  shows "StateDB_GetLogs s = Some (events_of (concat (rjournals s)), transfers_of (concat (rjournals s)))"
  using assms journal_levels_logs [of "mapStack (sd_repo s)" "[]" "[]"]
  by (simp add: StateDB_GetLogs_def Journal_def db_ok_def repo_ok_def sm_journals_def)

section \<open>Snapshots and reverts\<close>

text \<open>What a revert to the snapshot \<open>r\<close> gives back.\<close>

definition below_db ::
    "nat \<Rightarrow> Thor_StateDB \<Rightarrow> trie_root \<times> nat \<times> (state_key \<rightharpoonup> state_val) list \<times> (repo_key \<rightharpoonup> repo_val) list \<times>
     (repo_key \<times> repo_val) list list" where
  "below_db r s = (s_trie (sd_state s), base s, take (base s + r - 1) (dmaps s), take r (rmaps s), take r (rjournals s))"

lemma take_eq_butlast: "butlast xs = butlast ys \<Longrightarrow> n < length xs \<Longrightarrow> n < length ys \<Longrightarrow> take n xs = take n ys"
  by (metis take_butlast)

lemma local_below:
  assumes "db_ok D s" and "local D s s'" and "r < length (rmaps s)"
  shows "below_db r s' = below_db r s"
proof -
  have len: "length (rjournals s) = length (rmaps s)" "length (rjournals s') = length (rmaps s')"
    using stacked.length_journals db_okD(3) [OF assms(1)] db_okD(3) [OF local_ok [OF assms(2)]] by blast+
  have base: "base s' = base s" using assms(2) by (simp add: local_def base_def)
  have "base s + r - 1 < length (dmaps s)" using assms(3) db_okD(7) [OF assms(1)] by (simp add: base_def)
  with assms len base show ?thesis by (auto simp: below_db_def local_def intro!: take_eq_butlast)
qed

lemma snapshot_below:
  assumes "db_ok D s" and "StateDB_Snapshot s = Some (n, s')" and "r < length (rmaps s)"
  shows "below_db r s' = below_db r s"
proof (rule StateDB_Snapshot_ok [OF assms(1)])
  fix s1
  assume "StateDB_Snapshot s = Some (length (rmaps s), s1)" and ok: "db_ok D s1"
    and s1: "s_trie (sd_state s1) = s_trie (sd_state s)" "dmaps s1 = dmaps s @ [last (dmaps s)]"
    "rmaps s1 = put_top stateRevKey (RevVal (length (dmaps s))) (rmaps s) @ [last (put_top stateRevKey (RevVal (length (dmaps s))) (rmaps s))]"
    "rjournals s1 = butlast (rjournals s) @ [last (rjournals s) @ [(stateRevKey, RevVal (length (dmaps s)))], []]"
  with assms(2) have [simp]: "s' = s1" by simp
  note d = db_okD [OF assms(1)]
  have len: "length (rjournals s) = length (rmaps s)" using stacked.length_journals [OF d(3)] .
  have "base s' = base s" using s1 d(4,7) by (simp add: base_def)
  moreover have "base s + r - 1 \<le> length (dmaps s)" using assms(3) d(7) by (simp add: base_def)
  ultimately show ?thesis using s1 assms(3) len d(4) by (simp add: below_db_def take_butlast)
qed

lemma revert_below:
  assumes "db_ok D s" and "StateDB_RevertToSnapshot n s = Some s'" and "r < n" and "n < length (rmaps s)"
  shows "below_db r s' = below_db r s"
proof (rule StateDB_RevertToSnapshot_ok [OF assms(1) _ assms(4)])
  show "0 < n" using assms(3) by simp
  fix s1
  assume s: "StateDB_RevertToSnapshot n s = Some s1" "s_trie (sd_state s1) = s_trie (sd_state s)"
    "dmaps s1 = take (base s + n - 1) (dmaps s)" "rmaps s1 = take n (rmaps s)" "rjournals s1 = take n (rjournals s)"
  note d = db_okD [OF assms(1)]
  have "base s + n - 1 < length (dmaps s)" using assms(4) d(7) by (simp add: base_def)
  then have "base s1 = base s" using s assms(3,4) d(8) by (simp add: base_def [of s1])
  with s assms(2,3) show ?thesis by (simp add: below_db_def min_def)
qed

text \<open>Sequences of the operations that change the adapter or the state below it.\<close>

datatype db_command =
    Sub_Balance address int
  | Add_Balance address int
  | Set_Code address bytes
  | Do_Suicide address
  | Set_State address hash hash
  | Add_Refund u64
  | Add_Preimage hash bytes
  | Add_Log Log
  | Add_Transfer transfer_log
  | Set_Energy address int u64
  | Set_Master address address
  | Take_Snapshot
  | Revert_To nat

primrec db_exec :: "state_deps \<Rightarrow> db_command \<Rightarrow> Thor_StateDB \<Rightarrow> Thor_StateDB option" where
  "db_exec D (Sub_Balance a v) s = StateDB_SubBalance D a v s"
| "db_exec D (Add_Balance a v) s = StateDB_AddBalance D a v s"
| "db_exec D (Set_Code a c) s = StateDB_SetCode D a c s"
| "db_exec D (Do_Suicide a) s = map_option snd (StateDB_Suicide D a s)"
| "db_exec D (Set_State a k v) s = StateDB_SetState D a k v s"
| "db_exec D (Add_Refund g) s = StateDB_AddRefund g s"
| "db_exec D (Add_Preimage h p) s = StateDB_AddPreimage h p s"
| "db_exec D (Add_Log l) s = StateDB_AddLog l s"
| "db_exec D (Add_Transfer t) s = StateDB_AddTransfer t s"
| "db_exec D (Set_Energy a e t) s = set_state s (State_SetEnergy D a e t (sd_state s))"
| "db_exec D (Set_Master a b) s = set_state s (State_SetMaster D a b (sd_state s))"
| "db_exec D Take_Snapshot s = map_option snd (StateDB_Snapshot s)"
| "db_exec D (Revert_To n) s = StateDB_RevertToSnapshot n s"

text \<open>
  A sequence as the virtual machine makes it: a revert goes to a snapshot that exists and is newer
  than \<open>r\<close>.
\<close>

fun db_run :: "state_deps \<Rightarrow> nat \<Rightarrow> db_command list \<Rightarrow> Thor_StateDB \<Rightarrow> Thor_StateDB option" where
  "db_run D r [] s = Some s"
| "db_run D r (c # cs) s =
     (case c of
        Revert_To n \<Rightarrow>
          if r < n \<and> n < length (rmaps s) then do { s \<leftarrow> db_exec D c s; db_run D r cs s } else db_run D r cs s
      | _ \<Rightarrow> do { s \<leftarrow> db_exec D c s; db_run D r cs s })"

lemma db_exec_local:
  assumes "db_ok D s" and "c \<noteq> Take_Snapshot" and "\<And>n. c \<noteq> Revert_To n"
  obtains s' where "db_exec D c s = Some s'" and "local D s s'"
proof (cases c)
  case (Sub_Balance a v)
  show thesis by (rule StateDB_AddBalance_ok [OF assms(1), of a "- v"]) (use Sub_Balance that in \<open>simp add: StateDB_SubBalance_eq\<close>)
next
  case (Add_Balance a v)
  show thesis by (rule StateDB_AddBalance_ok [OF assms(1), of a v]) (use Add_Balance that in simp)
next
  case (Set_Code a bs)
  show thesis by (rule StateDB_SetCode_ok [OF assms(1), of a bs]) (use Set_Code that in simp)
next
  case (Do_Suicide a)
  show thesis by (rule StateDB_Suicide_ok [OF assms(1), of a]) (use Do_Suicide that in simp)
next
  case (Set_State a k v)
  show thesis by (rule StateDB_SetState_ok [OF assms(1), of a k v]) (use Set_State that in simp)
next
  case (Add_Refund g)
  show thesis by (rule StateDB_AddRefund_ok [OF assms(1), of g]) (use Add_Refund that in simp)
next
  case (Add_Preimage h p)
  show thesis by (rule repo_put_local [OF assms(1), of "preimageKey h" "PreimageVal p"])
      (use Add_Preimage that in \<open>simp_all add: StateDB_AddPreimage_def\<close>)
next
  case (Add_Log l)
  show thesis by (rule repo_put_local [OF assms(1), of eventKey "EventVal l"])
      (use Add_Log that in \<open>simp_all add: StateDB_AddLog_def\<close>)
next
  case (Add_Transfer t)
  show thesis by (rule repo_put_local [OF assms(1), of transferKey "TransferVal t"])
      (use Add_Transfer that in \<open>simp_all add: StateDB_AddTransfer_def\<close>)
next
  case (Set_Energy a e t)
  show thesis by (rule set_state_local [OF assms(1), of a "\<lambda>x. x\<lparr>Energy := e, BlockTime := t\<rparr>"])
      (use Set_Energy that in \<open>simp add: State_SetEnergy_def set_state_def\<close>)
next
  case (Set_Master a b)
  show thesis by (rule set_state_local [OF assms(1), of a "\<lambda>x. x\<lparr>Master := if b = 0 then [] else Address_bytes b\<rparr>"])
      (use Set_Master that in \<open>simp add: State_SetMaster_def set_state_def\<close>)
qed (use assms in simp_all)

lemma db_run_below:
  assumes "db_ok D s" and "r < length (rmaps s)"
  shows "\<exists>s'. db_run D r cs s = Some s' \<and> db_ok D s' \<and> r < length (rmaps s') \<and> below_db r s' = below_db r s"
  using assms
proof (induction cs arbitrary: s)
  case Nil
  then show ?case by simp
next
  case (Cons c cs)
  consider (snap) "c = Take_Snapshot" | (revert) n where "c = Revert_To n" | (local) "c \<noteq> Take_Snapshot" "\<And>n. c \<noteq> Revert_To n"
    by blast
  then show ?case
  proof cases
    case snap
    obtain s1 where s1: "StateDB_Snapshot s = Some (length (rmaps s), s1)" "db_ok D s1" "r < length (rmaps s1)"
      by (rule StateDB_Snapshot_ok [OF Cons.prems(1)]) (use Cons.prems db_okD(4) [OF Cons.prems(1)] in auto)
    from Cons.IH [OF s1(2,3)] s1 snap snapshot_below [OF Cons.prems(1) s1(1) Cons.prems(2)] show ?thesis by auto
  next
    case (revert n)
    show ?thesis
    proof (cases "r < n \<and> n < length (rmaps s)")
      case True
      obtain s1 where s1: "StateDB_RevertToSnapshot n s = Some s1" "db_ok D s1" "r < length (rmaps s1)"
        by (rule StateDB_RevertToSnapshot_ok [OF Cons.prems(1), of n]) (use True in auto)
      from Cons.IH [OF s1(2,3)] s1 revert True revert_below [OF Cons.prems(1) s1(1)] show ?thesis by auto
    next
      case False
      then have "db_run D r (c # cs) s = db_run D r cs s" by (auto simp: revert simp del: db_exec.simps)
      with Cons show ?thesis by simp
    qed
  next
    case local
    obtain s1 where s1: "db_exec D c s = Some s1" "local D s s1" by (rule db_exec_local [OF Cons.prems(1) local])
    have "r < length (rmaps s1)" using s1(2) Cons.prems(2) by (simp add: local_def)
    from Cons.IH [OF local_ok [OF s1(2)] this] s1 local local_below [OF Cons.prems(1) s1(2) Cons.prems(2)]
    show ?thesis by (cases c) auto
  qed
qed

text \<open>Two adapters that no reader can tell apart.\<close>

definition same_contents :: "state_deps \<Rightarrow> Thor_StateDB \<Rightarrow> Thor_StateDB \<Rightarrow> bool" where
  "same_contents D s s' \<longleftrightarrow>
     (\<forall>a. StateDB_GetBalance D a s' = StateDB_GetBalance D a s \<and> StateDB_GetCode D a s' = StateDB_GetCode D a s \<and>
        StateDB_GetCodeHash D a s' = StateDB_GetCodeHash D a s \<and> StateDB_Exist D a s' = StateDB_Exist D a s \<and>
        StateDB_HasSuicided a s' = StateDB_HasSuicided a s \<and>
        (\<forall>k. StateDB_GetState D a k s' = StateDB_GetState D a k s) \<and>
        (\<forall>t. State_GetEnergy D a t (sd_state s') = State_GetEnergy D a t (sd_state s)) \<and>
        State_GetMaster D a (sd_state s') = State_GetMaster D a (sd_state s)) \<and>
     StateDB_GetRefund s' = StateDB_GetRefund s \<and> StateDB_GetLogs s' = StateDB_GetLogs s"

lemma same_contentsI:
  assumes "db_ok D s" and "db_ok D s'" and "s_trie (sd_state s') = s_trie (sd_state s)" and "last (dmaps s') = last (dmaps s)"
    and "\<And>k. k = refundKey \<or> (\<exists>a. k = suicideFlagKey a) \<Longrightarrow> last (rmaps s') k = last (rmaps s) k"
    and "events_of (concat (rjournals s')) = events_of (concat (rjournals s))"
    and "transfers_of (concat (rjournals s')) = transfers_of (concat (rjournals s))"
  shows "same_contents D s s'"
proof -
  have cur: "cur D (sd_state s') = cur D (sd_state s)" by (simp add: cur_def fun_eq_iff assms(3,4) split: option.split)
  have acc: "acc D s' = acc D s" "code_of D (sd_state s') = code_of D (sd_state s)"
    using cur by (simp_all add: account_of_def code_of_def fun_eq_iff)
  have raw: "raw_of D (sd_state s') a k = raw_of D (sd_state s) a k" for a k
    using cur assms(4) by (simp add: raw_of_def barrier_of_def)
  have repo: "repo_get k s' = repo_get k s" if "k = refundKey \<or> (\<exists>a. k = suicideFlagKey a)" for k
    using assms(5) [OF that] by (simp add: repo_get_def Get_maps [OF db_okD(3,4) [OF assms(1)]] Get_maps [OF db_okD(3,4) [OF assms(2)]])
  show ?thesis
    using db_okD(1,2) [OF assms(1)] db_okD(1,2) [OF assms(2)] assms(6,7)
    by (simp add: same_contents_def StateDB_reads [OF assms(1)] StateDB_reads [OF assms(2)] GetLogs_of [OF assms(1)] GetLogs_of [OF assms(2)]
        acc StateDB_HasSuicided_def StateDB_GetRefund_def repo StateDB_GetState_def State_GetStorage_def State_GetRawStorage_of raw
        State_GetEnergy_def State_GetMaster_def read_account_of)
qed

lemma revert_same_contents:
  assumes "db_ok D s" and "StateDB_Snapshot s = Some (r, s1)" and "db_ok D s2" and "r < length (rmaps s2)"
    and "below_db r s2 = below_db r s1"
  obtains s3 where "StateDB_RevertToSnapshot r s2 = Some s3" and "db_ok D s3" and "same_contents D s s3"
    and "length (rmaps s3) = r" and "dmaps s3 = dmaps s" and "s_trie (sd_state s3) = s_trie (sd_state s)"
proof -
  note d = db_okD [OF assms(1)]
  obtain s1' where s1': "StateDB_Snapshot s = Some (length (rmaps s), s1')" "db_ok D s1'"
    "s_trie (sd_state s1') = s_trie (sd_state s)" "dmaps s1' = dmaps s @ [last (dmaps s)]"
    "rmaps s1' = put_top stateRevKey (RevVal (length (dmaps s))) (rmaps s) @ [last (put_top stateRevKey (RevVal (length (dmaps s))) (rmaps s))]"
    "rjournals s1' = butlast (rjournals s) @ [last (rjournals s) @ [(stateRevKey, RevVal (length (dmaps s)))], []]"
    by (rule StateDB_Snapshot_ok [OF assms(1)])
  have r: "r = length (rmaps s)" and [simp]: "s1' = s1" using assms(2) s1'(1) by simp_all
  note s1 = s1'(2-6) [unfolded \<open>s1' = s1\<close>]
  have len: "length (rjournals s) = length (rmaps s)" using stacked.length_journals [OF d(3)] .
  have jne: "rjournals s \<noteq> []" using len d(4) by auto
  have base: "base s1 = base s" using s1(3,4) d(4,7) by (simp add: base_def)
  obtain s3 where s3: "StateDB_RevertToSnapshot r s2 = Some s3" "db_ok D s3" "s_trie (sd_state s3) = s_trie (sd_state s2)"
    "dmaps s3 = take (base s2 + r - 1) (dmaps s2)" "rmaps s3 = take r (rmaps s2)" "rjournals s3 = take r (rjournals s2)"
    by (rule StateDB_RevertToSnapshot_ok [OF assms(3) _ assms(4)]) (use r d(6) in simp)
  have n: "base s + r - 1 = length (dmaps s)" using r d(7) by (simp add: base_def)
  have "dmaps s3 = take (base s1 + r - 1) (dmaps s1)" using s3(4) assms(5) unfolding below_db_def prod.inject by argo
  then have dm: "dmaps s3 = dmaps s" by (simp only: base n s1(3)) simp
  have rm: "rmaps s3 = put_top stateRevKey (RevVal (length (dmaps s))) (rmaps s)"
    using s3(5) assms(5) s1(4) r d(4) by (simp add: below_db_def)
  have jm: "rjournals s3 = butlast (rjournals s) @ [last (rjournals s) @ [(stateRevKey, RevVal (length (dmaps s)))]]"
    using s3(6) assms(5) s1(5) r d(6) len by (simp add: below_db_def)
  have j: "concat (rjournals s3) = concat (rjournals s) @ [(stateRevKey, RevVal (length (dmaps s)))]"
    unfolding jm by (subst (3) append_butlast_last_id [OF jne, symmetric]) simp
  have "same_contents D s s3"
    using assms(1) s3(2,3) assms(5) s1(2) dm rm j
    by (intro same_contentsI) (simp_all add: below_db_def, auto simp: events_of_def transfers_of_def map_filter_def)
  moreover have "length (rmaps s3) = r" using rm r d(4) by simp
  moreover have "s_trie (sd_state s3) = s_trie (sd_state s)" using s3(3) assms(5) s1(2) by (simp add: below_db_def)
  ultimately show thesis using that s3 dm by blast
qed

section \<open>Properties of the adapter\<close>

lemma NewStateDB_ok:
  assumes "state_ok st" and "healthy D (s_trie st)"
  shows "db_ok D (NewStateDB st)"
proof -
  have "length (smaps st) \<noteq> 0" using assms(1) by (simp add: state_ok_def)
  then have "1 \<le> length (smaps st)" by linarith
  then show ?thesis
    using assms by (simp add: db_ok_def repo_ok_def NewStateDB_def NewStackedMap_ok repo_map_ok_def sm_journals_def, simp add: NewStackedMap_def newLevel_def)
qed

text \<open>
  C10: \<open>Snapshot\<close> and \<open>RevertToSnapshot\<close> of the adapter undo everything in between.  After a snapshot, any
  sequence of balance, energy, master, code and storage writes, suicides, refunds, preimages, logs
  and transfers, with further snapshots and with reverts to them, succeeds without a panic; the
  revert to the first snapshot then succeeds too, and gives back every balance, energy, master, code,
  code hash, storage slot and suicide flag, the refund, and the lists of logs and transfers in order.
\<close>
theorem snapshot_revert_restores:
  assumes "db_ok D s" and "StateDB_Snapshot s = Some (r, s1)"
  shows "\<exists>s2 s3. db_run D r cs s1 = Some s2 \<and> StateDB_RevertToSnapshot r s2 = Some s3 \<and> db_ok D s3 \<and> same_contents D s s3"
proof -
  obtain s1' where s1: "StateDB_Snapshot s = Some (length (rmaps s), s1')" "db_ok D s1'" "length (rmaps s) < length (rmaps s1')"
    by (rule StateDB_Snapshot_ok [OF assms(1)]) (use db_okD(4) [OF assms(1)] in auto)
  then have [simp]: "s1' = s1" and r: "r = length (rmaps s)" using assms(2) by simp_all
  obtain s2 where s2: "db_run D r cs s1 = Some s2" "db_ok D s2" "r < length (rmaps s2)" "below_db r s2 = below_db r s1"
    using db_run_below [of D s1 r cs] s1 r by auto
  show ?thesis by (rule revert_same_contents [OF assms(1,2) s2(2-4)]) (use s2(1) in auto)
qed

theorem snapshot_revert_restores_witness:
  "\<exists>s1 s2 s3. StateDB_Snapshot (NewStateDB (NewState demo_root)) = Some (1, s1) \<and>
     db_run demo_db 1 [Add_Balance 7 100, Take_Snapshot, Set_State 7 1 2, Revert_To 2, Do_Suicide 7] s1 = Some s2 \<and>
     StateDB_RevertToSnapshot 1 s2 = Some s3 \<and> same_contents demo_db (NewStateDB (NewState demo_root)) s3"
proof -
  let ?s = "NewStateDB (NewState demo_root)"
  have ok: "db_ok demo_db ?s" by (rule NewStateDB_ok) (simp_all add: NewState_ok demo_db_ok)
  have "length (rmaps ?s) = 1" by (simp add: NewStateDB_def NewStackedMap_ok)
  then obtain s1 where s1: "StateDB_Snapshot ?s = Some (1, s1)"
    by (metis StateDB_Snapshot_ok [OF ok])
  from snapshot_revert_restores [OF ok s1, of "[Add_Balance 7 100, Take_Snapshot, Set_State 7 1 2, Revert_To 2, Do_Suicide 7]"] s1
  show ?thesis by blast
qed

text \<open>
  The cache of code sizes.  Its entries are the sizes of codes with their hashes; \<open>codes_match\<close> says
  that the hash identifies the code (no two stored codes have the same hash) and that an account
  without a code hash has no code.
\<close>

definition codes_match :: "state_deps \<Rightarrow> (hash \<Rightarrow> bytes) \<Rightarrow> Thor_StateDB \<Rightarrow> bool" where
  "codes_match D preimage s \<longleftrightarrow>
     (\<forall>a. code_of D (sd_state s) a =
        (if be_word (acc_CodeHash (acc D s a)) = (0 :: hash) then [] else preimage (be_word (acc_CodeHash (acc D s a)))))"

definition sizes_ok :: "(hash \<Rightarrow> bytes) \<Rightarrow> (hash \<rightharpoonup> int) \<Rightarrow> bool" where
  "sizes_ok preimage codeSizeCache \<longleftrightarrow> (\<forall>h n. codeSizeCache h = Some n \<longrightarrow> n = int (length (preimage h)))"

lemma GetCodeSize_cached:
  assumes "db_ok D s" and "codes_match D preimage s" and "sizes_ok preimage cache"
  obtains cache' where "StateDB_GetCodeSize D cache a s = Some (int (length (code_of D (sd_state s) a)), cache')"
    and "sizes_ok preimage cache'"
proof -
  let ?h = "be_word (acc_CodeHash (acc D s a)) :: hash"
  have reads: "must (State_GetCodeHash D a (sd_state s)) = Some ?h" "must (State_GetCode D a (sd_state s)) = Some (code_of D (sd_state s) a)"
    using StateDB_reads(2,3) [OF assms(1)] by (simp_all add: StateDB_GetCodeHash_def StateDB_GetCode_def)
  have code: "code_of D (sd_state s) a = (if ?h = 0 then [] else preimage ?h)" using assms(2) by (simp add: codes_match_def)
  show thesis
  proof (cases "?h = 0")
    case True
    with that [of cache] reads code assms(3) show thesis by (simp add: StateDB_GetCodeSize_def)
  next
    case False
    show thesis
    proof (cases "cache ?h")
      case None
      with False that [of "cache(?h \<mapsto> int (length (code_of D (sd_state s) a)))"] reads code assms(3) show thesis
        by (simp add: StateDB_GetCodeSize_def sizes_ok_def Let_def)
    next
      case (Some n)
      with False that [of cache] reads code assms(3) show thesis by (simp add: StateDB_GetCodeSize_def sizes_ok_def)
    qed
  qed
qed

end
