(* ===== verification/VmGas.thy ===== *)
theory VmGas
  imports VmEvm
begin

text \<open>
  Gas: the step costs and the 63/64 rule of src/vm/gas.go, and the gas functions of
  src/vm/gas_table.go.  A gas function takes the environment, the memory size that the operation
  asks for and the variables of the run, and returns the variables (a gas function updates
  \<open>lastGasCost\<close>, \<open>callGasTemp\<close> or the refund counter), the cost and an error; \<open>None\<close> is a panic.
\<close>

section \<open>Step costs and call gas\<close>

abbreviation (input) GasQuickStep :: u64 where "GasQuickStep \<equiv> 2"
abbreviation (input) GasFastestStep :: u64 where "GasFastestStep \<equiv> 3"
abbreviation (input) GasFastStep :: u64 where "GasFastStep \<equiv> 5"
abbreviation (input) GasMidStep :: u64 where "GasMidStep \<equiv> 8"
abbreviation (input) GasSlowStep :: u64 where "GasSlowStep \<equiv> 10"
abbreviation (input) GasExtStep :: u64 where "GasExtStep \<equiv> 20"
abbreviation (input) GasReturn :: u64 where "GasReturn \<equiv> 0"
abbreviation (input) GasStop :: u64 where "GasStop \<equiv> 0"
abbreviation (input) GasContractByte :: u64 where "GasContractByte \<equiv> 200"

text \<open>The subtraction \<open>availableGas - base\<close> wraps around, as in the source.\<close>

definition callGas :: "GasTable \<Rightarrow> u64 \<Rightarrow> u64 \<Rightarrow> u256 \<Rightarrow> u64 \<times> error option" where
  "callGas gt availableGas base callCost =
     (let available = availableGas - base; gas = available - available div 64
      in if gt_CreateBySuicide gt > 0 \<and> (\<not> IsUint64 callCost \<or> gas < Uint64 callCost)
         then (gas, None)
         else if \<not> IsUint64 callCost then (0, Some errGasUintOverflow)
         else (Uint64 callCost, None))"

section \<open>Memory expansion\<close>

definition memoryGasCost :: "deps \<Rightarrow> Memory \<Rightarrow> u64 \<Rightarrow> Memory \<times> u64 \<times> error option" where
  "memoryGasCost d mem newMemSize =
     (if newMemSize = 0 then (mem, 0, None)
      else if newMemSize > 0xffffffffe0 then (mem, 0, Some errGasUintOverflow)
      else
        let newMemSizeWords = toWordSize newMemSize; newMemSize = newMemSizeWords * 32
        in if unat newMemSize > Len mem then
             let square = newMemSizeWords * newMemSizeWords;
                 linCoef = newMemSizeWords * MemoryGas d;
                 quadCoef = square div QuadCoeffDiv d;
                 newTotalFee = linCoef + quadCoef;
                 fee = newTotalFee - lastGasCost mem
             in (mem\<lparr>lastGasCost := newTotalFee\<rparr>, fee, None)
           else (mem, 0, None))"

type_synonym ('s, 't) gas_result = "(('s, 't) M \<times> u64 \<times> error option) option"
type_synonym ('s, 't) gasFunc = "('s, 't) Env \<Rightarrow> u64 \<Rightarrow> ('s, 't) M \<Rightarrow> ('s, 't) gas_result"

text \<open>\<open>memoryGasCost\<close> on the memory of the run, and a checked addition that returns on overflow.\<close>

definition mem_cost :: "('s, 't) Env \<Rightarrow> u64 \<Rightarrow> ('s, 't) M \<Rightarrow> ('s, 't) M \<times> u64 \<times> error option" where
  "mem_cost E memorySize m =
     (let (mem, gas, err) = memoryGasCost (lib E) (memory m) memorySize
      in (m\<lparr>memory := mem\<rparr>, gas, err))"

definition add_or_fail :: "('s, 't) Env \<Rightarrow> ('s, 't) M \<Rightarrow> u64 \<Rightarrow> u64 \<Rightarrow> ('s, 't) gas_result" where
  "add_or_fail E m gas x =
     (let (gas, overflow) = SafeAdd (lib E) gas x
      in if overflow then Some (m, 0, Some errGasUintOverflow) else Some (m, gas, None))"

definition constGasFunc :: "u64 \<Rightarrow> ('s, 't) gasFunc" where
  "constGasFunc gas E memorySize m = Some (m, gas, None)"

section \<open>Costs with a per-word part\<close>

text \<open>
  The common body of the copy operations and of \<open>SHA3\<close>: expansion, a base cost, and a cost per
  word of the size at stack position \<open>i\<close>.
\<close>

definition gas_words :: "u64 \<Rightarrow> nat \<Rightarrow> u64 \<Rightarrow> ('s, 't) gasFunc" where
  "gas_words base i perWord E memorySize m =
     (let (m, gas, err) = mem_cost E memorySize m
      in case err of
           Some e \<Rightarrow> Some (m, 0, Some e)
         | None \<Rightarrow>
             let (gas, overflow) = SafeAdd (lib E) gas base
             in if overflow then Some (m, 0, Some errGasUintOverflow)
                else do {
                  x \<leftarrow> Back i (stack m);
                  let (words, overflow) = Uint64WithOverflow x
                  in if overflow then Some (m, 0, Some errGasUintOverflow)
                     else let (words, overflow) = SafeMul (lib E) (toWordSize words) perWord
                          in if overflow then Some (m, 0, Some errGasUintOverflow)
                             else add_or_fail E m gas words
                })"

definition gasCallDataCopy :: "('s, 't) gasFunc" where
  "gasCallDataCopy E = gas_words GasFastestStep 2 (CopyGas (lib E)) E"

definition gasReturnDataCopy :: "('s, 't) gasFunc" where
  "gasReturnDataCopy E = gas_words GasFastestStep 2 (CopyGas (lib E)) E"

definition gasSha3 :: "('s, 't) gasFunc" where
  "gasSha3 E = gas_words (Sha3Gas (lib E)) 1 (Sha3WordGas (lib E)) E"

definition gasCodeCopy :: "('s, 't) gasFunc" where
  "gasCodeCopy E = gas_words GasFastestStep 2 (CopyGas (lib E)) E"

definition gasExtCodeCopy :: "('s, 't) gasFunc" where
  "gasExtCodeCopy E = gas_words (gt_ExtcodeCopy (gasTable E)) 3 (CopyGas (lib E)) E"

definition gasCreate2 :: "('s, 't) gasFunc" where
  "gasCreate2 E = gas_words (Create2Gas (lib E)) 2 (Sha3WordGas (lib E)) E"

section \<open>Storage and logs\<close>

definition gasSStore :: "('s, 't) gasFunc" where
  "gasSStore E memorySize m = do {
     y \<leftarrow> Back 1 (stack m);
     x \<leftarrow> Back 0 (stack m);
     let val = GetState (sdb E) (self (contract m)) x (db m)
     in if val = 0 \<and> y \<noteq> 0 then Some (m, SstoreSetGas (lib E), None)
        else if val \<noteq> 0 \<and> y = 0
        then Some (set_db (AddRefund (sdb E) (SstoreRefundGas (lib E)) (db m)) m,
                   SstoreClearGas (lib E), None)
        else Some (m, SstoreResetGas (lib E), None)
   }"

definition makeGasLog :: "u64 \<Rightarrow> ('s, 't) gasFunc" where
  "makeGasLog n E memorySize m = do {
     x \<leftarrow> Back 1 (stack m);
     let (requestedSize, overflow) = Uint64WithOverflow x
     in if overflow then Some (m, 0, Some errGasUintOverflow)
        else let (m, gas, err) = mem_cost E memorySize m
             in case err of
                  Some e \<Rightarrow> Some (m, 0, Some e)
                | None \<Rightarrow>
                    let (gas, overflow) = SafeAdd (lib E) gas (LogGas (lib E))
                    in if overflow then Some (m, 0, Some errGasUintOverflow)
                       else let (gas, overflow) = SafeAdd (lib E) gas (n * LogTopicGas (lib E))
                            in if overflow then Some (m, 0, Some errGasUintOverflow)
                               else let (sizeGas, overflow) = SafeMul (lib E) requestedSize (LogDataGas (lib E))
                                    in if overflow then Some (m, 0, Some errGasUintOverflow)
                                       else add_or_fail E m gas sizeGas
   }"

section \<open>Constant costs\<close>

definition gasExtCodeHash :: "('s, 't) gasFunc" where
  "gasExtCodeHash E memorySize m = Some (m, gt_ExtcodeHash (gasTable E), None)"

definition gasBalance :: "('s, 't) gasFunc" where
  "gasBalance E memorySize m = Some (m, gt_Balance (gasTable E), None)"

definition gasExtCodeSize :: "('s, 't) gasFunc" where
  "gasExtCodeSize E memorySize m = Some (m, gt_ExtcodeSize (gasTable E), None)"

definition gasSLoad :: "('s, 't) gasFunc" where
  "gasSLoad E memorySize m = Some (m, gt_SLoad (gasTable E), None)"

definition gasPush :: "('s, 't) gasFunc" where
  "gasPush E memorySize m = Some (m, GasFastestStep, None)"

definition gasSwap :: "('s, 't) gasFunc" where
  "gasSwap E memorySize m = Some (m, GasFastestStep, None)"

definition gasDup :: "('s, 't) gasFunc" where
  "gasDup E memorySize m = Some (m, GasFastestStep, None)"

section \<open>Memory operations\<close>

text \<open>Expansion and a base cost; \<open>f\<close> says which error an expansion failure becomes.\<close>

definition gas_mem_base :: "(error \<Rightarrow> error) \<Rightarrow> u64 \<Rightarrow> ('s, 't) gasFunc" where
  "gas_mem_base f base E memorySize m =
     (let (m, gas, err) = mem_cost E memorySize m
      in case err of
           Some e \<Rightarrow> Some (m, 0, Some (f e))
         | None \<Rightarrow> add_or_fail E m gas base)"

definition gasMLoad :: "('s, 't) gasFunc" where
  "gasMLoad E = gas_mem_base (\<lambda>_. errGasUintOverflow) GasFastestStep E"

definition gasMStore8 :: "('s, 't) gasFunc" where
  "gasMStore8 E = gas_mem_base (\<lambda>_. errGasUintOverflow) GasFastestStep E"

definition gasMStore :: "('s, 't) gasFunc" where
  "gasMStore E = gas_mem_base (\<lambda>_. errGasUintOverflow) GasFastestStep E"

definition gasCreate :: "('s, 't) gasFunc" where
  "gasCreate E = gas_mem_base (\<lambda>e. e) (CreateGas (lib E)) E"

definition gasReturn :: "('s, 't) gasFunc" where
  "gasReturn E memorySize m = Some (mem_cost E memorySize m)"

definition gasRevert :: "('s, 't) gasFunc" where
  "gasRevert E memorySize m = Some (mem_cost E memorySize m)"

definition gasExp :: "('s, 't) gasFunc" where
  "gasExp E memorySize m = do {
     x \<leftarrow> Back 1 (stack m);
     let expByteLen = of_nat ((bit_len (unat x) + 7) div 8)
     in add_or_fail E m (expByteLen * gt_ExpByte (gasTable E)) GasSlowStep
   }"

section \<open>Calls\<close>

text \<open>
  The common end of the four call costs: expansion, the gas passed on (stored in
  \<open>callGasTemp\<close>), and the sum of both.
\<close>

definition gas_pass_on :: "('s, 't) Env \<Rightarrow> ('s, 't) M \<Rightarrow> u64 \<Rightarrow> ('s, 't) gas_result" where
  "gas_pass_on E m gas = do {
     c \<leftarrow> Back 0 (stack m);
     let (temp, err) = callGas (gasTable E) (Gas (contract m)) gas c;
         m = m\<lparr>evm := (evm m)\<lparr>callGasTemp := temp\<rparr>\<rparr>
     in case err of
          Some e \<Rightarrow> Some (m, 0, Some e)
        | None \<Rightarrow> add_or_fail E m gas temp
   }"

text \<open>The end of \<open>gasCall\<close> and \<open>gasCallCode\<close>, after the base cost.\<close>

definition gas_charge :: "('s, 't) Env \<Rightarrow> u64 \<Rightarrow> u64 \<Rightarrow> ('s, 't) M \<Rightarrow> ('s, 't) gas_result" where
  "gas_charge E gas memorySize m =
     (let (m, memoryGas, err) = mem_cost E memorySize m
      in case err of
           Some e \<Rightarrow> Some (m, 0, Some e)
         | None \<Rightarrow>
             let (gas, overflow) = SafeAdd (lib E) gas memoryGas
             in if overflow then Some (m, 0, Some errGasUintOverflow) else gas_pass_on E m gas)"

definition gasCall :: "('s, 't) gasFunc" where
  "gasCall E memorySize m = do {
     v \<leftarrow> Back 2 (stack m);
     a \<leftarrow> Back 1 (stack m);
     let transfersValue = (v \<noteq> 0); address = Bytes20 a;
         eip158 = IsEIP158 (chainConfig E) (blockNumber E);
         gas = gt_Calls (gasTable E);
         gas = (if eip158 then
                  (if transfersValue \<and> Empty (sdb E) address (db m)
                   then gas + CallNewAccountGas (lib E) else gas)
                else if \<not> Exist (sdb E) address (db m) then gas + CallNewAccountGas (lib E)
                else gas);
         gas = (if transfersValue then gas + CallValueTransferGas (lib E) else gas)
     in gas_charge E gas memorySize m
   }"

definition gasCallCode :: "('s, 't) gasFunc" where
  "gasCallCode E memorySize m = do {
     v \<leftarrow> Back 2 (stack m);
     let gas = gt_Calls (gasTable E);
         gas = (if v \<noteq> 0 then gas + CallValueTransferGas (lib E) else gas)
     in gas_charge E gas memorySize m
   }"

text \<open>The common body of \<open>gasDelegateCall\<close> and \<open>gasStaticCall\<close>.\<close>

definition gas_plain_call :: "('s, 't) gasFunc" where
  "gas_plain_call E memorySize m =
     (let (m, gas, err) = mem_cost E memorySize m
      in case err of
           Some e \<Rightarrow> Some (m, 0, Some e)
         | None \<Rightarrow>
             let (gas, overflow) = SafeAdd (lib E) gas (gt_Calls (gasTable E))
             in if overflow then Some (m, 0, Some errGasUintOverflow) else gas_pass_on E m gas)"

definition gasDelegateCall :: "('s, 't) gasFunc" where
  "gasDelegateCall E = gas_plain_call E"

definition gasStaticCall :: "('s, 't) gasFunc" where
  "gasStaticCall E = gas_plain_call E"

definition gasSuicide :: "('s, 't) gasFunc" where
  "gasSuicide E memorySize m = do {
     a \<leftarrow> (if IsEIP150 (chainConfig E) (blockNumber E) then Back 0 (stack m) else Some 0);
     let this = self (contract m);
         gas = (if IsEIP150 (chainConfig E) (blockNumber E) then
                  (let gas = gt_Suicide (gasTable E); address = Bytes20 a
                   in if IsEIP158 (chainConfig E) (blockNumber E) then
                        (if Empty (sdb E) address (db m) \<and> GetBalance (sdb E) this (db m) \<noteq> 0
                         then gas + gt_CreateBySuicide (gasTable E) else gas)
                      else if \<not> Exist (sdb E) address (db m)
                      then gas + gt_CreateBySuicide (gasTable E) else gas)
                else 0);
         m = (if \<not> HasSuicided (sdb E) this (db m)
              then set_db (AddRefund (sdb E) (SuicideRefundGas (lib E)) (db m)) m else m)
     in Some (m, gas, None)
   }"

end
