(* ===== verification/VmInstr.thy ===== *)
theory VmInstr
  imports VmGas
begin

text \<open>
  The instructions of the machine (src/vm/instructions.go).  An instruction takes the environment,
  the calls that the machine offers, and the variables of the run; it returns the variables, the
  returned bytes and the error.  \<open>None\<close> is a panic, or a call that does not return.
\<close>

section \<open>Types\<close>

text \<open>
  The methods \<open>Call\<close>, \<open>CallCode\<close>, \<open>DelegateCall\<close>, \<open>StaticCall\<close>, \<open>Create\<close> and \<open>Create2\<close> of the
  machine.  The caller is given by its address; \<open>DelegateCall\<close> takes the calling contract.  The
  result is the machine, the tracer, the returned bytes, the gas left over and the error.
\<close>

type_synonym ('s, 't) call_result = "('s EVM \<times> 't \<times> bytes \<times> u64 \<times> error option) option"
type_synonym ('s, 't) create_result = "('s EVM \<times> 't \<times> bytes \<times> address \<times> u64 \<times> error option) option"

record ('s, 't) Calls =
  do_Call :: "'s EVM \<Rightarrow> 't \<Rightarrow> address \<Rightarrow> address \<Rightarrow> bytes \<Rightarrow> u64 \<Rightarrow> int \<Rightarrow> ('s, 't) call_result"
  do_CallCode :: "'s EVM \<Rightarrow> 't \<Rightarrow> address \<Rightarrow> address \<Rightarrow> bytes \<Rightarrow> u64 \<Rightarrow> int \<Rightarrow> ('s, 't) call_result"
  do_DelegateCall :: "'s EVM \<Rightarrow> 't \<Rightarrow> Contract \<Rightarrow> address \<Rightarrow> bytes \<Rightarrow> u64 \<Rightarrow> ('s, 't) call_result"
  do_StaticCall :: "'s EVM \<Rightarrow> 't \<Rightarrow> address \<Rightarrow> address \<Rightarrow> bytes \<Rightarrow> u64 \<Rightarrow> ('s, 't) call_result"
  do_Create :: "'s EVM \<Rightarrow> 't \<Rightarrow> address \<Rightarrow> bytes \<Rightarrow> u64 \<Rightarrow> int \<Rightarrow> ('s, 't) create_result"
  do_Create2 :: "'s EVM \<Rightarrow> 't \<Rightarrow> address \<Rightarrow> bytes \<Rightarrow> u64 \<Rightarrow> int \<Rightarrow> u256 \<Rightarrow> ('s, 't) create_result"

type_synonym ('s, 't) executionFunc = "('s, 't) Env \<Rightarrow> ('s, 't) Calls \<Rightarrow> ('s, 't) M \<Rightarrow> ('s, 't) result"

definition emptyCodeHash :: "deps \<Rightarrow> hash" where
  "emptyCodeHash d = Keccak256 d []"

text \<open>Several pops, and a call of a hook of the tracer that may cancel the machine.\<close>

fun pops :: "nat \<Rightarrow> Stack \<Rightarrow> (u256 list \<times> Stack) option" where
  "pops 0 st = Some ([], st)"
| "pops (Suc n) st = do { (x, st) \<leftarrow> popptr st; (xs, st) \<leftarrow> pops n st; Some (x # xs, st) }"

definition traced ::
    "('s, 't) Env \<Rightarrow> (('s, 't) Logger \<Rightarrow> 't \<Rightarrow> 't \<times> bool) \<Rightarrow> 's EVM \<times> 't \<Rightarrow> 's EVM \<times> 't" where
  "traced E f et =
     (case Tracer E of
        None \<Rightarrow> et
      | Some T \<Rightarrow> let (t, cancel) = f T (snd et) in (if cancel then Cancel (fst et) else fst et, t))"

text \<open>Operations that replace the top of the stack, and that push a word.\<close>

definition unop :: "(u256 \<Rightarrow> u256) \<Rightarrow> ('s, 't) M \<Rightarrow> ('s, 't) result" where
  [vm_defs]: "unop f m = do { x \<leftarrow> peek (stack m); ok (m\<lparr>stack := set_top (f x) (stack m)\<rparr>) }"

definition binop :: "(u256 \<Rightarrow> u256 \<Rightarrow> u256) \<Rightarrow> ('s, 't) M \<Rightarrow> ('s, 't) result" where
  [vm_defs]: "binop f m = do {
     (x, st) \<leftarrow> popptr (stack m);
     y \<leftarrow> peek st;
     ok (m\<lparr>stack := set_top (f x y) st\<rparr>)
   }"

definition ternop :: "(u256 \<Rightarrow> u256 \<Rightarrow> u256 \<Rightarrow> u256) \<Rightarrow> ('s, 't) M \<Rightarrow> ('s, 't) result" where
  [vm_defs]: "ternop f m = do {
     (x, st) \<leftarrow> popptr (stack m);
     (y, st) \<leftarrow> popptr st;
     z \<leftarrow> peek st;
     ok (m\<lparr>stack := set_top (f x y z) st\<rparr>)
   }"

definition push_word :: "u256 \<Rightarrow> ('s, 't) M \<Rightarrow> ('s, 't) result" where
  [vm_defs]: "push_word v m = ok (m\<lparr>stack := push v (stack m)\<rparr>)"

section \<open>Arithmetic and logic\<close>

definition opAdd :: "('s, 't) executionFunc" where
  [vm_defs]: "opAdd E C m = binop (Add (lib E)) m"

definition opSub :: "('s, 't) executionFunc" where
  [vm_defs]: "opSub E C m = binop (Sub (lib E)) m"

definition opMul :: "('s, 't) executionFunc" where
  [vm_defs]: "opMul E C m = binop (Mul (lib E)) m"

definition opDiv :: "('s, 't) executionFunc" where
  [vm_defs]: "opDiv E C m = binop (Div (lib E)) m"

definition opSdiv :: "('s, 't) executionFunc" where
  [vm_defs]: "opSdiv E C m = binop (SDiv (lib E)) m"

definition opMod :: "('s, 't) executionFunc" where
  [vm_defs]: "opMod E C m = binop (Mod (lib E)) m"

definition opSmod :: "('s, 't) executionFunc" where
  [vm_defs]: "opSmod E C m = binop (SMod (lib E)) m"

definition opExp :: "('s, 't) executionFunc" where
  [vm_defs]: "opExp E C m = binop (Exp (lib E)) m"

definition opSignExtend :: "('s, 't) executionFunc" where
  [vm_defs]: "opSignExtend E C m = binop (\<lambda>back num. ExtendSign (lib E) num back) m"

definition opNot :: "('s, 't) executionFunc" where
  [vm_defs]: "opNot E C m = unop (Not (lib E)) m"

definition opLt :: "('s, 't) executionFunc" where
  [vm_defs]: "opLt E C m = binop (\<lambda>x y. if Lt (lib E) x y then 1 else 0) m"

definition opGt :: "('s, 't) executionFunc" where
  [vm_defs]: "opGt E C m = binop (\<lambda>x y. if Gt (lib E) x y then 1 else 0) m"

definition opSlt :: "('s, 't) executionFunc" where
  [vm_defs]: "opSlt E C m = binop (\<lambda>x y. if Slt (lib E) x y then 1 else 0) m"

definition opSgt :: "('s, 't) executionFunc" where
  [vm_defs]: "opSgt E C m = binop (\<lambda>x y. if Sgt (lib E) x y then 1 else 0) m"

definition opEq :: "('s, 't) executionFunc" where
  [vm_defs]: "opEq E C m = binop (\<lambda>x y. if x = y then 1 else 0) m"

definition opIszero :: "('s, 't) executionFunc" where
  [vm_defs]: "opIszero E C m = unop (\<lambda>x. if x = 0 then 1 else 0) m"

definition opAnd :: "('s, 't) executionFunc" where
  [vm_defs]: "opAnd E C m = binop (And (lib E)) m"

definition opOr :: "('s, 't) executionFunc" where
  [vm_defs]: "opOr E C m = binop (Or (lib E)) m"

definition opXor :: "('s, 't) executionFunc" where
  [vm_defs]: "opXor E C m = binop (Xor (lib E)) m"

definition opByte :: "('s, 't) executionFunc" where
  [vm_defs]: "opByte E C m = binop (\<lambda>th val. Byte (lib E) val th) m"

definition opAddmod :: "('s, 't) executionFunc" where
  [vm_defs]: "opAddmod E C m = ternop (\<lambda>x y z. if z = 0 then 0 else AddMod (lib E) x y z) m"

definition opMulmod :: "('s, 't) executionFunc" where
  [vm_defs]: "opMulmod E C m = ternop (MulMod (lib E)) m"

definition opSHL :: "('s, 't) executionFunc" where
  [vm_defs]: "opSHL E C m =
     binop (\<lambda>shift val. if unat shift < 256 then Lsh (lib E) val (unat (Uint64 shift)) else 0) m"

definition opSHR :: "('s, 't) executionFunc" where
  [vm_defs]: "opSHR E C m =
     binop (\<lambda>shift val. if unat shift < 256 then Rsh (lib E) val (unat (Uint64 shift)) else 0) m"

text \<open>\<open>value.Sign()\<close> is the sign of the two's complement.\<close>

definition opSAR :: "('s, 't) executionFunc" where
  [vm_defs]: "opSAR E C m =
     binop (\<lambda>shift val. if unat shift > 256 then (if sint val \<ge> 0 then 0 else - 1)
       else SRsh (lib E) val (unat (Uint64 shift))) m"

definition opSha3 :: "('s, 't) executionFunc" where
  [vm_defs]: "opSha3 E C m = do {
     (offset, st) \<leftarrow> popptr (stack m);
     sz \<leftarrow> peek st;
     data \<leftarrow> GetPtr (sint (Uint64 offset)) (sint (Uint64 sz)) (memory m);
     let hash = Keccak256 (lib E) data;
         m = (if EnablePreimageRecording E then set_db (AddPreimage (sdb E) hash data (db m)) m else m)
     in ok (m\<lparr>stack := set_top hash st\<rparr>)
   }"

section \<open>Environment\<close>

definition opAddress :: "('s, 't) executionFunc" where
  [vm_defs]: "opAddress E C m = push_word (ucast (self (contract m))) m"

definition opBalance :: "('s, 't) executionFunc" where
  [vm_defs]: "opBalance E C m = unop (\<lambda>slot. of_int (GetBalance (sdb E) (Bytes20 slot) (db m))) m"

definition opOrigin :: "('s, 't) executionFunc" where
  [vm_defs]: "opOrigin E C m = push_word (ucast (Origin (ctx E))) m"

definition opCaller :: "('s, 't) executionFunc" where
  [vm_defs]: "opCaller E C m = push_word (ucast (CallerAddress (contract m))) m"

text \<open>The conversion of a nil big integer gives a nil pointer, and its push panics.\<close>

definition opCallValue :: "('s, 't) executionFunc" where
  [vm_defs]: "opCallValue E C m = do { v \<leftarrow> value (contract m); push_word (of_int v) m }"

definition opCallDataLoad :: "('s, 't) executionFunc" where
  [vm_defs]: "opCallDataLoad E C m = do {
     x \<leftarrow> peek (stack m);
     let (offset, overflow) = Uint64WithOverflow x
     in if \<not> overflow then do {
          data \<leftarrow> getData (lib E) (Input (contract m)) offset 32;
          ok (m\<lparr>stack := set_top (be_word data) (stack m)\<rparr>)
        } else ok (m\<lparr>stack := set_top 0 (stack m)\<rparr>)
   }"

definition opCallDataSize :: "('s, 't) executionFunc" where
  [vm_defs]: "opCallDataSize E C m = push_word (ucast (of_nat (length (Input (contract m))) :: u64)) m"

text \<open>The common end of the copy instructions: \<open>data\<close> from an offset, into memory.\<close>

definition copy_data :: "deps \<Rightarrow> bytes \<Rightarrow> u256 \<Rightarrow> u256 \<Rightarrow> u256 \<Rightarrow> ('s, 't) M \<Rightarrow> ('s, 't) result" where
  "copy_data d src memOffset dataOffset len m =
     (let (offset64, overflow) = Uint64WithOverflow dataOffset;
          offset64 = (if overflow then 0xffffffffffffffff else offset64)
      in do {
        data \<leftarrow> getData d src offset64 (Uint64 len);
        mem \<leftarrow> Memory_Set (Uint64 memOffset) (Uint64 len) data (memory m);
        ok (m\<lparr>memory := mem\<rparr>)
      })"

definition opCallDataCopy :: "('s, 't) executionFunc" where
  [vm_defs]: "opCallDataCopy E C m = do {
     (memOffset, st) \<leftarrow> popptr (stack m);
     (dataOffset, st) \<leftarrow> popptr st;
     (len, st) \<leftarrow> popptr st;
     copy_data (lib E) (Input (contract m)) memOffset dataOffset len (m\<lparr>stack := st\<rparr>)
   }"

definition opReturnDataSize :: "('s, 't) executionFunc" where
  [vm_defs]: "opReturnDataSize E C m = push_word (ucast (of_nat (length (returnData (evm m))) :: u64)) m"

definition opReturnDataCopy :: "('s, 't) executionFunc" where
  [vm_defs]: "opReturnDataCopy E C m = do {
     (memOffset, st) \<leftarrow> popptr (stack m);
     (dataOffset, st) \<leftarrow> popptr st;
     (len, st) \<leftarrow> popptr st;
     let m = m\<lparr>stack := st\<rparr>; (offset64, overflow) = Uint64WithOverflow dataOffset
     in if overflow then Some (m, [], Some errReturnDataOutOfBounds)
        else
          let (end64, overflow) = Uint64WithOverflow (Add (lib E) dataOffset len)
          in if overflow \<or> (of_nat (length (returnData (evm m))) :: u64) < end64
             then Some (m, [], Some errReturnDataOutOfBounds)
             else do {
               data \<leftarrow> slice (returnData (evm m)) (uint offset64) (uint end64);
               mem \<leftarrow> Memory_Set (Uint64 memOffset) (Uint64 len) data (memory m);
               ok (m\<lparr>memory := mem\<rparr>)
             }
   }"

definition opExtCodeSize :: "('s, 't) executionFunc" where
  [vm_defs]: "opExtCodeSize E C m =
     unop (\<lambda>slot. ucast (of_int (GetCodeSize (sdb E) (Bytes20 slot) (db m)) :: u64)) m"

definition opCodeSize :: "('s, 't) executionFunc" where
  [vm_defs]: "opCodeSize E C m = push_word (ucast (of_nat (length (Code (contract m))) :: u64)) m"

definition opCodeCopy :: "('s, 't) executionFunc" where
  [vm_defs]: "opCodeCopy E C m = do {
     (memOffset, st) \<leftarrow> popptr (stack m);
     (codeOffset, st) \<leftarrow> popptr st;
     (len, st) \<leftarrow> popptr st;
     copy_data (lib E) (Code (contract m)) memOffset codeOffset len (m\<lparr>stack := st\<rparr>)
   }"

definition opExtCodeCopy :: "('s, 't) executionFunc" where
  [vm_defs]: "opExtCodeCopy E C m = do {
     (a, st) \<leftarrow> popptr (stack m);
     (memOffset, st) \<leftarrow> popptr st;
     (codeOffset, st) \<leftarrow> popptr st;
     (len, st) \<leftarrow> popptr st;
     copy_data (lib E) (GetCode (sdb E) (Bytes20 a) (db m)) memOffset codeOffset len (m\<lparr>stack := st\<rparr>)
   }"

definition opExtCodeHash :: "('s, 't) executionFunc" where
  [vm_defs]: "opExtCodeHash E C m =
     unop (\<lambda>slot. let address = Bytes20 slot; codeHash = GetCodeHash (sdb E) address (db m)
       in if Empty (sdb E) address (db m) then 0
          else if codeHash = 0 then emptyCodeHash (lib E) else codeHash) m"

definition opGasprice :: "('s, 't) executionFunc" where
  [vm_defs]: "opGasprice E C m = push_word (of_int (GasPrice (ctx E))) m"

definition opBlockhash :: "('s, 't) executionFunc" where
  [vm_defs]: "opBlockhash E C m =
     unop (\<lambda>num. let (num64, overflow) = Uint64WithOverflow num
       in if overflow then 0
          else
            let upper = of_int (blockNumber E) :: u64; lower = (if upper < 257 then 0 else upper - 256)
            in if num64 \<ge> lower \<and> num64 < upper then GetHash (ctx E) num64 else 0) m"

definition opCoinbase :: "('s, 't) executionFunc" where
  [vm_defs]: "opCoinbase E C m = push_word (ucast (Coinbase (ctx E))) m"

definition opTimestamp :: "('s, 't) executionFunc" where
  [vm_defs]: "opTimestamp E C m = push_word (of_int (Time (ctx E))) m"

definition opNumber :: "('s, 't) executionFunc" where
  [vm_defs]: "opNumber E C m = push_word (of_int (BlockNumber (ctx E))) m"

definition opDifficulty :: "('s, 't) executionFunc" where
  [vm_defs]: "opDifficulty E C m = push_word (of_int (Difficulty (ctx E))) m"

definition opGasLimit :: "('s, 't) executionFunc" where
  [vm_defs]: "opGasLimit E C m = push_word (ucast (GasLimit (ctx E))) m"

definition opChainID :: "('s, 't) executionFunc" where
  [vm_defs]: "opChainID E C m = do { i \<leftarrow> ChainID (chainConfig E); push_word (of_int i) m }"

definition opSelfBalance :: "('s, 't) executionFunc" where
  [vm_defs]: "opSelfBalance E C m = push_word (of_int (GetBalance (sdb E) (self (contract m)) (db m))) m"

section \<open>Stack, memory, storage and jumps\<close>

definition opPop :: "('s, 't) executionFunc" where
  [vm_defs]: "opPop E C m = do { (_, st) \<leftarrow> pop (stack m); ok (m\<lparr>stack := st\<rparr>) }"

definition opMload :: "('s, 't) executionFunc" where
  [vm_defs]: "opMload E C m = do {
     v \<leftarrow> peek (stack m);
     bs \<leftarrow> GetPtr (sint (Uint64 v)) 32 (memory m);
     ok (m\<lparr>stack := set_top (be_word bs) (stack m)\<rparr>)
   }"

definition opMstore :: "('s, 't) executionFunc" where
  [vm_defs]: "opMstore E C m = do {
     (mStart, st) \<leftarrow> popptr (stack m);
     (val, st) \<leftarrow> popptr st;
     mem \<leftarrow> Set32 (Uint64 mStart) val (memory m);
     ok (m\<lparr>stack := st, memory := mem\<rparr>)
   }"

definition opMstore8 :: "('s, 't) executionFunc" where
  [vm_defs]: "opMstore8 E C m = do {
     (off, st) \<leftarrow> popptr (stack m);
     (val, st) \<leftarrow> popptr st;
     let i = unat (Uint64 off)
     in if i < Len (memory m)
        then ok (m\<lparr>stack := st, memory := (memory m)\<lparr>store := (store (memory m))[i := ucast (Uint64 val)]\<rparr>\<rparr>)
        else None
   }"

definition opSload :: "('s, 't) executionFunc" where
  [vm_defs]: "opSload E C m = unop (\<lambda>loc. GetState (sdb E) (self (contract m)) loc (db m)) m"

definition opSstore :: "('s, 't) executionFunc" where
  [vm_defs]: "opSstore E C m = do {
     (loc, st) \<leftarrow> popptr (stack m);
     (val, st) \<leftarrow> popptr st;
     ok (set_db (SetState (sdb E) (self (contract m)) loc val (db m)) (m\<lparr>stack := st\<rparr>))
   }"

text \<open>The jump to a position of the stack, with the error of an invalid one.\<close>

definition jump_to :: "u256 \<Rightarrow> ('s, 't) M \<Rightarrow> ('s, 't) result" where
  "jump_to pos m = do {
     (cache, c, valid) \<leftarrow> validJumpdest (bitmaps (evm m)) (contract m) pos;
     let m = m\<lparr>evm := (evm m)\<lparr>bitmaps := cache\<rparr>, contract := c\<rparr>
     in if \<not> valid then Some (m, [], Some (ErrInvalidJump (GetOp c (Uint64 pos)) pos))
        else ok (m\<lparr>pc := Uint64 pos\<rparr>)
   }"

definition opJump :: "('s, 't) executionFunc" where
  [vm_defs]: "opJump E C m = do {
     (pos, st) \<leftarrow> popptr (stack m);
     jump_to pos (m\<lparr>stack := st\<rparr>)
   }"

definition opJumpi :: "('s, 't) executionFunc" where
  [vm_defs]: "opJumpi E C m = do {
     (pos, st) \<leftarrow> popptr (stack m);
     (cond, st) \<leftarrow> popptr st;
     let m = m\<lparr>stack := st\<rparr>
     in if cond \<noteq> 0 then jump_to pos m else ok (m\<lparr>pc := pc m + 1\<rparr>)
   }"

definition opJumpdest :: "('s, 't) executionFunc" where
  [vm_defs]: "opJumpdest E C m = ok m"

definition opPc :: "('s, 't) executionFunc" where
  [vm_defs]: "opPc E C m = push_word (ucast (pc m)) m"

definition opMsize :: "('s, 't) executionFunc" where
  [vm_defs]: "opMsize E C m = push_word (ucast (of_nat (Len (memory m)) :: u64)) m"

definition opGas :: "('s, 't) executionFunc" where
  [vm_defs]: "opGas E C m = push_word (ucast (Gas (contract m))) m"

section \<open>Calls and creations\<close>

text \<open>\<open>toBig\<close> of a word: zero is the shared \<open>big0\<close>.\<close>

definition big_value :: "u256 \<Rightarrow> int" where
  "big_value v = (if v \<noteq> 0 then uint v else 0)"

definition opCreate :: "('s, 't) executionFunc" where
  "opCreate E C m = do {
     (val, st) \<leftarrow> popptr (stack m);
     (offset, st) \<leftarrow> popptr st;
     (sz, st) \<leftarrow> popptr st;
     input \<leftarrow> GetCopy (sint (Uint64 offset)) (sint (Uint64 sz)) (memory m);
     let gas = Gas (contract m);
         gas = (if IsEIP150 (chainConfig E) (blockNumber E) then gas - gas div 64 else gas);
         c = snd (UseGas gas (contract m))
     in do {
       (e, t, res, addr, returnGas, suberr) \<leftarrow>
         do_Create C (evm m) (trc m) (self c) input gas (big_value val);
       let v = (if IsHomestead (chainConfig E) (blockNumber E) \<and> suberr = Some ErrCodeStoreOutOfGas then 0
                else if suberr \<noteq> None \<and> suberr \<noteq> Some ErrCodeStoreOutOfGas then 0
                else ucast addr);
           m = m\<lparr>evm := e, trc := t, contract := c\<lparr>Gas := Gas c + returnGas\<rparr>, stack := push v st\<rparr>
       in Some (m, if suberr = Some ErrExecutionReverted then res else [], None)
     }
   }"

definition opCreate2 :: "('s, 't) executionFunc" where
  "opCreate2 E C m = do {
     (endowment, st) \<leftarrow> popptr (stack m);
     (offset, st) \<leftarrow> popptr st;
     (sz, st) \<leftarrow> popptr st;
     (salt, st) \<leftarrow> pop st;
     input \<leftarrow> GetCopy (sint (Uint64 offset)) (sint (Uint64 sz)) (memory m);
     let gas = Gas (contract m);
         gas = gas - gas div 64;
         c = snd (UseGas gas (contract m))
     in do {
       (e, t, res, addr, returnGas, suberr) \<leftarrow>
         do_Create2 C (evm m) (trc m) (self c) input gas (big_value endowment) salt;
       let v = (if suberr \<noteq> None then 0 else ucast addr);
           m = m\<lparr>evm := e, trc := t, contract := c\<lparr>Gas := Gas c + returnGas\<rparr>, stack := push v st\<rparr>
       in Some (m, if suberr = Some ErrExecutionReverted then res else [], None)
     }
   }"

text \<open>
  The common end of the four calls: the status on the stack, the returned bytes into memory unless
  the call failed, and the gas back to the contract.
\<close>

definition after_call ::
    "u64 \<Rightarrow> u64 \<Rightarrow> Stack \<Rightarrow> ('s, 't) M \<Rightarrow> 's EVM \<times> 't \<times> bytes \<times> u64 \<times> error option \<Rightarrow> ('s, 't) result" where
  "after_call retOffset retSize st m r =
     (let (e, t, ret, returnGas, err) = r;
          v = (if err \<noteq> None then 0 else 1)
      in do {
        mem \<leftarrow> (if err = None \<or> err = Some ErrExecutionReverted
                then Memory_Set retOffset retSize ret (memory m) else Some (memory m));
        Some (m\<lparr>evm := e, trc := t, stack := push v st, memory := mem,
                contract := (contract m)\<lparr>Gas := Gas (contract m) + returnGas\<rparr>\<rparr>, ret, None)
      })"

definition opCall :: "('s, 't) executionFunc" where
  "opCall E C m = do {
     (_, st) \<leftarrow> pop (stack m);
     (addr, st) \<leftarrow> popptr st;
     (val, st) \<leftarrow> pop st;
     (inOffset, st) \<leftarrow> popptr st;
     (inSize, st) \<leftarrow> popptr st;
     (retOffset, st) \<leftarrow> popptr st;
     (retSize, st) \<leftarrow> popptr st;
     args \<leftarrow> GetCopy (sint (Uint64 inOffset)) (sint (Uint64 inSize)) (memory m);
     let gas = callGasTemp (evm m);
         gas = (if val \<noteq> 0 then gas + CallStipend (lib E) else gas)
     in do {
       r \<leftarrow> do_Call C (evm m) (trc m) (self (contract m)) (Bytes20 addr) args gas (big_value val);
       after_call (Uint64 retOffset) (Uint64 retSize) st m r
     }
   }"

definition opCallCode :: "('s, 't) executionFunc" where
  "opCallCode E C m = do {
     (_, st) \<leftarrow> pop (stack m);
     (addr, st) \<leftarrow> popptr st;
     (val, st) \<leftarrow> pop st;
     (inOffset, st) \<leftarrow> popptr st;
     (inSize, st) \<leftarrow> popptr st;
     (retOffset, st) \<leftarrow> popptr st;
     (retSize, st) \<leftarrow> popptr st;
     args \<leftarrow> GetCopy (sint (Uint64 inOffset)) (sint (Uint64 inSize)) (memory m);
     let gas = callGasTemp (evm m);
         gas = (if val \<noteq> 0 then gas + CallStipend (lib E) else gas)
     in do {
       r \<leftarrow> do_CallCode C (evm m) (trc m) (self (contract m)) (Bytes20 addr) args gas (big_value val);
       after_call (Uint64 retOffset) (Uint64 retSize) st m r
     }
   }"

definition opDelegateCall :: "('s, 't) executionFunc" where
  "opDelegateCall E C m = do {
     (_, st) \<leftarrow> pop (stack m);
     (addr, st) \<leftarrow> popptr st;
     (inOffset, st) \<leftarrow> popptr st;
     (inSize, st) \<leftarrow> popptr st;
     (retOffset, st) \<leftarrow> popptr st;
     (retSize, st) \<leftarrow> popptr st;
     args \<leftarrow> GetCopy (sint (Uint64 inOffset)) (sint (Uint64 inSize)) (memory m);
     r \<leftarrow> do_DelegateCall C (evm m) (trc m) (contract m) (Bytes20 addr) args (callGasTemp (evm m));
     after_call (Uint64 retOffset) (Uint64 retSize) st m r
   }"

definition opStaticCall :: "('s, 't) executionFunc" where
  "opStaticCall E C m = do {
     (_, st) \<leftarrow> pop (stack m);
     (addr, st) \<leftarrow> popptr st;
     (inOffset, st) \<leftarrow> popptr st;
     (inSize, st) \<leftarrow> popptr st;
     (retOffset, st) \<leftarrow> popptr st;
     (retSize, st) \<leftarrow> popptr st;
     args \<leftarrow> GetCopy (sint (Uint64 inOffset)) (sint (Uint64 inSize)) (memory m);
     r \<leftarrow> do_StaticCall C (evm m) (trc m) (self (contract m)) (Bytes20 addr) args (callGasTemp (evm m));
     after_call (Uint64 retOffset) (Uint64 retSize) st m r
   }"

section \<open>Halting\<close>

definition ret_slice :: "('s, 't) M \<Rightarrow> ('s, 't) result" where
  "ret_slice m = do {
     (offset, st) \<leftarrow> popptr (stack m);
     (sz, st) \<leftarrow> popptr st;
     ret \<leftarrow> GetPtr (sint (Uint64 offset)) (sint (Uint64 sz)) (memory m);
     Some (m\<lparr>stack := st\<rparr>, ret, None)
   }"

definition opReturn :: "('s, 't) executionFunc" where
  [vm_defs]: "opReturn E C m = ret_slice m"

definition opRevert :: "('s, 't) executionFunc" where
  [vm_defs]: "opRevert E C m = ret_slice m"

definition opStop :: "('s, 't) executionFunc" where
  [vm_defs]: "opStop E C m = ok m"

definition opSuicide :: "('s, 't) executionFunc" where
  "opSuicide E C m = do {
     (r, st) \<leftarrow> popptr (stack m);
     let receiver = Bytes20 r; this = self (contract m);
         bal = GetBalance (sdb E) this (db m);
         (e, t) = traced E (\<lambda>T. CaptureEnter T SELFDESTRUCT this receiver [] 0 (Some bal)) (evm m, trc m);
         (e, t) = traced E (\<lambda>T. CaptureExit T [] 0 None) (e, t);
         e = (case OnSuicideContract (ctx E) of
                None \<Rightarrow> e
              | Some f \<Rightarrow> e\<lparr>statedb := f e this receiver\<rparr>);
         e = e\<lparr>statedb := snd (Suicide (sdb E) this (statedb e))\<rparr>
     in ok (m\<lparr>evm := e, trc := t, stack := st\<rparr>)
   }"

section \<open>Families of instructions\<close>

definition makeLog :: "nat \<Rightarrow> ('s, 't) executionFunc" where
  "makeLog n E C m = do {
     (mStart, st) \<leftarrow> popptr (stack m);
     (mSize, st) \<leftarrow> popptr st;
     (topics, st) \<leftarrow> pops n st;
     d \<leftarrow> GetCopy (sint (Uint64 mStart)) (sint (Uint64 mSize)) (memory m);
     let l = \<lparr>log_Address = self (contract m), log_Topics = topics, log_Data = d,
              log_BlockNumber = of_int (blockNumber E)\<rparr>
     in ok (set_db (AddLog (sdb E) l (db m)) (m\<lparr>stack := st\<rparr>))
   }"

definition opPush1 :: "('s, 't) executionFunc" where
  "opPush1 E C m =
     (let codeLen = of_nat (length (Code (contract m))) :: u64; p = pc m + 1; m = m\<lparr>pc := p\<rparr>
      in if p < codeLen then push_word (ucast (Code (contract m) ! unat p)) m else push_word 0 m)"

definition makePush :: "u64 \<Rightarrow> nat \<Rightarrow> ('s, 't) executionFunc" where
  "makePush sz pushByteSize E C m =
     (let codeLen = int (length (Code (contract m)));
          startMin = min (sint (pc m + 1)) codeLen;
          endMin = min (startMin + int pushByteSize) codeLen
      in do {
        bs \<leftarrow> slice (Code (contract m)) startMin endMin;
        push_word (be_word (RightPadBytes (lib E) bs (int pushByteSize))) (m\<lparr>pc := pc m + sz\<rparr>)
      })"

definition makeDup :: "nat \<Rightarrow> ('s, 't) executionFunc" where
  "makeDup n E C m = do { st \<leftarrow> dup n (stack m); ok (m\<lparr>stack := st\<rparr>) }"

definition makeSwap :: "nat \<Rightarrow> ('s, 't) executionFunc" where
  "makeSwap n E C m = do { st \<leftarrow> swap (n + 1) (stack m); ok (m\<lparr>stack := st\<rparr>) }"

end
