(* ===== verification/VmJumpTable.thy ===== *)
theory VmJumpTable
  imports VmInstr
begin

text \<open>
  The jump tables (src/vm/jump_table.go): for each opcode its instruction, its gas function, its
  stack check, the memory it needs, and five flags.  A table, an array of 256 pointers in the
  source, is an association list; an opcode that is not in it has the nil entry.
\<close>

record ('s, 't) operation =
  execute :: "('s, 't) executionFunc"
  gasCost :: "('s, 't) gasFunc"
  validateStack :: "Stack \<Rightarrow> error option"
  memorySize :: "memorySizeFunc option"
  halts :: bool
  jumps :: bool
  writes :: bool
  reverts :: bool
  returns :: bool

type_synonym ('s, 't) JumpTable = "(OpCode \<times> ('s, 't) operation) list"

text \<open>A struct literal with the first three fields; the others have their zero values.\<close>

definition mk_op ::
    "('s, 't) executionFunc \<Rightarrow> ('s, 't) gasFunc \<Rightarrow> (Stack \<Rightarrow> error option) \<Rightarrow> ('s, 't) operation" where
  "mk_op e g v = \<lparr>execute = e, gasCost = g, validateStack = v, memorySize = None, halts = False,
     jumps = False, writes = False, reverts = False, returns = False\<rparr>"

section \<open>Frontier\<close>

text \<open>The table of the first fork, in the groups and the order of the source.\<close>

definition arithmetic_ops :: "deps \<Rightarrow> ('s, 't) JumpTable" where
  "arithmetic_ops d =
     [(STOP, (mk_op opStop (constGasFunc 0) (makeStackFunc d 0 0))\<lparr>halts := True\<rparr>),
      (ADD, mk_op opAdd (constGasFunc GasFastestStep) (makeStackFunc d 2 1)),
      (MUL, mk_op opMul (constGasFunc GasFastStep) (makeStackFunc d 2 1)),
      (SUB, mk_op opSub (constGasFunc GasFastestStep) (makeStackFunc d 2 1)),
      (DIV, mk_op opDiv (constGasFunc GasFastStep) (makeStackFunc d 2 1)),
      (SDIV, mk_op opSdiv (constGasFunc GasFastStep) (makeStackFunc d 2 1)),
      (MOD, mk_op opMod (constGasFunc GasFastStep) (makeStackFunc d 2 1)),
      (SMOD, mk_op opSmod (constGasFunc GasFastStep) (makeStackFunc d 2 1)),
      (ADDMOD, mk_op opAddmod (constGasFunc GasMidStep) (makeStackFunc d 3 1)),
      (MULMOD, mk_op opMulmod (constGasFunc GasMidStep) (makeStackFunc d 3 1)),
      (EXP, mk_op opExp gasExp (makeStackFunc d 2 1)),
      (SIGNEXTEND, mk_op opSignExtend (constGasFunc GasFastStep) (makeStackFunc d 2 1)),
      (LT, mk_op opLt (constGasFunc GasFastestStep) (makeStackFunc d 2 1)),
      (GT, mk_op opGt (constGasFunc GasFastestStep) (makeStackFunc d 2 1)),
      (SLT, mk_op opSlt (constGasFunc GasFastestStep) (makeStackFunc d 2 1)),
      (SGT, mk_op opSgt (constGasFunc GasFastestStep) (makeStackFunc d 2 1)),
      (EQ, mk_op opEq (constGasFunc GasFastestStep) (makeStackFunc d 2 1)),
      (ISZERO, mk_op opIszero (constGasFunc GasFastestStep) (makeStackFunc d 1 1)),
      (AND', mk_op opAnd (constGasFunc GasFastestStep) (makeStackFunc d 2 1)),
      (XOR', mk_op opXor (constGasFunc GasFastestStep) (makeStackFunc d 2 1)),
      (OR', mk_op opOr (constGasFunc GasFastestStep) (makeStackFunc d 2 1)),
      (NOT', mk_op opNot (constGasFunc GasFastestStep) (makeStackFunc d 1 1)),
      (BYTE, mk_op opByte (constGasFunc GasFastestStep) (makeStackFunc d 2 1))]"

definition environment_ops :: "deps \<Rightarrow> ('s, 't) JumpTable" where
  "environment_ops d =
     [(SHA3, (mk_op opSha3 gasSha3 (makeStackFunc d 2 1))
         \<lparr>memorySize := Some memorySha3\<rparr>),
      (ADDRESS, mk_op opAddress (constGasFunc GasQuickStep) (makeStackFunc d 0 1)),
      (BALANCE, mk_op opBalance gasBalance (makeStackFunc d 1 1)),
      (ORIGIN, mk_op opOrigin (constGasFunc GasQuickStep) (makeStackFunc d 0 1)),
      (CALLER, mk_op opCaller (constGasFunc GasQuickStep) (makeStackFunc d 0 1)),
      (CALLVALUE, mk_op opCallValue (constGasFunc GasQuickStep) (makeStackFunc d 0 1)),
      (CALLDATALOAD, mk_op opCallDataLoad (constGasFunc GasFastestStep) (makeStackFunc d 1 1)),
      (CALLDATASIZE, mk_op opCallDataSize (constGasFunc GasQuickStep) (makeStackFunc d 0 1)),
      (CALLDATACOPY, (mk_op opCallDataCopy gasCallDataCopy (makeStackFunc d 3 0))
         \<lparr>memorySize := Some memoryCallDataCopy\<rparr>),
      (CODESIZE, mk_op opCodeSize (constGasFunc GasQuickStep) (makeStackFunc d 0 1)),
      (CODECOPY, (mk_op opCodeCopy gasCodeCopy (makeStackFunc d 3 0))
         \<lparr>memorySize := Some memoryCodeCopy\<rparr>),
      (GASPRICE, mk_op opGasprice (constGasFunc GasQuickStep) (makeStackFunc d 0 1)),
      (EXTCODESIZE, mk_op opExtCodeSize gasExtCodeSize (makeStackFunc d 1 1)),
      (EXTCODECOPY, (mk_op opExtCodeCopy gasExtCodeCopy (makeStackFunc d 4 0))
         \<lparr>memorySize := Some memoryExtCodeCopy\<rparr>),
      (BLOCKHASH, mk_op opBlockhash (constGasFunc GasExtStep) (makeStackFunc d 1 1)),
      (COINBASE, mk_op opCoinbase (constGasFunc GasQuickStep) (makeStackFunc d 0 1)),
      (TIMESTAMP, mk_op opTimestamp (constGasFunc GasQuickStep) (makeStackFunc d 0 1)),
      (NUMBER, mk_op opNumber (constGasFunc GasQuickStep) (makeStackFunc d 0 1)),
      (DIFFICULTY, mk_op opDifficulty (constGasFunc GasQuickStep) (makeStackFunc d 0 1)),
      (GASLIMIT, mk_op opGasLimit (constGasFunc GasQuickStep) (makeStackFunc d 0 1))]"

definition memory_ops :: "deps \<Rightarrow> ('s, 't) JumpTable" where
  "memory_ops d =
     [(POP, mk_op opPop (constGasFunc GasQuickStep) (makeStackFunc d 1 0)),
      (MLOAD, (mk_op opMload gasMLoad (makeStackFunc d 1 1))
         \<lparr>memorySize := Some memoryMLoad\<rparr>),
      (MSTORE, (mk_op opMstore gasMStore (makeStackFunc d 2 0))
         \<lparr>memorySize := Some memoryMStore\<rparr>),
      (MSTORE8, (mk_op opMstore8 gasMStore8 (makeStackFunc d 2 0))
         \<lparr>memorySize := Some memoryMStore8\<rparr>),
      (SLOAD, mk_op opSload gasSLoad (makeStackFunc d 1 1)),
      (SSTORE, (mk_op opSstore gasSStore (makeStackFunc d 2 0))\<lparr>writes := True\<rparr>),
      (JUMP, (mk_op opJump (constGasFunc GasMidStep) (makeStackFunc d 1 0))
         \<lparr>jumps := True\<rparr>),
      (JUMPI, (mk_op opJumpi (constGasFunc GasSlowStep) (makeStackFunc d 2 0))
         \<lparr>jumps := True\<rparr>),
      (PC, mk_op opPc (constGasFunc GasQuickStep) (makeStackFunc d 0 1)),
      (MSIZE, mk_op opMsize (constGasFunc GasQuickStep) (makeStackFunc d 0 1)),
      (GAS, mk_op opGas (constGasFunc GasQuickStep) (makeStackFunc d 0 1)),
      (JUMPDEST, mk_op opJumpdest (constGasFunc (JumpdestGas d)) (makeStackFunc d 0 0))]"

definition push_ops :: "deps \<Rightarrow> ('s, 't) JumpTable" where
  "push_ops d =
     [(PUSH1, mk_op opPush1 gasPush (makeStackFunc d 0 1)),
      (PUSH2, mk_op (makePush 2 2) gasPush (makeStackFunc d 0 1)),
      (PUSH3, mk_op (makePush 3 3) gasPush (makeStackFunc d 0 1)),
      (PUSH4, mk_op (makePush 4 4) gasPush (makeStackFunc d 0 1)),
      (PUSH5, mk_op (makePush 5 5) gasPush (makeStackFunc d 0 1)),
      (PUSH6, mk_op (makePush 6 6) gasPush (makeStackFunc d 0 1)),
      (PUSH7, mk_op (makePush 7 7) gasPush (makeStackFunc d 0 1)),
      (PUSH8, mk_op (makePush 8 8) gasPush (makeStackFunc d 0 1)),
      (PUSH9, mk_op (makePush 9 9) gasPush (makeStackFunc d 0 1)),
      (PUSH10, mk_op (makePush 10 10) gasPush (makeStackFunc d 0 1)),
      (PUSH11, mk_op (makePush 11 11) gasPush (makeStackFunc d 0 1)),
      (PUSH12, mk_op (makePush 12 12) gasPush (makeStackFunc d 0 1)),
      (PUSH13, mk_op (makePush 13 13) gasPush (makeStackFunc d 0 1)),
      (PUSH14, mk_op (makePush 14 14) gasPush (makeStackFunc d 0 1)),
      (PUSH15, mk_op (makePush 15 15) gasPush (makeStackFunc d 0 1)),
      (PUSH16, mk_op (makePush 16 16) gasPush (makeStackFunc d 0 1)),
      (PUSH17, mk_op (makePush 17 17) gasPush (makeStackFunc d 0 1)),
      (PUSH18, mk_op (makePush 18 18) gasPush (makeStackFunc d 0 1)),
      (PUSH19, mk_op (makePush 19 19) gasPush (makeStackFunc d 0 1)),
      (PUSH20, mk_op (makePush 20 20) gasPush (makeStackFunc d 0 1)),
      (PUSH21, mk_op (makePush 21 21) gasPush (makeStackFunc d 0 1)),
      (PUSH22, mk_op (makePush 22 22) gasPush (makeStackFunc d 0 1)),
      (PUSH23, mk_op (makePush 23 23) gasPush (makeStackFunc d 0 1)),
      (PUSH24, mk_op (makePush 24 24) gasPush (makeStackFunc d 0 1)),
      (PUSH25, mk_op (makePush 25 25) gasPush (makeStackFunc d 0 1)),
      (PUSH26, mk_op (makePush 26 26) gasPush (makeStackFunc d 0 1)),
      (PUSH27, mk_op (makePush 27 27) gasPush (makeStackFunc d 0 1)),
      (PUSH28, mk_op (makePush 28 28) gasPush (makeStackFunc d 0 1)),
      (PUSH29, mk_op (makePush 29 29) gasPush (makeStackFunc d 0 1)),
      (PUSH30, mk_op (makePush 30 30) gasPush (makeStackFunc d 0 1)),
      (PUSH31, mk_op (makePush 31 31) gasPush (makeStackFunc d 0 1)),
      (PUSH32, mk_op (makePush 32 32) gasPush (makeStackFunc d 0 1))]"

definition dup_ops :: "deps \<Rightarrow> ('s, 't) JumpTable" where
  "dup_ops d =
     [(DUP1, mk_op (makeDup 1) gasDup (makeDupStackFunc d 1)),
      (DUP2, mk_op (makeDup 2) gasDup (makeDupStackFunc d 2)),
      (DUP3, mk_op (makeDup 3) gasDup (makeDupStackFunc d 3)),
      (DUP4, mk_op (makeDup 4) gasDup (makeDupStackFunc d 4)),
      (DUP5, mk_op (makeDup 5) gasDup (makeDupStackFunc d 5)),
      (DUP6, mk_op (makeDup 6) gasDup (makeDupStackFunc d 6)),
      (DUP7, mk_op (makeDup 7) gasDup (makeDupStackFunc d 7)),
      (DUP8, mk_op (makeDup 8) gasDup (makeDupStackFunc d 8)),
      (DUP9, mk_op (makeDup 9) gasDup (makeDupStackFunc d 9)),
      (DUP10, mk_op (makeDup 10) gasDup (makeDupStackFunc d 10)),
      (DUP11, mk_op (makeDup 11) gasDup (makeDupStackFunc d 11)),
      (DUP12, mk_op (makeDup 12) gasDup (makeDupStackFunc d 12)),
      (DUP13, mk_op (makeDup 13) gasDup (makeDupStackFunc d 13)),
      (DUP14, mk_op (makeDup 14) gasDup (makeDupStackFunc d 14)),
      (DUP15, mk_op (makeDup 15) gasDup (makeDupStackFunc d 15)),
      (DUP16, mk_op (makeDup 16) gasDup (makeDupStackFunc d 16))]"

definition swap_ops :: "deps \<Rightarrow> ('s, 't) JumpTable" where
  "swap_ops d =
     [(SWAP1, mk_op (makeSwap 1) gasSwap (makeSwapStackFunc d 2)),
      (SWAP2, mk_op (makeSwap 2) gasSwap (makeSwapStackFunc d 3)),
      (SWAP3, mk_op (makeSwap 3) gasSwap (makeSwapStackFunc d 4)),
      (SWAP4, mk_op (makeSwap 4) gasSwap (makeSwapStackFunc d 5)),
      (SWAP5, mk_op (makeSwap 5) gasSwap (makeSwapStackFunc d 6)),
      (SWAP6, mk_op (makeSwap 6) gasSwap (makeSwapStackFunc d 7)),
      (SWAP7, mk_op (makeSwap 7) gasSwap (makeSwapStackFunc d 8)),
      (SWAP8, mk_op (makeSwap 8) gasSwap (makeSwapStackFunc d 9)),
      (SWAP9, mk_op (makeSwap 9) gasSwap (makeSwapStackFunc d 10)),
      (SWAP10, mk_op (makeSwap 10) gasSwap (makeSwapStackFunc d 11)),
      (SWAP11, mk_op (makeSwap 11) gasSwap (makeSwapStackFunc d 12)),
      (SWAP12, mk_op (makeSwap 12) gasSwap (makeSwapStackFunc d 13)),
      (SWAP13, mk_op (makeSwap 13) gasSwap (makeSwapStackFunc d 14)),
      (SWAP14, mk_op (makeSwap 14) gasSwap (makeSwapStackFunc d 15)),
      (SWAP15, mk_op (makeSwap 15) gasSwap (makeSwapStackFunc d 16)),
      (SWAP16, mk_op (makeSwap 16) gasSwap (makeSwapStackFunc d 17))]"

definition system_ops :: "deps \<Rightarrow> ('s, 't) JumpTable" where
  "system_ops d =
     [(LOG0, (mk_op (makeLog 0) (makeGasLog 0) (makeStackFunc d 2 0))
         \<lparr>memorySize := Some memoryLog, writes := True\<rparr>),
      (LOG1, (mk_op (makeLog 1) (makeGasLog 1) (makeStackFunc d 3 0))
         \<lparr>memorySize := Some memoryLog, writes := True\<rparr>),
      (LOG2, (mk_op (makeLog 2) (makeGasLog 2) (makeStackFunc d 4 0))
         \<lparr>memorySize := Some memoryLog, writes := True\<rparr>),
      (LOG3, (mk_op (makeLog 3) (makeGasLog 3) (makeStackFunc d 5 0))
         \<lparr>memorySize := Some memoryLog, writes := True\<rparr>),
      (LOG4, (mk_op (makeLog 4) (makeGasLog 4) (makeStackFunc d 6 0))
         \<lparr>memorySize := Some memoryLog, writes := True\<rparr>),
      (CREATE, (mk_op opCreate gasCreate (makeStackFunc d 3 1))
         \<lparr>memorySize := Some memoryCreate, writes := True, returns := True\<rparr>),
      (CALL, (mk_op opCall gasCall (makeStackFunc d 7 1))
         \<lparr>memorySize := Some memoryCall, returns := True\<rparr>),
      (CALLCODE, (mk_op opCallCode gasCallCode (makeStackFunc d 7 1))
         \<lparr>memorySize := Some memoryCall, returns := True\<rparr>),
      (RETURN, (mk_op opReturn gasReturn (makeStackFunc d 2 0))
         \<lparr>memorySize := Some memoryReturn, halts := True\<rparr>),
      (SELFDESTRUCT, (mk_op opSuicide gasSuicide (makeStackFunc d 1 0))
         \<lparr>halts := True, writes := True\<rparr>)]"

definition NewFrontierInstructionSet :: "deps \<Rightarrow> ('s, 't) JumpTable" where
  "NewFrontierInstructionSet d =
     arithmetic_ops d @ environment_ops d @ memory_ops d @ push_ops d @
     dup_ops d @ swap_ops d @ system_ops d"

section \<open>Later forks\<close>

definition NewHomesteadInstructionSet :: "deps \<Rightarrow> ('s, 't) JumpTable" where
  "NewHomesteadInstructionSet d =
     [(DELEGATECALL, (mk_op opDelegateCall gasDelegateCall (makeStackFunc d 6 1))
         \<lparr>memorySize := Some memoryDelegateCall, returns := True\<rparr>)] @
     NewFrontierInstructionSet d"

definition NewByzantiumInstructionSet :: "deps \<Rightarrow> ('s, 't) JumpTable" where
  "NewByzantiumInstructionSet d =
     [(STATICCALL, (mk_op opStaticCall gasStaticCall (makeStackFunc d 6 1))
         \<lparr>memorySize := Some memoryStaticCall, returns := True\<rparr>),
      (RETURNDATASIZE, mk_op opReturnDataSize (constGasFunc GasQuickStep) (makeStackFunc d 0 1)),
      (RETURNDATACOPY, (mk_op opReturnDataCopy gasReturnDataCopy (makeStackFunc d 3 0))
         \<lparr>memorySize := Some memoryReturnDataCopy\<rparr>),
      (REVERT, (mk_op opRevert gasRevert (makeStackFunc d 2 0))
         \<lparr>memorySize := Some memoryRevert, reverts := True, returns := True\<rparr>)] @
     NewHomesteadInstructionSet d"

definition NewConstantinopleInstructionSet :: "deps \<Rightarrow> ('s, 't) JumpTable" where
  "NewConstantinopleInstructionSet d =
     [(SHL, mk_op opSHL (constGasFunc GasFastestStep) (makeStackFunc d 2 1)),
      (SHR, mk_op opSHR (constGasFunc GasFastestStep) (makeStackFunc d 2 1)),
      (SAR, mk_op opSAR (constGasFunc GasFastestStep) (makeStackFunc d 2 1)),
      (EXTCODEHASH, mk_op opExtCodeHash gasExtCodeHash (makeStackFunc d 1 1)),
      (CREATE2, (mk_op opCreate2 gasCreate2 (makeStackFunc d 4 1))
         \<lparr>memorySize := Some memoryCreate2, writes := True, returns := True\<rparr>)] @
     NewByzantiumInstructionSet d"

definition NewIstanbulInstructionSet :: "deps \<Rightarrow> ('s, 't) JumpTable" where
  "NewIstanbulInstructionSet d =
     [(CHAINID, mk_op opChainID (constGasFunc GasQuickStep) (makeStackFunc d 0 1)),
      (SELFBALANCE, mk_op opSelfBalance (constGasFunc GasFastStep) (makeStackFunc d 0 1))] @
     NewConstantinopleInstructionSet d"

end
