(* ===== verification/VmInterp.thy ===== *)
theory VmInterp
  imports VmJumpTable
begin

text \<open>
  The interpreter (src/vm/interpreter.go) and the calls of the machine (src/vm/evm.go).

  The loop of \<open>Interpreter.Run\<close> and the nested calls share one fuel: an iteration with fuel
  \<open>Suc n\<close> gives \<open>n\<close> to the calls it makes and to the next iteration.  The functions of evm.go take
  the loop that they run as an argument \<open>L\<close>, which ties the recursion between the two files.
  The result \<open>None\<close> is a panic or a lack of fuel; the theorems of VmTotal give the fuel that is
  enough.  A configuration without its own jump table is modelled, which is how the node uses the
  package.
\<close>

section \<open>Interpreter\<close>

text \<open>The jump table that \<open>NewInterpreter\<close> chooses.\<close>

definition NewInterpreter_table :: "('s, 't) Env \<Rightarrow> ('s, 't) JumpTable" where
  "NewInterpreter_table E =
     (if IsIstanbul (chainConfig E) (blockNumber E) then NewIstanbulInstructionSet (lib E)
      else if IsConstantinople (chainConfig E) (blockNumber E) then NewConstantinopleInstructionSet (lib E)
      else if IsByzantium (chainConfig E) (blockNumber E) then NewByzantiumInstructionSet (lib E)
      else if IsHomestead (chainConfig E) (blockNumber E) then NewHomesteadInstructionSet (lib E)
      else NewFrontierInstructionSet (lib E))"

definition chainRules :: "('s, 't) Env \<Rightarrow> Rules" where
  "chainRules E = Rules_of (chainConfig E) (blockNumber E)"

text \<open>The outer \<open>None\<close> is the panic of \<open>Back\<close>.\<close>

definition enforceRestrictions ::
    "('s, 't) Env \<Rightarrow> OpCode \<Rightarrow> ('s, 't) operation \<Rightarrow> ('s, 't) M \<Rightarrow> error option option" where
  "enforceRestrictions E op operation m =
     (if rules_IsByzantium (chainRules E) \<and> readOnly (evm m) then
        (if writes operation then Some (Some errWriteProtection)
         else if op = CALL then do {
           v \<leftarrow> Back 2 (stack m);
           Some (if v \<noteq> 0 then Some errWriteProtection else None)
         }
         else Some None)
      else Some None)"

text \<open>The memory size of an operation in bytes, rounded up to words, and whether it overflows.\<close>

definition needed_memory :: "('s, 't) Env \<Rightarrow> ('s, 't) operation \<Rightarrow> ('s, 't) M \<Rightarrow> (u64 \<times> bool) option" where
  "needed_memory E operation m =
     (case memorySize operation of
        None \<Rightarrow> Some (0, False)
      | Some f \<Rightarrow> do {
          (memSize, overflow) \<leftarrow> f (stack m);
          if overflow then Some (0, True) else Some (SafeMul (lib E) (toWordSize memSize) 32)
        })"

definition step_info :: "('s, 't) M \<Rightarrow> u64 \<Rightarrow> OpCode \<Rightarrow> u64 \<Rightarrow> error option \<Rightarrow> StepInfo" where
  "step_info m pcCopy op gasCopy err =
     \<lparr>si_pc = pcCopy, si_op = op, si_gas = gasCopy, si_cost = cost m, si_memory = memory m,
      si_stack = stack m, si_contract = contract m, si_depth = depth (evm m), si_err = err\<rparr>"

text \<open>
  One iteration either goes on or returns from \<open>Run\<close>; the flag tells whether the step has been
  logged.
\<close>

datatype ('s, 't) outcome = Next "('s, 't) M" | Return "('s, 't) M" bytes "error option" bool

definition fail :: "('s, 't) M \<Rightarrow> error \<Rightarrow> ('s, 't) outcome option" where
  "fail m e = Some (Return m [] (Some e) False)"

text \<open>The end of an iteration, after the operation has returned.\<close>

definition after_execute ::
    "('s, 't) operation \<Rightarrow> ('s, 't) M \<times> bytes \<times> error option \<Rightarrow> ('s, 't) outcome" where
  "after_execute operation r =
     (let (m, res, err) = r;
          m = (if returns operation then m\<lparr>evm := (evm m)\<lparr>returnData := res\<rparr>\<rparr> else m)
      in case err of
           Some e \<Rightarrow> Return m [] (Some e) True
         | None \<Rightarrow>
             if reverts operation then Return m res (Some ErrExecutionReverted) True
             else if halts operation then Return m res None True
             else Next (if jumps operation then m else m\<lparr>pc := pc m + 1\<rparr>))"

text \<open>The middle of an iteration: tracing, the expansion of the memory and the operation.\<close>

definition perform ::
    "('s, 't) Env \<Rightarrow> ('s, 't) Calls \<Rightarrow> OpCode \<Rightarrow> ('s, 't) operation \<Rightarrow> u64 \<Rightarrow> u64 \<Rightarrow> ('s, 't) M \<Rightarrow>
     ('s, 't) outcome option" where
  "perform E C op operation gasCopy newSize m =
     (let (e, t) = traced E (\<lambda>T. CaptureState T (evm m) (step_info m (pc m) op gasCopy None)) (evm m, trc m);
          m = m\<lparr>evm := e, trc := t\<rparr>;
          m = (if newSize > 0 then m\<lparr>memory := Resize newSize (memory m)\<rparr> else m)
      in map_option (after_execute operation) (execute operation E C m))"

text \<open>The checks, the memory size and the gas of an operation that the table has.\<close>

definition operate ::
    "('s, 't) Env \<Rightarrow> ('s, 't) Calls \<Rightarrow> OpCode \<Rightarrow> ('s, 't) operation \<Rightarrow> ('s, 't) M \<Rightarrow> ('s, 't) outcome option" where
  "operate E C op operation m =
     (case validateStack operation (stack m) of
        Some err \<Rightarrow> fail m err
      | None \<Rightarrow> do {
          restricted \<leftarrow> enforceRestrictions E op operation m;
          case restricted of
            Some err \<Rightarrow> fail m err
          | None \<Rightarrow> do {
              (newSize, overflow) \<leftarrow> needed_memory E operation m;
              if overflow then fail m errGasUintOverflow
              else do {
                (m', gas, err) \<leftarrow> gasCost operation E newSize m;
                let m' = m'\<lparr>cost := gas\<rparr>; (enough, c) = UseGas gas (contract m')
                in if err \<noteq> None \<or> \<not> enough then fail m' ErrOutOfGas
                   else perform E C op operation (Gas (contract m)) newSize (m'\<lparr>contract := c\<rparr>)
              }
            }
        })"

definition step :: "('s, 't) Env \<Rightarrow> ('s, 't) Calls \<Rightarrow> ('s, 't) M \<Rightarrow> ('s, 't) outcome option" where
  "step E C m =
     (let op = GetOp (contract m) (pc m)
      in case map_of (NewInterpreter_table E) op of
           None \<Rightarrow> fail m (ErrInvalidOpCode op)
         | Some operation \<Rightarrow> operate E C op operation m)"

text \<open>
  The deferred capture of an error, with the program counter and the gas of the start of the
  iteration.
\<close>

definition capture_error ::
    "('s, 't) Env \<Rightarrow> ('s, 't) M \<Rightarrow> ('s, 't) M \<Rightarrow> error option \<Rightarrow> bool \<Rightarrow> ('s, 't) M" where
  "capture_error E start m err logged =
     (if err = None then m
      else
        let info = step_info m (pc start) (GetOp (contract start) (pc start)) (Gas (contract start)) err;
            (e, t) = traced E (\<lambda>T. if \<not> logged then CaptureState T (evm m) info
                                    else CaptureFault T (evm m) info) (evm m, trc m)
        in m\<lparr>evm := e, trc := t\<rparr>)"

type_synonym ('s, 't) runner = "('s, 't) M \<Rightarrow> ('s, 't) result"

definition start_frame :: "'s EVM \<Rightarrow> 't \<Rightarrow> Contract \<Rightarrow> bytes \<Rightarrow> ('s, 't) M" where
  "start_frame e t c input =
     \<lparr>evm = e, trc = t, pc = 0, contract = c\<lparr>Input := input\<rparr>, memory = NewMemory, stack = [], cost = 0\<rparr>"

text \<open>The result of a run: the machine, the tracer, the contract, the bytes and the error.\<close>

type_synonym ('s, 't) run_result = "('s EVM \<times> 't \<times> Contract \<times> bytes \<times> error option) option"

definition intercept :: "('s, 't) Env \<Rightarrow> 's EVM \<Rightarrow> Contract \<Rightarrow> bytes \<Rightarrow> ('s \<times> u64 \<times> bytes \<times> error option) option" where
  "intercept E e c input =
     (case (InterceptContractCall (ctx E), CodeAddr c) of
        (Some hook, Some a) \<Rightarrow>
          if a = self c then hook e (c\<lparr>Input := input\<rparr>) (readOnly e) else None
      | _ \<Rightarrow> None)"

definition leave :: "'s EVM \<Rightarrow> 's EVM" where
  "leave e = e\<lparr>depth := depth e - 1\<rparr>"

definition Run ::
    "('s, 't) runner \<Rightarrow> ('s, 't) Env \<Rightarrow> 's EVM \<Rightarrow> 't \<Rightarrow> Contract \<Rightarrow> bytes \<Rightarrow> ('s, 't) run_result" where
  "Run L E e t c input =
     (let e = e\<lparr>depth := depth e + 1, returnData := []\<rparr>
      in case intercept E e c input of
           Some (s, gas, out, err) \<Rightarrow> Some (leave (e\<lparr>statedb := s\<rparr>), t, c\<lparr>Gas := gas\<rparr>, out, err)
         | None \<Rightarrow>
             if Code c = [] then Some (leave e, t, c, [], None)
             else do {
               (m, ret, err) \<leftarrow> L (start_frame e t c input);
               Some (leave (evm m), trc m, contract m, ret, err)
             })"

section \<open>Calls\<close>

definition RunPrecompiledContract ::
    "PrecompiledContract \<Rightarrow> bytes \<Rightarrow> Contract \<Rightarrow> Contract \<times> bytes \<times> error option" where
  "RunPrecompiledContract p input c =
     (let (enough, c) = UseGas (RequiredGas p input) c
      in if enough then (c, PRun p input) else (c, [], Some ErrOutOfGas))"

definition precompiles :: "('s, 't) Env \<Rightarrow> address \<rightharpoonup> PrecompiledContract" where
  "precompiles E =
     (if IsIstanbul (chainConfig E) (blockNumber E) then PrecompiledContractsIstanbul E
      else if IsByzantium (chainConfig E) (blockNumber E) then PrecompiledContractsByzantium E
      else PrecompiledContractsHomestead E)"

definition run ::
    "('s, 't) runner \<Rightarrow> ('s, 't) Env \<Rightarrow> 's EVM \<Rightarrow> 't \<Rightarrow> Contract \<Rightarrow> bytes \<Rightarrow> ('s, 't) run_result" where
  "run L E e t c input =
     (case (case CodeAddr c of Some a \<Rightarrow> precompiles E a | None \<Rightarrow> None) of
        Some p \<Rightarrow> let (c, ret, err) = RunPrecompiledContract p input c in Some (e, t, c, ret, err)
      | None \<Rightarrow> Run L E e t c input)"

text \<open>The end of the four calls: on an error the state is reverted and the gas is consumed.\<close>

definition settle ::
    "('s, 't) Env \<Rightarrow> nat \<Rightarrow> 's EVM \<times> 't \<times> Contract \<times> bytes \<times> error option \<Rightarrow>
     's EVM \<times> 't \<times> bytes \<times> u64 \<times> error option" where
  "settle E snapshot r =
     (let (e, t, c, ret, err) = r
      in if err \<noteq> None then
           (e\<lparr>statedb := RevertToSnapshot (sdb E) snapshot (statedb e)\<rparr>, t, ret,
            Gas (if err \<noteq> Some ErrExecutionReverted then snd (UseGas (Gas c) c) else c), err)
         else (e, t, ret, Gas c, err))"

text \<open>The hooks around a frame.\<close>

type_synonym ('s, 't) hook = "('s, 't) Logger \<Rightarrow> 't \<Rightarrow> 't \<times> bool"

definition with_hooks ::
    "('s, 't) Env \<Rightarrow> ('s, 't) hook \<Rightarrow> (bytes \<Rightarrow> u64 \<Rightarrow> error option \<Rightarrow> ('s, 't) hook) \<Rightarrow> u64 \<Rightarrow>
     ('s EVM \<Rightarrow> 't \<Rightarrow> ('s, 't) call_result) \<Rightarrow> 's EVM \<Rightarrow> 't \<Rightarrow> ('s, 't) call_result" where
  "with_hooks E enter exit gas body e t =
     (let (e, t) = traced E enter (e, t)
      in do {
        (e, t, ret, leftOverGas, err) \<leftarrow> body e t;
        let (e, t) = traced E (exit ret (gas - leftOverGas) err) (e, t)
        in Some (e, t, ret, leftOverGas, err)
      })"

text \<open>\<open>CaptureStart\<close> and \<open>CaptureEnd\<close> at depth zero, \<open>CaptureEnter\<close> and \<open>CaptureExit\<close> below.\<close>

definition enter_hook ::
    "'s EVM \<Rightarrow> OpCode \<Rightarrow> address \<Rightarrow> address \<Rightarrow> bytes \<Rightarrow> u64 \<Rightarrow> int \<Rightarrow> ('s, 't) hook" where
  "enter_hook e op from to input gas val T t =
     (if depth e = 0 then (CaptureStart T e from to (op = CREATE) input gas val t, False)
      else CaptureEnter T op from to input gas (Some val) t)"

definition exit_hook :: "'s EVM \<Rightarrow> bytes \<Rightarrow> u64 \<Rightarrow> error option \<Rightarrow> ('s, 't) hook" where
  "exit_hook e ret gasUsed err T t =
     (if depth e = 0 then (CaptureEnd T ret gasUsed err t, False)
      else CaptureExit T ret gasUsed err t)"

definition new_frame ::
    "('s, 't) Env \<Rightarrow> 's \<Rightarrow> address \<Rightarrow> Contract \<Rightarrow> Contract" where
  "new_frame E s addr c = SetCallCode addr (GetCodeHash (sdb E) addr s) (GetCode (sdb E) addr s) c"

definition call ::
    "('s, 't) runner \<Rightarrow> ('s, 't) Env \<Rightarrow> address \<Rightarrow> address \<Rightarrow> bytes \<Rightarrow> u64 \<Rightarrow> int \<Rightarrow>
     's EVM \<Rightarrow> 't \<Rightarrow> ('s, 't) call_result" where
  "call L E caller addr input gas val e t =
     (if NoRecursion E \<and> depth e > 0 then Some (e, t, [], gas, None)
      else if depth e > CallCreateDepth (lib E) then Some (e, t, [], gas, Some ErrDepth)
      else if \<not> CanTransfer (ctx E) (statedb e) caller val then Some (e, t, [], gas, Some ErrInsufficientBalance)
      else
        let (snapshot, s) = Snapshot (sdb E) (statedb e); missing = (\<not> Exist (sdb E) addr s)
        in if missing \<and> precompiles E addr = None \<and> IsEIP158 (chainConfig E) (blockNumber E) \<and> val = 0
           then Some (e\<lparr>statedb := s\<rparr>, t, [], gas, None)
           else
             let s = (if missing then CreateAccount (sdb E) addr s else s);
                 s = Transfer (ctx E) s caller addr val;
                 c = new_frame E s addr (NewContract caller addr (Some val) gas)
             in map_option (settle E snapshot) (run L E (e\<lparr>statedb := s\<rparr>) t c input))"

definition Call ::
    "('s, 't) runner \<Rightarrow> ('s, 't) Env \<Rightarrow> 's EVM \<Rightarrow> 't \<Rightarrow> address \<Rightarrow> address \<Rightarrow> bytes \<Rightarrow> u64 \<Rightarrow> int \<Rightarrow>
     ('s, 't) call_result" where
  "Call L E e t caller addr input gas val =
     with_hooks E (enter_hook e CALL caller addr input gas val) (exit_hook e) gas
       (call L E caller addr input gas val) e t"

text \<open>The common body of the other three calls, after their checks.\<close>

definition call_code ::
    "('s, 't) runner \<Rightarrow> ('s, 't) Env \<Rightarrow> OpCode \<Rightarrow> address \<Rightarrow> address \<Rightarrow> int option \<Rightarrow> Contract \<Rightarrow> bytes \<Rightarrow>
     u64 \<Rightarrow> 's EVM \<Rightarrow> 't \<Rightarrow> ('s, 't) call_result" where
  "call_code L E op caller addr val c input gas =
     with_hooks E (\<lambda>T. CaptureEnter T op caller addr input gas val)
       (\<lambda>ret gasUsed err T. CaptureExit T ret gasUsed err) gas
       (\<lambda>e t. let (snapshot, s) = Snapshot (sdb E) (statedb e)
              in map_option (settle E snapshot) (run L E (e\<lparr>statedb := s\<rparr>) t (new_frame E s addr c) input))"

definition CallCode ::
    "('s, 't) runner \<Rightarrow> ('s, 't) Env \<Rightarrow> 's EVM \<Rightarrow> 't \<Rightarrow> address \<Rightarrow> address \<Rightarrow> bytes \<Rightarrow> u64 \<Rightarrow> int \<Rightarrow>
     ('s, 't) call_result" where
  "CallCode L E e t caller addr input gas val =
     (if NoRecursion E \<and> depth e > 0 then Some (e, t, [], gas, None)
      else if depth e > CallCreateDepth (lib E) then Some (e, t, [], gas, Some ErrDepth)
      else if \<not> CanTransfer (ctx E) (statedb e) caller val then Some (e, t, [], gas, Some ErrInsufficientBalance)
      else call_code L E CALLCODE caller addr (Some val) (NewContract caller caller (Some val) gas) input gas e t)"

definition DelegateCall ::
    "('s, 't) runner \<Rightarrow> ('s, 't) Env \<Rightarrow> 's EVM \<Rightarrow> 't \<Rightarrow> Contract \<Rightarrow> address \<Rightarrow> bytes \<Rightarrow> u64 \<Rightarrow>
     ('s, 't) call_result" where
  "DelegateCall L E e t caller addr input gas =
     (if NoRecursion E \<and> depth e > 0 then Some (e, t, [], gas, None)
      else if depth e > CallCreateDepth (lib E) then Some (e, t, [], gas, Some ErrDepth)
      else call_code L E DELEGATECALL (self caller) addr None
             (AsDelegate caller (NewContract (self caller) (self caller) None gas)) input gas e t)"

definition StaticCall ::
    "('s, 't) runner \<Rightarrow> ('s, 't) Env \<Rightarrow> 's EVM \<Rightarrow> 't \<Rightarrow> address \<Rightarrow> address \<Rightarrow> bytes \<Rightarrow> u64 \<Rightarrow>
     ('s, 't) call_result" where
  "StaticCall L E e t caller addr input gas =
     (if NoRecursion E \<and> depth e > 0 then Some (e, t, [], gas, None)
      else if depth e > CallCreateDepth (lib E) then Some (e, t, [], gas, Some ErrDepth)
      else do {
        (e', t, ret, leftOverGas, err) \<leftarrow>
          call_code L E STATICCALL caller addr None (NewContract caller addr (Some 0) gas) input gas
            (e\<lparr>readOnly := True\<rparr>) t;
        Some (if \<not> readOnly e then e'\<lparr>readOnly := False\<rparr> else e', t, ret, leftOverGas, err)
      })"

section \<open>Creations\<close>

text \<open>The end of a creation: the gas for the code, the revert, and the size limit.\<close>

definition store_code ::
    "('s, 't) Env \<Rightarrow> nat \<Rightarrow> address \<Rightarrow> 's EVM \<times> 't \<times> Contract \<times> bytes \<times> error option \<Rightarrow>
     's EVM \<times> 't \<times> bytes \<times> address \<times> u64 \<times> error option" where
  "store_code E snapshot contractAddr r =
     (let (e, t, c, ret, err) = r;
          maxCodeSizeExceeded =
            (IsEIP158 (chainConfig E) (blockNumber E) \<and> length ret > MaxCodeSize (lib E));
          createDataGas = of_nat (length ret) * CreateDataGas (lib E);
          (enough, c') = UseGas createDataGas c;
          (e, c, err) =
            (if err = None \<and> \<not> maxCodeSizeExceeded then
               (if enough then (e\<lparr>statedb := SetCode (sdb E) contractAddr ret (statedb e)\<rparr>, c', None)
                else (e, c', Some ErrCodeStoreOutOfGas))
             else (e, c, err));
          (e, c) =
            (if maxCodeSizeExceeded \<or>
                (err \<noteq> None \<and> (IsHomestead (chainConfig E) (blockNumber E) \<or> err \<noteq> Some ErrCodeStoreOutOfGas))
             then (e\<lparr>statedb := RevertToSnapshot (sdb E) snapshot (statedb e)\<rparr>,
                   if err \<noteq> Some ErrExecutionReverted then snd (UseGas (Gas c) c) else c)
             else (e, c));
          err = (if maxCodeSizeExceeded \<and> err = None then Some errMaxCodeSizeExceeded else err)
      in (e, t, ret, contractAddr, Gas c, err))"

definition create ::
    "('s, 't) runner \<Rightarrow> ('s, 't) Env \<Rightarrow> address \<Rightarrow> bytes \<Rightarrow> u64 \<Rightarrow> int \<Rightarrow> address \<Rightarrow>
     's EVM \<Rightarrow> 't \<Rightarrow> ('s, 't) create_result" where
  "create L E caller code gas val contractAddr e t =
     (if depth e > CallCreateDepth (lib E) then Some (e, t, [], 0, gas, Some ErrDepth)
      else if \<not> CanTransfer (ctx E) (statedb e) caller val
      then Some (e, t, [], 0, gas, Some ErrInsufficientBalance)
      else
        let nonce = GetNonce (sdb E) caller (statedb e);
            s = SetNonce (sdb E) caller (nonce + 1) (statedb e);
            e = e\<lparr>statedb := s, contractCreationCount := contractCreationCount e + 1\<rparr>;
            contractHash = GetCodeHash (sdb E) contractAddr s
        in if GetNonce (sdb E) contractAddr s \<noteq> 0 \<or>
              (contractHash \<noteq> 0 \<and> contractHash \<noteq> emptyCodeHash (lib E))
           then Some (e, t, [], 0, 0, Some ErrContractAddressCollision)
           else
             let (snapshot, s) = Snapshot (sdb E) s;
                 s = CreateAccount (sdb E) contractAddr s;
                 s = (if IsEIP158 (chainConfig E) (blockNumber E) then SetNonce (sdb E) contractAddr 1 s else s);
                 s = (case OnCreateContract (ctx E) of
                        Some f \<Rightarrow> f (e\<lparr>statedb := s\<rparr>) contractAddr caller
                      | None \<Rightarrow> s);
                 s = Transfer (ctx E) s caller contractAddr val;
                 c = SetCallCode contractAddr (Keccak256 (lib E) code) code
                       (NewContract caller contractAddr (Some val) gas);
                 e = e\<lparr>statedb := s\<rparr>
             in if NoRecursion E \<and> depth e > 0 then Some (e, t, [], contractAddr, gas, None)
                else map_option (store_code E snapshot contractAddr) (run L E e t c []))"

definition with_create_hooks ::
    "('s, 't) Env \<Rightarrow> ('s, 't) hook \<Rightarrow> (bytes \<Rightarrow> u64 \<Rightarrow> error option \<Rightarrow> ('s, 't) hook) \<Rightarrow> u64 \<Rightarrow>
     ('s EVM \<Rightarrow> 't \<Rightarrow> ('s, 't) create_result) \<Rightarrow> 's EVM \<Rightarrow> 't \<Rightarrow> ('s, 't) create_result" where
  "with_create_hooks E enter exit gas body e t =
     (let (e, t) = traced E enter (e, t)
      in do {
        (e, t, ret, contractAddr, leftOverGas, err) \<leftarrow> body e t;
        let (e, t) = traced E (exit ret (gas - leftOverGas) err) (e, t)
        in Some (e, t, ret, contractAddr, leftOverGas, err)
      })"

definition Create ::
    "('s, 't) runner \<Rightarrow> ('s, 't) Env \<Rightarrow> 's EVM \<Rightarrow> 't \<Rightarrow> address \<Rightarrow> bytes \<Rightarrow> u64 \<Rightarrow> int \<Rightarrow>
     ('s, 't) create_result" where
  "Create L E e t caller code gas val =
     (let contractAddr = NewContractAddress (ctx E) e (contractCreationCount e)
      in with_create_hooks E (enter_hook e CREATE caller contractAddr code gas val) (exit_hook e) gas
           (create L E caller code gas val contractAddr) e t)"

definition Create2 ::
    "('s, 't) runner \<Rightarrow> ('s, 't) Env \<Rightarrow> 's EVM \<Rightarrow> 't \<Rightarrow> address \<Rightarrow> bytes \<Rightarrow> u64 \<Rightarrow> int \<Rightarrow> u256 \<Rightarrow>
     ('s, 't) create_result" where
  "Create2 L E e t caller code gas endowment salt =
     (let contractAddr = CreateAddress2 (lib E) caller salt (Bytes32 (Keccak256 (lib E) code))
      in with_create_hooks E (\<lambda>T. CaptureEnter T CREATE2 caller contractAddr code gas (Some endowment))
           (\<lambda>ret gasUsed err T. CaptureExit T ret gasUsed err) gas
           (create L E caller code gas endowment contractAddr) e t)"

section \<open>The loop\<close>

text \<open>\<open>NewEVM\<close>, with the bitmap cache of the package.\<close>

definition NewEVM :: "bitmapCache \<Rightarrow> 's \<Rightarrow> 's EVM" where
  "NewEVM cache s = \<lparr>statedb = s, depth = 0, abort = False, callGasTemp = 0, contractCreationCount = 0,
     readOnly = False, returnData = [], bitmaps = cache\<rparr>"

definition mkCalls :: "('s, 't) runner \<Rightarrow> ('s, 't) Env \<Rightarrow> ('s, 't) Calls" where
  "mkCalls L E = \<lparr>do_Call = Call L E, do_CallCode = CallCode L E, do_DelegateCall = DelegateCall L E,
     do_StaticCall = StaticCall L E, do_Create = Create L E, do_Create2 = Create2 L E\<rparr>"

primrec loop :: "nat \<Rightarrow> ('s, 't) Env \<Rightarrow> ('s, 't) runner" where
  "loop 0 E m = None"
| "loop (Suc n) E m =
     (if abort (evm m) then Some (m, [], None)
      else do {
        r \<leftarrow> step E (mkCalls (loop n E) E) m;
        case r of
          Next m' \<Rightarrow> loop n E m'
        | Return m' ret err logged \<Rightarrow> Some (capture_error E m m' err logged, ret, err)
      })"

end
