(* ===== verification/VmRegions.thy ===== *)
theory VmRegions
  imports VmMemory
begin

text \<open>
  Memory accesses that do not panic: a region whose size has been computed by
  \<open>calcMemSize64\<close> and for which the memory has been expanded can be read and written.
\<close>

section \<open>Sizes\<close>

lemma Uint64_0 [simp]: "Uint64 0 = 0"
  by (simp add: Uint64_def)

lemma Uint64_eq_0: "IsUint64 x \<Longrightarrow> Uint64 x = 0 \<longleftrightarrow> x = 0"
  by (metis unat_Uint64 unat_0 unat_eq_zero)

lemma unat_add_u64: "\<not> x + y < x \<Longrightarrow> unat (x + y) = unat x + unat (y :: u64)"
  using unat_plus_simple [of x y] by (simp add: not_less)

lemma calcMemSize64WithUint_ok:
  "calcMemSize64WithUint off n = (x, False) \<Longrightarrow> n \<noteq> 0 \<Longrightarrow> IsUint64 off \<and> unat x = unat off + unat n"
  by (auto simp: calcMemSize64WithUint_def Uint64WithOverflow_def Let_def unat_add_u64 unat_Uint64 split: if_splits)

lemma calcMemSize64_ok:
  "calcMemSize64 off l = (x, False) \<Longrightarrow>
   IsUint64 l \<and> (l \<noteq> 0 \<longrightarrow> IsUint64 off \<and> unat x = unat off + unat l)"
  using calcMemSize64WithUint_ok [of off "Uint64 l" x]
  by (auto simp: calcMemSize64_def Uint64_eq_0 unat_Uint64 split: if_splits)

lemma toWordSize_ok:
  assumes "safe_math_ok d" and "SafeMul d (toWordSize x) 32 = (sz, False)"
  shows "unat x \<le> unat sz"
proof (cases "x > 0xffffffffffffffff - 31")
  case True
  then have "unat (toWordSize x) = 2 ^ 59" by (simp add: toWordSize_def)
  with assms show ?thesis by (simp add: safe_math_ok_def)
next
  case False
  then have le: "unat x \<le> 2 ^ 64 - 32" by (simp add: word_less_nat_alt)
  then have "unat (x + 31) = unat x + 31" by (subst unat_word_ariths) simp
  then have "unat (toWordSize x) = (unat x + 31) div 32"
    using False by (simp add: toWordSize_def unat_div)
  moreover have "unat x \<le> (unat x + 31) div 32 * 32" by linarith
  ultimately show ?thesis using SafeMul_noovf [OF assms] by simp
qed

section \<open>Regions of memory\<close>

text \<open>A region given by two stack words lies in the memory.\<close>

definition inside :: "u256 \<Rightarrow> u256 \<Rightarrow> Memory \<Rightarrow> bool" where
  "inside off l mem \<longleftrightarrow> IsUint64 l \<and> (l \<noteq> 0 \<longrightarrow> IsUint64 off \<and> unat off + unat l \<le> Len mem)"

lemma inside_calc:
  "calcMemSize64 off l = (x, False) \<Longrightarrow> unat x \<le> Len mem \<Longrightarrow> inside off l mem"
  using calcMemSize64_ok [of off l x] by (auto simp: inside_def)

lemma slice_region:
  "off + n \<le> length s \<Longrightarrow> slice s (int off) (int off + int n) = Some (take n (drop off s))"
  by (simp add: slice_def nat_add_distrib)

lemma slice_from: "off \<le> length s \<Longrightarrow> slice s (int off) (int (length s)) = Some (drop off s)"
  by (simp add: slice_def)

lemma GetPtr_region:
  "0 < n \<Longrightarrow> off + n \<le> length (store mem) \<Longrightarrow>
   GetPtr (int off) (int n) mem = Some (take n (drop off (store mem)))"
  by (simp add: GetPtr_def slice_region)

lemma GetPtr_inside:
  assumes "inside off l mem" and "Len mem \<le> 0xffffffffe0"
  shows "GetPtr (sint (Uint64 off)) (sint (Uint64 l)) mem = Some (take (unat l) (drop (unat off) (store mem)))"
proof (cases "l = 0")
  case False
  with assms have u: "IsUint64 l" "IsUint64 off" "unat off + unat l \<le> length (store mem)"
    "unat off + unat l \<le> 0xffffffffe0" by (auto simp: inside_def Len_def)
  then have "sint (Uint64 off) = int (unat off)" "sint (Uint64 l) = int (unat l)"
    by (simp_all add: sint_u64 unat_Uint64)
  moreover have "0 < unat l" using False by (simp add: unat_gt_0)
  ultimately show ?thesis using GetPtr_region [OF _ u(3)] by (simp only:)
qed (simp add: GetPtr_def)

lemma GetCopy_GetPtr: "0 \<le> sz \<Longrightarrow> GetPtr off sz mem = Some bs \<Longrightarrow> GetCopy off sz mem = Some bs"
  by (auto simp: GetPtr_def GetCopy_def slice_def pad_right_def split: if_splits)

lemma GetCopy_inside:
  assumes "inside off l mem" and "Len mem \<le> 0xffffffffe0"
  shows "GetCopy (sint (Uint64 off)) (sint (Uint64 l)) mem = Some (take (unat l) (drop (unat off) (store mem)))"
proof (cases "l = 0")
  case False
  with assms have "IsUint64 l" "unat l \<le> 0xffffffffe0" by (auto simp: inside_def)
  then have "0 \<le> sint (Uint64 l)" by (simp add: sint_u64 unat_Uint64)
  then show ?thesis using GetPtr_inside [OF assms] by (rule GetCopy_GetPtr)
qed (simp add: GetCopy_def)

lemma Memory_Set_inside:
  assumes "inside off l mem" and "Len mem \<le> 0xffffffffe0"
  shows "\<exists>mem'. Memory_Set (Uint64 off) (Uint64 l) v mem = Some mem' \<and> Len mem' = Len mem"
proof (cases "l = 0")
  case False
  with assms have u: "IsUint64 l" "IsUint64 off" "unat off + unat l \<le> length (store mem)"
    "unat off + unat l \<le> 0xffffffffe0" by (auto simp: inside_def Len_def)
  then have sum: "unat (Uint64 off + Uint64 l) = unat off + unat l"
    by (subst unat_word_ariths) (simp add: unat_Uint64)
  then have "slice (store mem) (uint (Uint64 off)) (uint (Uint64 off + Uint64 l)) =
      Some (take (unat l) (drop (unat off) (store mem)))"
    using slice_region [OF u(3)] u(2) by (simp only: uint_nat unat_Uint64 sum of_nat_add)
  with u sum show ?thesis by (auto simp: Memory_Set_def Len_def unat_Uint64)
qed (simp add: Memory_Set_def)

lemma Set32_inside:
  assumes "IsUint64 off" and "unat off + 32 \<le> Len mem" and "Len mem \<le> 0xffffffffe0"
  shows "\<exists>mem'. Set32 (Uint64 off) v mem = Some mem' \<and> Len mem' = Len mem"
proof -
  have sum: "unat (Uint64 off + 32) = unat off + 32"
    using assms by (subst unat_word_ariths) (simp add: unat_Uint64)
  have "slice (store mem) (uint (Uint64 off)) (int (length (store mem))) = Some (drop (unat off) (store mem))"
    unfolding uint_nat unat_Uint64 [OF assms(1)] using assms(2) by (intro slice_from) (simp add: Len_def)
  with sum assms show ?thesis by (auto simp: Set32_def Len_def unat_Uint64)
qed

lemma Len_Resize [simp]: "Len (Resize sz mem) = max (Len mem) (unat sz)"
  by (auto simp: Resize_def Len_def)

lemma min_u64: "unat (min x y :: u64) = min (unat x) (unat y)"
  by (auto simp: min_def word_le_nat_alt)

lemma slice_not_None: "lo \<le> hi \<Longrightarrow> hi \<le> length s \<Longrightarrow> \<exists>bs. slice s (int lo) (int hi) = Some bs"
  by (simp add: slice_def)

lemma getData_total:
  assumes "length data \<le> 2 ^ 62" and "unat sz \<le> 2 ^ 62"
  shows "\<exists>bs. getData d data start sz = Some bs"
proof -
  define len :: u64 where "len = of_nat (length data)"
  have len: "unat len = length data" using assms(1) by (simp add: len_def unat_of_nat)
  define st where "st = (if start > len then len else start)"
  have st: "unat st \<le> length data"
    unfolding len [symmetric] word_le_nat_alt [symmetric] st_def by (simp add: not_less)
  have sum: "unat (st + sz) = unat st + unat sz"
    using st assms by (simp add: unat_word_ariths)
  have "unat (min (st + sz) len) = min (unat st + unat sz) (length data)"
    by (simp only: min_u64 sum len)
  with st have "unat st \<le> unat (min (st + sz) len)" "unat (min (st + sz) len) \<le> length data" by simp_all
  from slice_not_None [OF this] obtain bs
    where "slice data (uint st) (uint (min (st + sz) len)) = Some bs" by (auto simp only: uint_nat)
  then show ?thesis by (simp add: getData_def len_def [symmetric] st_def [symmetric] Let_def)
qed

end
