(* ===== verification/VmSafety.thy ===== *)
theory VmSafety
  imports VmInterp VmRegions
begin

text \<open>
  The invariant of an execution and what every operation of the jump tables does to it.

  \<open>env_ok\<close> collects what the machine relies on outside of src/vm.  \<open>frame_ok\<close> is the invariant of
  the variables of a run; it carries a predicate \<open>I\<close> on the state database, which has to be closed
  under the operations that the machine performs on the database: under \<open>closed_ro\<close> always, and
  under \<open>closed_rw\<close> unless the machine is in read-only mode.
\<close>

section \<open>Assumptions on the environment\<close>

text \<open>No code is longer than \<open>2 ^ 40\<close> bytes: the largest memory that can be paid for is smaller.\<close>

abbreviation (input) max_code :: nat where "max_code \<equiv> 1099511627776"
abbreviation (input) max_memory :: nat where "max_memory \<equiv> 0xffffffffe0"

text \<open>
  The costs of go-ethereum's \<open>params\<close>: every operation that does not stop the execution costs
  gas, the costs of a call do not overflow, and a transfer costs at least the stipend.
\<close>

definition costs_ok :: "deps \<Rightarrow> GasTable \<Rightarrow> bool" where
  "costs_ok d gt \<longleftrightarrow>
     JumpdestGas d \<noteq> 0 \<and> LogGas d \<noteq> 0 \<and> Sha3Gas d \<noteq> 0 \<and> CreateGas d \<noteq> 0 \<and> Create2Gas d \<noteq> 0 \<and>
     SstoreSetGas d \<noteq> 0 \<and> SstoreClearGas d \<noteq> 0 \<and> SstoreResetGas d \<noteq> 0 \<and>
     gt_ExtcodeSize gt \<noteq> 0 \<and> gt_ExtcodeCopy gt \<noteq> 0 \<and> gt_ExtcodeHash gt \<noteq> 0 \<and> gt_Balance gt \<noteq> 0 \<and>
     gt_SLoad gt \<noteq> 0 \<and> gt_Calls gt \<noteq> 0 \<and> CallStipend d \<le> CallValueTransferGas d \<and>
     unat (gt_Calls gt) + unat (CallNewAccountGas d) + unat (CallValueTransferGas d) < 2 ^ 64"

text \<open>
  The hash tells codes of different lengths apart (its collision resistance, in the form in which
  the bitmap cache needs it), and the state database returns codes of bounded length with their
  hashes while it satisfies \<open>I\<close>.
\<close>

definition codes_ok :: "deps \<Rightarrow> 's StateDB \<Rightarrow> ('s \<Rightarrow> bool) \<Rightarrow> bool" where
  "codes_ok d S I \<longleftrightarrow>
     (\<forall>x y. length x \<le> max_code \<longrightarrow> length y \<le> max_code \<longrightarrow> Keccak256 d x = Keccak256 d y \<longrightarrow> length x = length y) \<and>
     (\<forall>a s. I s \<longrightarrow> length (GetCode S a s) \<le> max_code \<and>
        (GetCodeHash S a s \<noteq> 0 \<longrightarrow> GetCodeHash S a s = Keccak256 d (GetCode S a s)))"

text \<open>
  Precompiled contracts whose price is not the largest 64-bit number, and the call hook, return at
  most \<open>2 ^ 40\<close> bytes, the hook no more gas than it got; the chain has an identifier; the addition of
  \<open>uint256\<close> is that of 256-bit words.
\<close>

definition outside_ok :: "('s, 't) Env \<Rightarrow> bool" where
  "outside_ok E \<longleftrightarrow>
     (\<forall>a p i. precompiles E a = Some p \<longrightarrow> length i \<le> max_code \<longrightarrow> RequiredGas p i \<noteq> -1 \<longrightarrow>
        length (fst (PRun p i)) \<le> max_code) \<and>
     (\<forall>hook e c ro s gas out err. InterceptContractCall (ctx E) = Some hook \<longrightarrow>
        hook e c ro = Some (s, gas, out, err) \<longrightarrow> gas \<le> Gas c \<and> length out \<le> max_code) \<and>
     ChainID (chainConfig E) \<noteq> None \<and> (\<forall>x y. Add (lib E) x y = x + y)"

definition env_ok :: "('s, 't) Env \<Rightarrow> ('s \<Rightarrow> bool) \<Rightarrow> bool" where
  "env_ok E I \<longleftrightarrow>
     safe_math_ok (lib E) \<and> costs_ok (lib E) (gasTable E) \<and> codes_ok (lib E) (sdb E) I \<and> outside_ok E"

text \<open>The state after the hook of a destruction, which precedes the deletion of the account.\<close>

definition on_suicide :: "('s, 't) Env \<Rightarrow> 's EVM \<Rightarrow> address \<Rightarrow> address \<Rightarrow> 's" where
  "on_suicide E e a b = (case OnSuicideContract (ctx E) of None \<Rightarrow> statedb e | Some f \<Rightarrow> f e a b)"

section \<open>State predicates\<close>

text \<open>
  \<open>lvl\<close> is the number that the next snapshot gets.  A snapshot adds a level, a revert to an existing
  snapshot (other than the number 0) removes its level and those above it, and no other operation
  changes the number.
\<close>

definition levels_ok :: "('s, 't) Env \<Rightarrow> ('s \<Rightarrow> nat) \<Rightarrow> ('s \<Rightarrow> bool) \<Rightarrow> bool" where
  "levels_ok E lvl I \<longleftrightarrow>
     (\<forall>s. I s \<longrightarrow> fst (Snapshot (sdb E) s) = lvl s \<and> lvl (snd (Snapshot (sdb E) s)) = Suc (lvl s)) \<and>
     (\<forall>s n. I s \<longrightarrow> 0 < n \<longrightarrow> n < lvl s \<longrightarrow> lvl (RevertToSnapshot (sdb E) n s) = n) \<and>
     (\<forall>s a. I s \<longrightarrow> lvl (CreateAccount (sdb E) a s) = lvl s) \<and>
     (\<forall>s a b v. I s \<longrightarrow> lvl (Transfer (ctx E) s a b v) = lvl s) \<and>
     (\<forall>s h b. I s \<longrightarrow> lvl (AddPreimage (sdb E) h b s) = lvl s) \<and>
     (\<forall>s g. I s \<longrightarrow> lvl (AddRefund (sdb E) g s) = lvl s) \<and>
     (\<forall>s a x y. I s \<longrightarrow> lvl (SetState (sdb E) a x y s) = lvl s) \<and>
     (\<forall>e a b. I (statedb e) \<longrightarrow> lvl (snd (Suicide (sdb E) a (on_suicide E e a b))) = lvl (statedb e)) \<and>
     (\<forall>s l. I s \<longrightarrow> lvl (AddLog (sdb E) l s) = lvl s) \<and>
     (\<forall>s a n. I s \<longrightarrow> lvl (SetNonce (sdb E) a n s) = lvl s) \<and>
     (\<forall>s a b. I s \<longrightarrow> lvl (SetCode (sdb E) a b s) = lvl s) \<and>
     (\<forall>f e a b. OnCreateContract (ctx E) = Some f \<longrightarrow> I (statedb e) \<longrightarrow> lvl (f e a b) = lvl (statedb e)) \<and>
     (\<forall>hook e c ro s gas out err. InterceptContractCall (ctx E) = Some hook \<longrightarrow> I (statedb e) \<longrightarrow>
        hook e c ro = Some (s, gas, out, err) \<longrightarrow> lvl s = lvl (statedb e))"

text \<open>
  What the machine does in read-only mode keeps \<open>I\<close>; the snapshots that it reverts to are not older
  than \<open>k\<close>.
\<close>

definition closed_ro :: "('s, 't) Env \<Rightarrow> ('s \<Rightarrow> nat) \<Rightarrow> nat \<Rightarrow> ('s \<Rightarrow> bool) \<Rightarrow> bool" where
  "closed_ro E lvl k I \<longleftrightarrow>
     (\<forall>s. I s \<longrightarrow> k \<le> lvl s) \<and>
     (\<forall>s. I s \<longrightarrow> I (snd (Snapshot (sdb E) s))) \<and>
     (\<forall>s n. I s \<longrightarrow> k \<le> n \<longrightarrow> n < lvl s \<longrightarrow> I (RevertToSnapshot (sdb E) n s)) \<and>
     (\<forall>s a. I s \<longrightarrow> I (CreateAccount (sdb E) a s)) \<and>
     (\<forall>s a b. I s \<longrightarrow> I (Transfer (ctx E) s a b 0)) \<and>
     (\<forall>s h b. I s \<longrightarrow> I (AddPreimage (sdb E) h b s)) \<and>
     (\<forall>hook e c s gas out err. InterceptContractCall (ctx E) = Some hook \<longrightarrow> I (statedb e) \<longrightarrow>
        hook e c True = Some (s, gas, out, err) \<longrightarrow> I s)"

text \<open>
  What it does otherwise: transfers that the balance of the sender covers (nothing that happens
  between the check of the balance and the transfer changes the answer), writes, creations and
  destructions.
\<close>

definition closed_rw :: "('s, 't) Env \<Rightarrow> ('s \<Rightarrow> bool) \<Rightarrow> bool" where
  "closed_rw E I \<longleftrightarrow>
     (\<forall>s a b v. I s \<longrightarrow> CanTransfer (ctx E) s a v \<longrightarrow> 0 \<le> v \<longrightarrow> I (Transfer (ctx E) s a b v)) \<and>
     (\<forall>s a v. I s \<longrightarrow> CanTransfer (ctx E) s a v \<longrightarrow> CanTransfer (ctx E) (snd (Snapshot (sdb E) s)) a v) \<and>
     (\<forall>s a b v. I s \<longrightarrow> CanTransfer (ctx E) s a v \<longrightarrow> CanTransfer (ctx E) (CreateAccount (sdb E) b s) a v) \<and>
     (\<forall>s a b n v. I s \<longrightarrow> CanTransfer (ctx E) s a v \<longrightarrow> CanTransfer (ctx E) (SetNonce (sdb E) b n s) a v) \<and>
     (\<forall>f e a b c v. OnCreateContract (ctx E) = Some f \<longrightarrow> I (statedb e) \<longrightarrow> CanTransfer (ctx E) (statedb e) a v \<longrightarrow>
        CanTransfer (ctx E) (f e b c) a v) \<and>
     (\<forall>s g. I s \<longrightarrow> I (AddRefund (sdb E) g s)) \<and>
     (\<forall>s a x y. I s \<longrightarrow> I (SetState (sdb E) a x y s)) \<and>
     (\<forall>e a b. I (statedb e) \<longrightarrow> I (snd (Suicide (sdb E) a (on_suicide E e a b)))) \<and>
     (\<forall>s l. I s \<longrightarrow> I (AddLog (sdb E) l s)) \<and>
     (\<forall>s a n. I s \<longrightarrow> I (SetNonce (sdb E) a n s)) \<and>
     (\<forall>s a b. I s \<longrightarrow> length b \<le> max_code \<longrightarrow> I (SetCode (sdb E) a b s)) \<and>
     (\<forall>f e a b. OnCreateContract (ctx E) = Some f \<longrightarrow> I (statedb e) \<longrightarrow> I (f e a b)) \<and>
     (\<forall>hook e c s gas out err. InterceptContractCall (ctx E) = Some hook \<longrightarrow> I (statedb e) \<longrightarrow>
        hook e c False = Some (s, gas, out, err) \<longrightarrow> I s)"

lemma closed_roD:
  assumes "closed_ro E lvl k I" and "I s"
  shows "I (snd (Snapshot (sdb E) s))"
    and "k \<le> n \<Longrightarrow> n < lvl s \<Longrightarrow> I (RevertToSnapshot (sdb E) n s)"
    and "I (CreateAccount (sdb E) a s)" and "I (Transfer (ctx E) s a b 0)"
    and "I (AddPreimage (sdb E) h bs s)" and "k \<le> lvl s"
  using assms unfolding closed_ro_def by auto

lemma closed_rwD:
  assumes "closed_rw E I" and "I s"
  shows "CanTransfer (ctx E) s a v \<Longrightarrow> 0 \<le> v \<Longrightarrow> I (Transfer (ctx E) s a b v)"
    and "I (AddRefund (sdb E) g s)" and "I (SetState (sdb E) a x y s)"
    and "I (AddLog (sdb E) l s)" and "I (SetNonce (sdb E) a n s)"
    and "length bs \<le> max_code \<Longrightarrow> I (SetCode (sdb E) a bs s)"
    and "CanTransfer (ctx E) s a v \<Longrightarrow> CanTransfer (ctx E) (snd (Snapshot (sdb E) s)) a v"
    and "CanTransfer (ctx E) s a v \<Longrightarrow> CanTransfer (ctx E) (CreateAccount (sdb E) b s) a v"
    and "CanTransfer (ctx E) s a v \<Longrightarrow> CanTransfer (ctx E) (SetNonce (sdb E) b n s) a v"
  using assms unfolding closed_rw_def by auto

lemma levels_okD:
  assumes "levels_ok E lvl I" and "I s"
  shows "lvl (snd (Snapshot (sdb E) s)) = Suc (lvl s)" and "0 < n \<Longrightarrow> n < lvl s \<Longrightarrow> lvl (RevertToSnapshot (sdb E) n s) = n"
    and "lvl (CreateAccount (sdb E) a s) = lvl s" and "lvl (Transfer (ctx E) s a b v) = lvl s"
    and "lvl (SetNonce (sdb E) a m s) = lvl s" and "lvl (SetCode (sdb E) a bs s) = lvl s"
    and "lvl (AddPreimage (sdb E) h bs s) = lvl s" and "fst (Snapshot (sdb E) s) = lvl s"
    and "lvl (AddRefund (sdb E) g s) = lvl s" and "lvl (SetState (sdb E) a x y s) = lvl s" and "lvl (AddLog (sdb E) l s) = lvl s"
  using assms unfolding levels_ok_def by simp_all

lemma intercept_level:
  "levels_ok E lvl I \<Longrightarrow> InterceptContractCall (ctx E) = Some hook \<Longrightarrow> I (statedb e) \<Longrightarrow>
     hook e c ro = Some (s, gas, out, err) \<Longrightarrow> lvl s = lvl (statedb e)"
  unfolding levels_ok_def by metis

lemma intercept_closed:
  "closed_ro E lvl k I \<Longrightarrow> InterceptContractCall (ctx E) = Some hook \<Longrightarrow> I (statedb e) \<Longrightarrow>
     hook e c True = Some (s, gas, out, err) \<Longrightarrow> I s"
  "closed_rw E I \<Longrightarrow> InterceptContractCall (ctx E) = Some hook \<Longrightarrow> I (statedb e) \<Longrightarrow>
     hook e c False = Some (s, gas, out, err) \<Longrightarrow> I s"
  unfolding closed_ro_def closed_rw_def by metis+

text \<open>Every predicate can be restricted to the states in which a snapshot still exists.\<close>

lemma levels_above:
  assumes "levels_ok E lvl I" and "closed_ro E lvl k I" and "k \<le> n"
  shows "levels_ok E lvl (\<lambda>s. I s \<and> n < lvl s)" and "closed_ro E lvl (Suc n) (\<lambda>s. I s \<and> n < lvl s)"
    and "closed_rw E I \<Longrightarrow> closed_rw E (\<lambda>s. I s \<and> n < lvl s)"
proof -
  show "levels_ok E lvl (\<lambda>s. I s \<and> n < lvl s)" using assms(1) unfolding levels_ok_def by simp
  have hook: "I s \<and> n < lvl s"
    if "InterceptContractCall (ctx E) = Some hook" "I (statedb e) \<and> n < lvl (statedb e)" "hook e c True = Some (s, gas, out, err)"
    for hook e c s gas out err
    using that intercept_closed(1) [OF assms(2) that(1)] intercept_level [OF assms(1) that(1)] by metis
  show "closed_ro E lvl (Suc n) (\<lambda>s. I s \<and> n < lvl s)"
    unfolding closed_ro_def
  proof (intro conjI)
    show "\<forall>hook e c s gas out err. InterceptContractCall (ctx E) = Some hook \<longrightarrow> I (statedb e) \<and> n < lvl (statedb e) \<longrightarrow>
        hook e c True = Some (s, gas, out, err) \<longrightarrow> I s \<and> n < lvl s" using hook by blast
    have "k \<le> m" if "Suc n \<le> m" for m using that assms(3) by simp
    then show "\<forall>s m. I s \<and> n < lvl s \<longrightarrow> Suc n \<le> m \<longrightarrow> m < lvl s \<longrightarrow>
        I (RevertToSnapshot (sdb E) m s) \<and> n < lvl (RevertToSnapshot (sdb E) m s)"
      by (auto simp: closed_roD [OF assms(2)] levels_okD [OF assms(1)])
  qed (simp_all add: closed_roD [OF assms(2)] levels_okD [OF assms(1)] Suc_le_eq)
  assume rw: "closed_rw E I"
  have hook: "I s \<and> n < lvl s"
    if "InterceptContractCall (ctx E) = Some hook" "I (statedb e) \<and> n < lvl (statedb e)" "hook e c False = Some (s, gas, out, err)"
    for hook e c s gas out err
    using that intercept_closed(2) [OF rw that(1)] intercept_level [OF assms(1) that(1)] by metis
  have suicide: "I (snd (Suicide (sdb E) a (on_suicide E e a b))) \<and> n < lvl (snd (Suicide (sdb E) a (on_suicide E e a b)))"
    if "I (statedb e) \<and> n < lvl (statedb e)" for e a b
    using that assms(1) rw unfolding levels_ok_def closed_rw_def by simp
  have create: "I (f e a b) \<and> n < lvl (f e a b)"
    if "OnCreateContract (ctx E) = Some f" "I (statedb e) \<and> n < lvl (statedb e)" for f e a b
    using that assms(1) rw unfolding levels_ok_def closed_rw_def by simp
  have create2: "CanTransfer (ctx E) (f e b c) a v"
    if "OnCreateContract (ctx E) = Some f" "I (statedb e)" "CanTransfer (ctx E) (statedb e) a v" for f e a b c v
    using that rw unfolding closed_rw_def by simp
  show "closed_rw E (\<lambda>s. I s \<and> n < lvl s)"
    unfolding closed_rw_def
  proof (intro conjI)
    show "\<forall>hook e c s gas out err. InterceptContractCall (ctx E) = Some hook \<longrightarrow> I (statedb e) \<and> n < lvl (statedb e) \<longrightarrow>
        hook e c False = Some (s, gas, out, err) \<longrightarrow> I s \<and> n < lvl s" using hook by blast
  qed (simp_all add: closed_rwD [OF rw] levels_okD [OF assms(1)] suicide create create2)
qed

lemma env_ok_above: "env_ok E I \<Longrightarrow> env_ok E (\<lambda>s. I s \<and> P s)"
  by (auto simp: env_ok_def codes_ok_def)

section \<open>The invariant\<close>

definition fits :: "bytes \<Rightarrow> bitvec \<Rightarrow> bool" where
  "fits code bits \<longleftrightarrow> length code \<le> 8 * length bits"

definition cache_fits :: "deps \<Rightarrow> bitmapCache \<Rightarrow> bool" where
  "cache_fits d cache \<longleftrightarrow>
     (\<forall>h bits code. cache h = Some bits \<longrightarrow> length code \<le> max_code \<longrightarrow> Keccak256 d code = h \<longrightarrow> fits code bits)"

definition contract_fits :: "deps \<Rightarrow> Contract \<Rightarrow> bool" where
  "contract_fits d c \<longleftrightarrow>
     length (Code c) \<le> max_code \<and> (CodeHash c = 0 \<or> CodeHash c = Keccak256 d (Code c)) \<and>
     (\<forall>bits. analysis c = Some bits \<longrightarrow> fits (Code c) bits) \<and> value c \<noteq> None \<and> length (Input c) \<le> max_code"

abbreviation (input) protected :: "('s, 't) Env \<Rightarrow> 's EVM \<Rightarrow> bool" where
  "protected E e \<equiv> rules_IsByzantium (chainRules E) \<and> readOnly e"

definition evm_ok :: "('s, 't) Env \<Rightarrow> ('s \<Rightarrow> bool) \<Rightarrow> 's EVM \<Rightarrow> bool" where
  "evm_ok E I e \<longleftrightarrow>
     I (statedb e) \<and> cache_fits (lib E) (bitmaps e) \<and> length (returnData e) \<le> max_code \<and>
     (\<not> protected E e \<longrightarrow> closed_rw E I)"

definition frame_ok :: "('s, 't) Env \<Rightarrow> ('s \<Rightarrow> bool) \<Rightarrow> ('s, 't) M \<Rightarrow> bool" where
  "frame_ok E I m \<longleftrightarrow>
     evm_ok E I (evm m) \<and> contract_fits (lib E) (contract m) \<and> Len (memory m) \<le> max_memory"

text \<open>What the machine looks like to its caller: the depth and the read-only flag are as before.\<close>

definition same :: "'s EVM \<Rightarrow> 's EVM \<Rightarrow> bool" where
  "same e e' \<longleftrightarrow> depth e' = depth e \<and> readOnly e' = readOnly e"

lemma same_refl [simp]: "same e e"
  by (simp add: same_def)

lemma same_trans: "same e e' \<Longrightarrow> same e' e'' \<Longrightarrow> same e e''"
  by (simp add: same_def)

lemma frame_ok_simps [simp]:
  "frame_ok E I (m\<lparr>stack := st\<rparr>) = frame_ok E I m" "frame_ok E I (m\<lparr>pc := p\<rparr>) = frame_ok E I m"
  "frame_ok E I (m\<lparr>cost := g\<rparr>) = frame_ok E I m" "frame_ok E I (m\<lparr>trc := t\<rparr>) = frame_ok E I m"
  by (simp_all add: frame_ok_def)

lemma evm_ok_simps [simp]:
  "evm_ok E I (e\<lparr>callGasTemp := g\<rparr>) = evm_ok E I e" "evm_ok E I (e\<lparr>abort := b\<rparr>) = evm_ok E I e"
  "evm_ok E I (e\<lparr>depth := n\<rparr>) = evm_ok E I e"
  "evm_ok E I (e\<lparr>contractCreationCount := k\<rparr>) = evm_ok E I e"
  by (simp_all add: evm_ok_def)

lemma evm_ok_statedb: "evm_ok E I e \<Longrightarrow> I s \<Longrightarrow> evm_ok E I (e\<lparr>statedb := s\<rparr>)"
  by (simp add: evm_ok_def)

lemma evm_ok_D: "evm_ok E I e \<Longrightarrow> I (statedb e)" "evm_ok E I e \<Longrightarrow> \<not> protected E e \<Longrightarrow> closed_rw E I"
  by (auto simp: evm_ok_def)

lemma frame_ok_db: "frame_ok E I m \<Longrightarrow> I s \<Longrightarrow> frame_ok E I (set_db s m)"
  by (simp add: frame_ok_def set_db_def evm_ok_statedb)

section \<open>Gas functions\<close>

text \<open>What a gas function may change.\<close>

definition gas_frame :: "('s, 't) M \<Rightarrow> ('s, 't) M \<Rightarrow> bool" where
  "gas_frame m m' \<longleftrightarrow> contract m' = contract m \<and> stack m' = stack m \<and> pc m' = pc m \<and>
     store (memory m') = store (memory m) \<and> same (evm m) (evm m')"

lemma gas_frame_refl [simp]: "gas_frame m m"
  by (simp add: gas_frame_def)

lemma gas_frame_memory [simp]: "gas_frame m (m\<lparr>memory := mem\<rparr>) \<longleftrightarrow> store mem = store (memory m)"
  by (simp add: gas_frame_def)

text \<open>
  A gas result that is not a panic and that keeps the invariant; \<open>P\<close> holds of the variables and the
  cost when there is no error.
\<close>

definition gas_res ::
    "('s, 't) Env \<Rightarrow> ('s \<Rightarrow> bool) \<Rightarrow> ('s, 't) M \<Rightarrow> (('s, 't) M \<Rightarrow> u64 \<Rightarrow> bool) \<Rightarrow> ('s, 't) gas_result \<Rightarrow> bool" where
  "gas_res E I m P r \<longleftrightarrow>
     (\<exists>m' c err. r = Some (m', c, err) \<and> frame_ok E I m' \<and> gas_frame m m' \<and> (err = None \<longrightarrow> P m' c))"

lemma gas_res_Some [simp]:
  "gas_res E I m P (Some (m', c, err)) \<longleftrightarrow> frame_ok E I m' \<and> gas_frame m m' \<and> (err = None \<longrightarrow> P m' c)"
  by (simp add: gas_res_def)

text \<open>
  A gas function on \<open>n\<close> operands: \<open>w\<close> says that it may write to the state, \<open>mem\<close> that it charges
  for memory and so bounds the size, \<open>pos\<close> that the cost is not zero.
\<close>

definition gas_ok :: "('s, 't) Env \<Rightarrow> ('s \<Rightarrow> bool) \<Rightarrow> nat \<Rightarrow> bool \<Rightarrow> bool \<Rightarrow> bool \<Rightarrow> ('s, 't) gasFunc \<Rightarrow> bool" where
  "gas_ok E I n w mem pos g \<longleftrightarrow>
     (\<forall>m sz. frame_ok E I m \<longrightarrow> n \<le> length (stack m) \<longrightarrow> (w \<longrightarrow> \<not> protected E (evm m)) \<longrightarrow>
        gas_res E I m (\<lambda>m' c. (mem \<longrightarrow> unat sz \<le> max_memory) \<and> (pos \<longrightarrow> c \<noteq> 0)) (g E sz m))"

named_theorems gas_rules
named_theorems exec_rules

lemma mem_cost_ok:
  assumes "frame_ok E I m"
  obtains m' c err where "mem_cost E sz m = (m', c, err)" and "frame_ok E I m'" and "gas_frame m m'"
    and "evm m' = evm m" and "err = None \<longrightarrow> unat sz \<le> max_memory"
proof -
  obtain m' c err where r: "mem_cost E sz m = (m', c, err)" by (cases "mem_cost E sz m")
  then show ?thesis
    using assms that [of m' c err] by (auto simp: mem_cost_def memoryGasCost_def Let_def frame_ok_def Len_def
      word_less_nat_alt not_less split: if_splits)
qed

lemma SafeAdd_ge:
  assumes "env_ok E I" and "SafeAdd (lib E) x y = (z, False)"
  shows "unat z = unat x + unat y" and "x \<noteq> 0 \<or> y \<noteq> 0 \<Longrightarrow> z \<noteq> 0"
proof -
  show sum: "unat z = unat x + unat y" using SafeAdd_noovf [of "lib E" x y z] assms by (auto simp: env_ok_def)
  show "x \<noteq> 0 \<or> y \<noteq> 0 \<Longrightarrow> z \<noteq> 0" using sum by (auto simp: unat_eq_zero [symmetric] simp del: unat_eq_zero)
qed

lemma add_or_fail_ok:
  assumes "env_ok E I" and "frame_ok E I m'" and "gas_frame m m'"
    and "\<And>c. unat c = unat x + unat y \<Longrightarrow> (x \<noteq> 0 \<or> y \<noteq> 0 \<Longrightarrow> c \<noteq> 0) \<Longrightarrow> P m' c"
  shows "gas_res E I m P (add_or_fail E m' x y)"
  using SafeAdd_ge [OF assms(1), of x y] assms(2-4)
  by (cases "SafeAdd (lib E) x y") (auto simp: add_or_fail_def)

lemma gas_const [gas_rules]: "pos \<longrightarrow> k \<noteq> 0 \<Longrightarrow> gas_ok E I n w False pos (constGasFunc k)"
  by (simp add: gas_ok_def constGasFunc_def)

lemma gas_table_const [gas_rules]:
  assumes "env_ok E I"
  shows "gas_ok E I n w False True gasBalance" "gas_ok E I n w False True gasExtCodeSize"
    "gas_ok E I n w False True gasExtCodeHash" "gas_ok E I n w False True gasSLoad"
    "gas_ok E I n w False True gasPush" "gas_ok E I n w False True gasDup" "gas_ok E I n w False True gasSwap"
  using assms by (simp_all add: gas_ok_def gasBalance_def gasExtCodeSize_def gasExtCodeHash_def gasSLoad_def
    gasPush_def gasDup_def gasSwap_def env_ok_def costs_ok_def)

lemma gas_words_ok:
  assumes E: "env_ok E I" and m: "frame_ok E I m" and base: "base \<noteq> 0" and i: "i < length (stack m)"
  shows "gas_res E I m (\<lambda>m' c. unat sz \<le> max_memory \<and> c \<noteq> 0) (gas_words base i perWord E sz m)"
proof -
  obtain m' c err where mc: "mem_cost E sz m = (m', c, err)" "frame_ok E I m'" "gas_frame m m'"
    "err = None \<longrightarrow> unat sz \<le> max_memory" using mem_cost_ok [OF m] by metis
  have bk: "Back i (stack m') = Some (stack m ! i)" using i mc(3) by (simp add: Back_def gas_frame_def)
  obtain c' ov where add: "SafeAdd (lib E) c base = (c', ov)" by force
  obtain w' ov' where mul: "SafeMul (lib E) (toWordSize (Uint64 (stack m ! i))) perWord = (w', ov')" by force
  show ?thesis
  proof (cases "err = None \<and> \<not> ov \<and> IsUint64 (stack m ! i) \<and> \<not> ov'")
    case True
    then have "c' \<noteq> 0" using SafeAdd_ge(2) [OF E, of c base c'] add base by simp
    with True mc bk add mul show ?thesis
      by (auto simp: gas_words_def Uint64WithOverflow_def intro!: add_or_fail_ok [OF E])
  next
    case False
    with mc bk add mul show ?thesis
      by (auto simp: gas_words_def Uint64WithOverflow_def split: option.split)
  qed
qed

lemma costs:
  assumes "env_ok E I"
  shows "JumpdestGas (lib E) \<noteq> 0" "LogGas (lib E) \<noteq> 0" "Sha3Gas (lib E) \<noteq> 0" "CreateGas (lib E) \<noteq> 0"
    "Create2Gas (lib E) \<noteq> 0" "gt_ExtcodeCopy (gasTable E) \<noteq> 0" "gt_Calls (gasTable E) \<noteq> 0"
  using assms by (simp_all add: env_ok_def costs_ok_def)

lemma gas_copy [gas_rules]:
  assumes "env_ok E I"
  shows "gas_ok E I 3 w True True gasCallDataCopy" "gas_ok E I 3 w True True gasReturnDataCopy"
    "gas_ok E I 3 w True True gasCodeCopy" "gas_ok E I 4 w True True gasExtCodeCopy"
    "gas_ok E I 2 w True True gasSha3" "gas_ok E I 4 w True True gasCreate2"
  by (simp_all add: gas_ok_def gas_words_ok [OF assms] costs [OF assms] gasCallDataCopy_def gasReturnDataCopy_def
    gasCodeCopy_def gasExtCodeCopy_def gasSha3_def gasCreate2_def)

lemma closed_rw_frame: "frame_ok E I m \<Longrightarrow> \<not> protected E (evm m) \<Longrightarrow> closed_rw E I \<and> I (db m)"
  by (auto simp: frame_ok_def evm_ok_def)

lemma gas_frame_db [simp]: "gas_frame m (set_db s m)"
  by (simp add: gas_frame_def set_db_def same_def)

lemma gas_sstore [gas_rules]:
  assumes "env_ok E I" shows "gas_ok E I 2 True False True gasSStore"
  using assms unfolding gas_ok_def
  by (auto simp: gasSStore_def Back_def Let_def env_ok_def costs_ok_def closed_rwD frame_ok_db dest: closed_rw_frame
    intro!: frame_ok_db)

lemma gas_mem_base_ok:
  assumes E: "env_ok E I" and m: "frame_ok E I m" and base: "base \<noteq> 0"
  shows "gas_res E I m (\<lambda>m' c. unat sz \<le> max_memory \<and> c \<noteq> 0) (gas_mem_base f base E sz m)"
proof -
  obtain m' c err where "mem_cost E sz m = (m', c, err)" "frame_ok E I m'" "gas_frame m m'"
    "err = None \<longrightarrow> unat sz \<le> max_memory" using mem_cost_ok [OF m] by metis
  then show ?thesis
    using base by (cases err) (auto simp: gas_mem_base_def intro!: add_or_fail_ok [OF E])
qed

lemma gas_memory [gas_rules]:
  assumes "env_ok E I"
  shows "gas_ok E I n w True True gasMLoad" "gas_ok E I n w True True gasMStore" "gas_ok E I n w True True gasMStore8"
    "gas_ok E I n w True True gasCreate"
  by (simp_all add: gas_ok_def gas_mem_base_ok [OF assms] costs [OF assms] gasMLoad_def gasMStore_def gasMStore8_def
    gasCreate_def)

lemma gas_return [gas_rules]:
  "gas_ok E I n w True False gasReturn" "gas_ok E I n w True False gasRevert"
  unfolding gas_ok_def gasReturn_def gasRevert_def by (metis mem_cost_ok gas_res_Some)+

lemma gas_exp [gas_rules]:
  assumes E: "env_ok E I" shows "gas_ok E I 2 w False True gasExp"
  unfolding gas_ok_def by (auto simp: gasExp_def Back_def Let_def intro!: add_or_fail_ok [OF E])

lemma gas_suicide [gas_rules]: "gas_ok E I 1 True False False gasSuicide"
  unfolding gas_ok_def
  by (auto simp: gasSuicide_def Back_def Let_def closed_rwD dest: closed_rw_frame intro!: frame_ok_db)

lemma gas_log [gas_rules]:
  assumes E: "env_ok E I" and "2 \<le> n" shows "gas_ok E I n w True True (makeGasLog k)"
  unfolding gas_ok_def
proof (intro allI impI)
  fix m :: "('a, 'b) M" and sz
  assume m: "frame_ok E I m" and n: "n \<le> length (stack m)"
  obtain m' c err where mc: "mem_cost E sz m = (m', c, err)" "frame_ok E I m'" "gas_frame m m'"
    "err = None \<longrightarrow> unat sz \<le> max_memory" using mem_cost_ok [OF m] by metis
  have bk: "Back 1 (stack m) = Some (stack m ! 1)" using n \<open>2 \<le> n\<close> by (simp add: Back_def)
  obtain c1 o1 where add: "SafeAdd (lib E) c (LogGas (lib E)) = (c1, o1)" by force
  obtain c2 o2 where add2: "SafeAdd (lib E) c1 (k * LogTopicGas (lib E)) = (c2, o2)" by force
  obtain c3 o3 where mul: "SafeMul (lib E) (Uint64 (stack m ! 1)) (LogDataGas (lib E)) = (c3, o3)" by force
  show "gas_res E I m (\<lambda>m' c. (True \<longrightarrow> unat sz \<le> max_memory) \<and> (True \<longrightarrow> c \<noteq> 0)) (makeGasLog k E sz m)"
  proof (cases "IsUint64 (stack m ! 1) \<and> err = None \<and> \<not> o1 \<and> \<not> o2 \<and> \<not> o3")
    case True
    have "LogGas (lib E) \<noteq> 0" using E by (simp add: env_ok_def costs_ok_def)
    with True have "c1 \<noteq> 0" using SafeAdd_ge(2) [OF E, of c _ c1] add by simp
    with True have "c2 \<noteq> 0" using SafeAdd_ge(2) [OF E, of c1 _ c2] add2 by simp
    with True mc bk add add2 mul show ?thesis
      by (auto simp: makeGasLog_def Uint64WithOverflow_def intro!: add_or_fail_ok [OF E])
  next
    case False
    with m mc bk add add2 mul show ?thesis
      by (auto simp: makeGasLog_def Uint64WithOverflow_def split: option.split)
  qed
qed

text \<open>The stipend that a call with a value adds to the gas it passes on.\<close>

definition stipend :: "('s, 't) Env \<Rightarrow> u256 \<Rightarrow> u64" where
  "stipend E v = (if v \<noteq> 0 then CallStipend (lib E) else 0)"

text \<open>A call whose cost covers the gas passed on and the stipend.\<close>

definition covers :: "('s, 't) Env \<Rightarrow> u256 \<Rightarrow> u64 \<Rightarrow> ('s, 't) M \<Rightarrow> u64 \<Rightarrow> bool" where
  "covers E v sz m c \<longleftrightarrow> unat sz \<le> max_memory \<and> unat (callGasTemp (evm m)) + unat (stipend E v) < unat c"

lemma gas_pass_on_ok:
  assumes E: "env_ok E I" and m: "frame_ok E I m'" "gas_frame m m'" and "stack m \<noteq> []"
    and gas: "unat (stipend E v) < unat gas" and "unat sz \<le> max_memory"
  shows "gas_res E I m (covers E v sz) (gas_pass_on E m' gas)"
proof -
  have bk: "Back 0 (stack m') = Some (stack m ! 0)" using m(2) assms(4) by (auto simp: gas_frame_def Back_def)
  obtain temp err where cg: "callGas (gasTable E) (Gas (contract m')) gas (stack m ! 0) = (temp, err)" by force
  let ?m = "m'\<lparr>evm := (evm m')\<lparr>callGasTemp := temp\<rparr>\<rparr>"
  have ok: "frame_ok E I ?m" "gas_frame m ?m" using m by (simp_all add: frame_ok_def gas_frame_def same_def)
  show ?thesis
  proof (cases err)
    case None
    have "gas_res E I m (covers E v sz) (add_or_fail E ?m gas temp)"
      by (rule add_or_fail_ok [OF E ok]) (use gas assms(6) in \<open>simp add: covers_def\<close>)
    with None bk cg show ?thesis by (simp add: gas_pass_on_def)
  qed (use ok bk cg in \<open>simp add: gas_pass_on_def\<close>)
qed

lemma unat_plus_u64: "unat x + unat y < 2 ^ 64 \<Longrightarrow> unat (x + y :: u64) = unat x + unat y"
  by (simp add: unat_word_ariths)

lemma call_costs:
  assumes "env_ok E I"
  shows "unat (gt_Calls (gasTable E)) + unat (CallNewAccountGas (lib E)) + unat (CallValueTransferGas (lib E)) < 2 ^ 64"
    and "unat (CallStipend (lib E)) \<le> unat (CallValueTransferGas (lib E))" and "0 < unat (gt_Calls (gasTable E))"
  using assms by (simp_all add: env_ok_def costs_ok_def word_le_nat_alt unat_gt_0)

text \<open>The base costs of a call, with and without the creation of the account.\<close>

lemma call_base:
  assumes "env_ok E I" and "g = gt_Calls (gasTable E) \<or> g = gt_Calls (gasTable E) + CallNewAccountGas (lib E)"
  shows "unat (stipend E v) < unat (if v \<noteq> 0 then g + CallValueTransferGas (lib E) else g)"
  using assms(2) call_costs [OF assms(1)] by (auto simp: stipend_def unat_plus_u64)

lemma gas_charge_ok:
  assumes E: "env_ok E I" and m: "frame_ok E I m" "stack m \<noteq> []" and gas: "unat (stipend E v) < unat gas"
  shows "gas_res E I m (covers E v sz) (gas_charge E gas sz m)"
proof -
  obtain m' c err where mc: "mem_cost E sz m = (m', c, err)" "frame_ok E I m'" "gas_frame m m'"
    "err = None \<longrightarrow> unat sz \<le> max_memory" using mem_cost_ok [OF m(1)] by metis
  obtain g ov where add: "SafeAdd (lib E) gas c = (g, ov)" by force
  have "gas_res E I m (covers E v sz) (gas_pass_on E m' g)" if "err = None" "\<not> ov"
    by (rule gas_pass_on_ok [OF E mc(2,3) m(2)]) (use SafeAdd_ge(1) [OF E, of gas c g] add that gas mc(4) in auto)
  with mc add show ?thesis by (auto simp: gas_charge_def split: option.split)
qed

lemma gas_call:
  assumes E: "env_ok E I" and m: "frame_ok E I m" "7 \<le> length (stack m)"
  shows "gas_res E I m (covers E (stack m ! 2) sz) (gasCall E sz m)"
    and "gas_res E I m (covers E (stack m ! 2) sz) (gasCallCode E sz m)"
proof -
  have st: "stack m \<noteq> []" using m(2) by auto
  have bk: "Back 2 (stack m) = Some (stack m ! 2)" "Back (Suc 0) (stack m) = Some (stack m ! Suc 0)"
    using m(2) by (simp_all add: Back_def)
  note charge = gas_charge_ok [OF E m(1) st call_base [OF E]]
  show "gas_res E I m (covers E (stack m ! 2) sz) (gasCallCode E sz m)"
    using charge [of "gt_Calls (gasTable E)" "stack m ! 2" sz] bk by (simp add: gasCallCode_def Let_def)
  show "gas_res E I m (covers E (stack m ! 2) sz) (gasCall E sz m)"
    using charge [of "gt_Calls (gasTable E)" "stack m ! 2" sz]
      charge [of "gt_Calls (gasTable E) + CallNewAccountGas (lib E)" "stack m ! 2" sz] bk
    by (auto simp: gasCall_def Let_def split: if_splits)
qed

lemma gas_plain_call:
  assumes E: "env_ok E I" and m: "frame_ok E I m" "6 \<le> length (stack m)"
  shows "gas_res E I m (covers E 0 sz) (gasDelegateCall E sz m)"
    and "gas_res E I m (covers E 0 sz) (gasStaticCall E sz m)"
proof -
  obtain m' c err where mc: "mem_cost E sz m = (m', c, err)" "frame_ok E I m'" "gas_frame m m'"
    "err = None \<longrightarrow> unat sz \<le> max_memory" using mem_cost_ok [OF m(1)] by metis
  obtain g ov where add: "SafeAdd (lib E) c (gt_Calls (gasTable E)) = (g, ov)" by force
  have "gas_res E I m (covers E 0 sz) (gas_pass_on E m' g)" if "err = None" "\<not> ov"
    by (rule gas_pass_on_ok [OF E mc(2,3)])
      (use SafeAdd_ge(1) [OF E, of c _ g] add that mc(4) m(2) call_costs(3) [OF E] in \<open>auto simp: stipend_def\<close>)
  with mc add show "gas_res E I m (covers E 0 sz) (gasDelegateCall E sz m)"
    and "gas_res E I m (covers E 0 sz) (gasStaticCall E sz m)"
    by (auto simp: gasDelegateCall_def gasStaticCall_def gas_plain_call_def split: option.split)
qed

end
