(* ===== verification/VmExec.thy ===== *)
theory VmExec
  imports VmSafety
begin

text \<open>
  Every instruction returns without a panic and keeps the invariant, when its operands are on the
  stack and the memory has been expanded.
\<close>

section \<open>Instructions\<close>

text \<open>An instruction that returns, with the invariant and the gas kept.\<close>

definition exec_res :: "('s, 't) Env \<Rightarrow> ('s \<Rightarrow> bool) \<Rightarrow> ('s, 't) M \<Rightarrow> ('s, 't) result \<Rightarrow> bool" where
  "exec_res E I m r \<longleftrightarrow>
     (\<exists>m' ret err. r = Some (m', ret, err) \<and> frame_ok E I m' \<and> same (evm m) (evm m') \<and>
        Gas (contract m') = Gas (contract m) \<and> length ret \<le> max_code)"

lemma exec_res_Some [simp]:
  "exec_res E I m (Some (m', ret, err)) \<longleftrightarrow> frame_ok E I m' \<and> same (evm m) (evm m') \<and>
     Gas (contract m') = Gas (contract m) \<and> length ret \<le> max_code"
  by (simp add: exec_res_def)

text \<open>The memory covers the size that the operation has asked for.\<close>

definition mem_ready :: "memorySizeFunc option \<Rightarrow> ('s, 't) M \<Rightarrow> bool" where
  "mem_ready ms m \<longleftrightarrow>
     (case ms of None \<Rightarrow> True | Some f \<Rightarrow> \<exists>x. f (stack m) = Some (x, False) \<and> unat x \<le> Len (memory m))"

definition exec_ok ::
    "('s, 't) Env \<Rightarrow> ('s \<Rightarrow> bool) \<Rightarrow> OpCode \<Rightarrow> nat \<Rightarrow> bool \<Rightarrow> memorySizeFunc option \<Rightarrow> ('s, 't) executionFunc \<Rightarrow> bool" where
  "exec_ok E I op n w ms f \<longleftrightarrow>
     (\<forall>C m. frame_ok E I m \<longrightarrow> n \<le> length (stack m) \<longrightarrow> (w \<longrightarrow> \<not> protected E (evm m)) \<longrightarrow> mem_ready ms m \<longrightarrow>
        (op \<noteq> 0 \<longrightarrow> unat (pc m) < length (Code (contract m))) \<longrightarrow> exec_res E I m (f E C m))"

lemma operands:
  "1 \<le> length st \<longleftrightarrow> (\<exists>a st'. st = a # st')"
  "Suc 0 \<le> length st \<longleftrightarrow> (\<exists>a st'. st = a # st')"
  "2 \<le> length st \<longleftrightarrow> (\<exists>a b st'. st = a # b # st')"
  "3 \<le> length st \<longleftrightarrow> (\<exists>a b c st'. st = a # b # c # st')"
  "4 \<le> length st \<longleftrightarrow> (\<exists>a b c d st'. st = a # b # c # d # st')"
  "6 \<le> length st \<longleftrightarrow> (\<exists>a b c d e f st'. st = a # b # c # d # e # f # st')"
  "7 \<le> length st \<longleftrightarrow> (\<exists>a b c d e f g st'. st = a # b # c # d # e # f # g # st')"
  by (auto simp: Suc_le_length_iff numeral_eq_Suc)

lemma stack_ops:
  assumes "frame_ok E I m"
  shows "1 \<le> length (stack m) \<Longrightarrow> exec_res E I m (unop g1 m)"
    and "2 \<le> length (stack m) \<Longrightarrow> exec_res E I m (binop g2 m)"
    and "3 \<le> length (stack m) \<Longrightarrow> exec_res E I m (ternop g3 m)"
    and "exec_res E I m (push_word v m)"
  using assms by (auto simp: vm_defs operands)

lemma exec_unops [exec_rules]:
  "exec_ok E I op 1 w None opNot" "exec_ok E I op 1 w None opIszero" "exec_ok E I op 1 w None opBalance"
  "exec_ok E I op 1 w None opExtCodeSize" "exec_ok E I op 1 w None opExtCodeHash"
  "exec_ok E I op 1 w None opBlockhash" "exec_ok E I op 1 w None opSload"
  by (simp_all add: exec_ok_def stack_ops opNot_def opIszero_def opBalance_def opExtCodeSize_def opExtCodeHash_def
    opBlockhash_def opSload_def)

lemma exec_binops [exec_rules]:
  "exec_ok E I op 2 w None opAdd" "exec_ok E I op 2 w None opSub" "exec_ok E I op 2 w None opMul"
  "exec_ok E I op 2 w None opDiv" "exec_ok E I op 2 w None opSdiv" "exec_ok E I op 2 w None opMod"
  "exec_ok E I op 2 w None opSmod" "exec_ok E I op 2 w None opExp" "exec_ok E I op 2 w None opSignExtend"
  "exec_ok E I op 2 w None opLt" "exec_ok E I op 2 w None opGt" "exec_ok E I op 2 w None opSlt"
  "exec_ok E I op 2 w None opSgt" "exec_ok E I op 2 w None opEq" "exec_ok E I op 2 w None opAnd"
  "exec_ok E I op 2 w None opOr" "exec_ok E I op 2 w None opXor" "exec_ok E I op 2 w None opByte"
  "exec_ok E I op 2 w None opSHL" "exec_ok E I op 2 w None opSHR" "exec_ok E I op 2 w None opSAR"
  by (simp_all add: exec_ok_def stack_ops opAdd_def opSub_def opMul_def opDiv_def opSdiv_def opMod_def opSmod_def
    opExp_def opSignExtend_def opLt_def opGt_def opSlt_def opSgt_def opEq_def opAnd_def opOr_def opXor_def opByte_def
    opSHL_def opSHR_def opSAR_def)

lemma exec_ternops [exec_rules]: "exec_ok E I op 3 w None opAddmod" "exec_ok E I op 3 w None opMulmod"
  by (simp_all add: exec_ok_def stack_ops opAddmod_def opMulmod_def)

lemma exec_pushes [exec_rules]:
  "exec_ok E I op n w None opAddress" "exec_ok E I op n w None opOrigin" "exec_ok E I op n w None opCaller"
  "exec_ok E I op n w None opCallDataSize" "exec_ok E I op n w None opCodeSize" "exec_ok E I op n w None opGasprice"
  "exec_ok E I op n w None opReturnDataSize" "exec_ok E I op n w None opCoinbase" "exec_ok E I op n w None opTimestamp"
  "exec_ok E I op n w None opNumber" "exec_ok E I op n w None opDifficulty" "exec_ok E I op n w None opGasLimit"
  "exec_ok E I op n w None opSelfBalance" "exec_ok E I op n w None opPc" "exec_ok E I op n w None opMsize"
  "exec_ok E I op n w None opGas"
  by (simp_all add: exec_ok_def stack_ops opAddress_def opOrigin_def opCaller_def opCallDataSize_def opCodeSize_def
    opGasprice_def opReturnDataSize_def opCoinbase_def opTimestamp_def opNumber_def opDifficulty_def opGasLimit_def
    opSelfBalance_def opPc_def opMsize_def opGas_def)

lemma exec_nil_values [exec_rules]:
  "exec_ok E I op n w None opCallValue" "env_ok E I \<Longrightarrow> exec_ok E I op n w None opChainID"
  by (auto simp: exec_ok_def opCallValue_def opChainID_def push_word_def push_def frame_ok_def contract_fits_def
    env_ok_def outside_ok_def)

lemma exec_simple [exec_rules]:
  "exec_ok E I op 1 w None opPop" "exec_ok E I op n w None opJumpdest" "exec_ok E I op n w None opStop"
  "1 \<le> k \<Longrightarrow> k \<le> n \<Longrightarrow> exec_ok E I op n w None (makeDup k)" "k < n \<Longrightarrow> exec_ok E I op n w None (makeSwap k)"
  by (auto simp: exec_ok_def opPop_def opJumpdest_def opStop_def makeDup_def makeSwap_def pop_def dup_def swap_def operands)

lemma set_db_fields [simp]:
  "contract (set_db s m) = contract m" "stack (set_db s m) = stack m" "memory (set_db s m) = memory m"
  "pc (set_db s m) = pc m" "same e (evm (set_db s m)) = same e (evm m)"
  by (simp_all add: set_db_def same_def)

lemma exec_db: "frame_ok E I m \<Longrightarrow> I s \<Longrightarrow> exec_res E I m (ok (set_db s (m\<lparr>stack := st\<rparr>)))"
  by (simp add: frame_ok_db)

lemma exec_sstore [exec_rules]: "exec_ok E I op 2 True None opSstore"
  unfolding exec_ok_def
proof (intro allI impI)
  fix C and m :: "('a, 'b) M"
  assume m: "frame_ok E I m" "2 \<le> length (stack m)" "True \<longrightarrow> \<not> protected E (evm m)"
  then have "closed_rw E I" "I (db m)" using closed_rw_frame by blast+
  with m show "exec_res E I m (opSstore E C m)"
    by (auto simp: opSstore_def operands closed_rwD intro!: frame_ok_db)
qed

lemma push_word_pc: "frame_ok E I m \<Longrightarrow> exec_res E I m (push_word v (m\<lparr>pc := p\<rparr>))"
  by (simp add: push_word_def)

lemma exec_push1 [exec_rules]: "exec_ok E I op n w None opPush1"
  by (simp add: exec_ok_def opPush1_def Let_def push_word_pc)

lemma exec_push [exec_rules]:
  assumes "op \<noteq> 0" shows "exec_ok E I op n w None (makePush k b)"
  unfolding exec_ok_def
proof (intro allI impI)
  fix C and m :: "('a, 'b) M"
  assume m: "frame_ok E I m" and "op \<noteq> 0 \<longrightarrow> unat (pc m) < length (Code (contract m))"
  then have p: "unat (pc m) < length (Code (contract m))" using assms by simp
  have len: "length (Code (contract m)) \<le> max_code" using m by (simp add: frame_ok_def contract_fits_def)
  have inc: "unat (pc m + 1) = unat (pc m) + 1" using p len by (simp add: unat_word_ariths)
  have "sint (pc m + 1) = int (unat (pc m) + 1)" using sint_u64 [of "pc m + 1"] p len inc by simp
  then obtain bs where "slice (Code (contract m)) (min (sint (pc m + 1)) (int (length (Code (contract m)))))
      (min (min (sint (pc m + 1)) (int (length (Code (contract m)))) + int b) (int (length (Code (contract m))))) = Some bs"
    by (auto simp: slice_def)
  then show "exec_res E I m (makePush k b E C m)"
    using push_word_pc [OF m] by (simp add: makePush_def Let_def)
qed

lemma frame_ok_len: "frame_ok E I m \<Longrightarrow> Len (memory m) \<le> max_memory"
  by (simp add: frame_ok_def)

lemma frame_ok_memory: "frame_ok E I m \<Longrightarrow> Len mem = Len (memory m) \<Longrightarrow> frame_ok E I (m\<lparr>memory := mem\<rparr>)"
  by (simp add: frame_ok_def)

lemma mem_ready_at:
  "mem_ready (Some f) m \<Longrightarrow> f = mem_at i j \<Longrightarrow> i < length (stack m) \<Longrightarrow> j < length (stack m) \<Longrightarrow>
   inside (stack m ! i) (stack m ! j) (memory m)"
  by (auto simp: mem_ready_def mem_at_def Back_def intro: inside_calc)

lemma mem_ready_word:
  assumes "mem_ready (Some f) m" and "f (stack m) = Some (calcMemSize64WithUint a k)" and "k \<noteq> 0"
  shows "IsUint64 a" and "unat a + unat k \<le> Len (memory m)"
  using assms calcMemSize64WithUint_ok [of a k] by (auto simp: mem_ready_def)

lemma memory_at:
  "memorySha3 = mem_at 0 1" "memoryCallDataCopy = mem_at 0 2" "memoryReturnDataCopy = mem_at 0 2"
  "memoryCodeCopy = mem_at 0 2" "memoryExtCodeCopy = mem_at 1 3" "memoryCreate = mem_at 1 2"
  "memoryCreate2 = mem_at 1 2" "memoryReturn = mem_at 0 1" "memoryRevert = mem_at 0 1" "memoryLog = mem_at 0 1"
  by (simp_all add: vm_defs fun_eq_iff)

lemma take_region: "Len mem \<le> max_memory \<Longrightarrow> length (take n (drop k (store mem))) \<le> max_code"
  by (simp add: Len_def)

lemma exec_sha3 [exec_rules]:
  assumes "closed_ro E lvl k I" shows "exec_ok E I op 2 w (Some memorySha3) opSha3"
  unfolding exec_ok_def
proof (intro allI impI)
  fix C and m :: "('a, 'b) M"
  assume m: "frame_ok E I m" "2 \<le> length (stack m)" and r: "mem_ready (Some memorySha3) m"
  have "I (db m)" using m(1) by (simp add: frame_ok_def evm_ok_def)
  moreover have "inside (stack m ! 0) (stack m ! 1) (memory m)" by (rule mem_ready_at [OF r memory_at(1)]) (use m(2) in linarith)+
  ultimately show "exec_res E I m (opSha3 E C m)"
    using m GetPtr_inside [OF _ frame_ok_len [OF m(1)]]
    by (auto simp: opSha3_def operands Let_def closed_roD [OF assms] frame_ok_db)
qed

lemma exec_halt [exec_rules]:
  "exec_ok E I op 2 w (Some memoryReturn) opReturn" "exec_ok E I op 2 w (Some memoryRevert) opRevert"
proof -
  have "exec_res E I m (ret_slice m)"
    if m: "frame_ok E I m" "2 \<le> length (stack m)" and r: "mem_ready (Some (mem_at 0 1)) m" for m :: "('a, 'b) M"
  proof -
    have "inside (stack m ! 0) (stack m ! 1) (memory m)" by (rule mem_ready_at [OF r refl]) (use m(2) in linarith)+
    then show ?thesis
      using m GetPtr_inside [OF _ frame_ok_len [OF m(1)]] take_region [OF frame_ok_len [OF m(1)]]
      by (auto simp: ret_slice_def operands)
  qed
  then show "exec_ok E I op 2 w (Some memoryReturn) opReturn" "exec_ok E I op 2 w (Some memoryRevert) opRevert"
    by (simp_all add: exec_ok_def opReturn_def opRevert_def memory_at)
qed

lemma copy_data_ok:
  assumes m: "frame_ok E I m" and "inside memOffset len (memory m)" and src: "length src \<le> max_code"
  shows "exec_res E I m (copy_data (lib E) src memOffset dataOffset len (m\<lparr>stack := st\<rparr>))"
proof -
  have "unat (Uint64 len) \<le> max_memory"
    using assms(2) frame_ok_len [OF m] by (cases "len = 0") (auto simp: inside_def unat_Uint64)
  then have "\<exists>bs. getData (lib E) src start (Uint64 len) = Some bs" for start
    using src by (intro getData_total) simp_all
  then obtain bs where bs: "getData (lib E) src (if \<not> IsUint64 dataOffset then 0xffffffffffffffff else Uint64 dataOffset)
      (Uint64 len) = Some bs" by blast
  obtain mem where mem: "Memory_Set (Uint64 memOffset) (Uint64 len) bs (memory m) = Some mem" "Len mem = Len (memory m)"
    using Memory_Set_inside [OF assms(2) frame_ok_len [OF m]] by blast
  show ?thesis
    using m bs mem by (simp add: copy_data_def Uint64WithOverflow_def Let_def frame_ok_memory [of E I "m\<lparr>stack := st\<rparr>"])
qed

lemma exec_copies [exec_rules]:
  "exec_ok E I op 3 w (Some memoryCallDataCopy) opCallDataCopy" "exec_ok E I op 3 w (Some memoryCodeCopy) opCodeCopy"
proof -
  have "exec_res E I m (opCallDataCopy E C m) \<and> exec_res E I m (opCodeCopy E C m)"
    if m: "frame_ok E I m" "3 \<le> length (stack m)" and r: "mem_ready (Some (mem_at 0 2)) m" for m :: "('a, 'b) M" and C
  proof -
    have "inside (stack m ! 0) (stack m ! 2) (memory m)" by (rule mem_ready_at [OF r refl]) (use m(2) in linarith)+
    moreover have "length (Input (contract m)) \<le> max_code" "length (Code (contract m)) \<le> max_code"
      using m(1) by (simp_all add: frame_ok_def contract_fits_def)
    ultimately show ?thesis
      using m by (auto simp: opCallDataCopy_def opCodeCopy_def operands intro!: copy_data_ok)
  qed
  then show "exec_ok E I op 3 w (Some memoryCallDataCopy) opCallDataCopy"
    "exec_ok E I op 3 w (Some memoryCodeCopy) opCodeCopy"
    by (simp_all add: exec_ok_def memory_at)
qed

lemma codes_len: "env_ok E I \<Longrightarrow> I s \<Longrightarrow> length (GetCode (sdb E) a s) \<le> max_code"
  by (simp add: env_ok_def codes_ok_def)

lemma exec_extcodecopy [exec_rules]:
  assumes E: "env_ok E I" shows "exec_ok E I op 4 w (Some memoryExtCodeCopy) opExtCodeCopy"
  unfolding exec_ok_def
proof (intro allI impI)
  fix C and m :: "('a, 'b) M"
  assume m: "frame_ok E I m" "4 \<le> length (stack m)" and r: "mem_ready (Some memoryExtCodeCopy) m"
  have "inside (stack m ! 1) (stack m ! 3) (memory m)" by (rule mem_ready_at [OF r memory_at(5)]) (use m(2) in linarith)+
  moreover have "I (db m)" using m(1) by (simp add: frame_ok_def evm_ok_def)
  ultimately show "exec_res E I m (opExtCodeCopy E C m)"
    using m codes_len [OF E] by (auto simp: opExtCodeCopy_def operands intro!: copy_data_ok)
qed

lemma exec_mem_words [exec_rules]:
  "exec_ok E I op 1 w (Some memoryMLoad) opMload" "exec_ok E I op 2 w (Some memoryMStore) opMstore"
  "exec_ok E I op 2 w (Some memoryMStore8) opMstore8"
proof -
  have load: "exec_res E I m (opMload E C m)"
    if m: "frame_ok E I m" "1 \<le> length (stack m)" and r: "mem_ready (Some memoryMLoad) m" for m :: "('a, 'b) M" and C
  proof -
    obtain a st where st: "stack m = a # st" using m(2) by (auto simp: operands)
    have a: "IsUint64 a" "unat a + 32 \<le> Len (memory m)"
      using mem_ready_word [OF r, of a 32] st by (simp_all add: memoryMLoad_def Back_def)
    then have "sint (Uint64 a) = int (unat a)" using frame_ok_len [OF m(1)] by (simp add: sint_u64 unat_Uint64)
    then have "GetPtr (sint (Uint64 a)) 32 (memory m) = Some (take 32 (drop (unat a) (store (memory m))))"
      using GetPtr_region [of 32 "unat a" "memory m"] a(2) by (simp add: Len_def)
    then show ?thesis using m st by (simp add: opMload_def)
  qed
  have store: "exec_res E I m (opMstore E C m)"
    if m: "frame_ok E I m" "2 \<le> length (stack m)" and r: "mem_ready (Some memoryMStore) m" for m :: "('a, 'b) M" and C
  proof -
    obtain a b st where st: "stack m = a # b # st" using m(2) by (auto simp: operands)
    have "IsUint64 a" "unat a + 32 \<le> Len (memory m)"
      using mem_ready_word [OF r, of a 32] st by (simp_all add: memoryMStore_def Back_def)
    then obtain mem where "Set32 (Uint64 a) b (memory m) = Some mem" "Len mem = Len (memory m)"
      using Set32_inside frame_ok_len [OF m(1)] by blast
    then show ?thesis using m st by (simp add: opMstore_def frame_ok_memory [of E I "m\<lparr>stack := st\<rparr>"])
  qed
  have byte: "exec_res E I m (opMstore8 E C m)"
    if m: "frame_ok E I m" "2 \<le> length (stack m)" and r: "mem_ready (Some memoryMStore8) m" for m :: "('a, 'b) M" and C
  proof -
    obtain a b st where st: "stack m = a # b # st" using m(2) by (auto simp: operands)
    have "IsUint64 a" "unat a + 1 \<le> Len (memory m)"
      using mem_ready_word [OF r, of a 1] st by (simp_all add: memoryMStore8_def Back_def)
    then show ?thesis
      using m st by (simp add: opMstore8_def unat_Uint64 frame_ok_def Len_def)
  qed
  from load store byte show "exec_ok E I op 1 w (Some memoryMLoad) opMload"
    "exec_ok E I op 2 w (Some memoryMStore) opMstore" "exec_ok E I op 2 w (Some memoryMStore8) opMstore8"
    by (simp_all add: exec_ok_def)
qed

lemma fits_codeSegment: "fits code bits \<Longrightarrow> p < length code \<Longrightarrow> \<exists>b. codeSegment bits p = Some b"
  by (simp add: fits_def codeSegment_def)

lemma codeBitmap_fits: "\<exists>bits. codeBitmap code = Some bits \<and> fits code bits"
proof -
  obtain bits where b: "codeBitmap code = Some bits"
    and s: "\<forall>p<length code. codeSegment bits p = Some (code_mask 0 code ! p)" using codeBitmap_correct [of code] by auto
  have "fits code bits"
  proof (cases code rule: rev_cases)
    case (snoc xs x)
    then have "codeSegment bits (length xs) \<noteq> None" using s by simp
    with snoc show ?thesis by (auto simp: fits_def codeSegment_def split: if_splits)
  qed (simp add: fits_def)
  with b show ?thesis by blast
qed

lemma cache_fits_update:
  assumes "env_ok E I" and "cache_fits (lib E) cache" and "length code \<le> max_code" and "fits code bits"
  shows "cache_fits (lib E) (cache(Keccak256 (lib E) code \<mapsto> bits))"
  using assms unfolding cache_fits_def env_ok_def codes_ok_def fits_def by (metis fun_upd_apply option.inject)

lemma validJumpdest_total:
  assumes E: "env_ok E I" and cache: "cache_fits (lib E) cache" and c: "contract_fits (lib E) c"
  shows "\<exists>cache' c' b. validJumpdest cache c dest = Some (cache', c', b) \<and> cache_fits (lib E) cache' \<and>
    contract_fits (lib E) c' \<and> Gas c' = Gas c"
proof (cases "\<not> IsUint64 dest \<or> length (Code c) \<le> unat (Uint64 dest) \<or> Code c ! unat (Uint64 dest) \<noteq> JUMPDEST")
  case True
  with cache c show ?thesis by (auto simp: validJumpdest_def Uint64WithOverflow_def)
next
  case False
  let ?p = "unat (Uint64 dest)"
  have p: "?p < length (Code c)" using False by simp
  have len: "length (Code c) \<le> max_code" using c by (simp add: contract_fits_def)
  have seg: "\<exists>b. codeSegment bits ?p = Some b" if "fits (Code c) bits" for bits using fits_codeSegment [OF that p] .
  have upd: "contract_fits (lib E) (c\<lparr>analysis := Some bits\<rparr>)" if "fits (Code c) bits" for bits
    using c that by (simp add: contract_fits_def)
  obtain new where new: "codeBitmap (Code c) = Some new" "fits (Code c) new" using codeBitmap_fits by blast
  have "\<exists>cache' c' b. isCode cache c (Uint64 dest) = Some (cache', c', b) \<and> cache_fits (lib E) cache' \<and>
      contract_fits (lib E) c' \<and> Gas c' = Gas c"
  proof (cases "analysis c")
    case (Some bits)
    then have "fits (Code c) bits" using c by (simp add: contract_fits_def)
    with Some seg [of bits] cache c show ?thesis by (auto simp: isCode_def)
  next
    case None
    show ?thesis
    proof (cases "CodeHash c = 0")
      case True
      with None new seg [of new] upd [of new] cache show ?thesis by (auto simp: isCode_def)
    next
      case False
      then have h: "CodeHash c = Keccak256 (lib E) (Code c)" using c by (simp add: contract_fits_def)
      show ?thesis
      proof (cases "cache (CodeHash c)")
        case (Some bits)
        then have "fits (Code c) bits" using cache len h unfolding cache_fits_def by metis
        with Some None False seg [of bits] upd [of bits] cache show ?thesis
          by (auto simp: isCode_def getCodeBitmapCached_def)
      next
        case miss: None
        have "cache_fits (lib E) (cache(CodeHash c \<mapsto> new))"
          unfolding h by (rule cache_fits_update [OF E cache len new(2)])
        with miss None False new seg [of new] upd [of new] show ?thesis
          by (auto simp: isCode_def getCodeBitmapCached_def)
      qed
    qed
  qed
  with False show ?thesis by (simp add: validJumpdest_def Uint64WithOverflow_def)
qed

lemma jump_to_ok:
  assumes E: "env_ok E I" and m: "frame_ok E I m"
  shows "exec_res E I m (jump_to pos (m\<lparr>stack := st\<rparr>))"
proof -
  have "cache_fits (lib E) (bitmaps (evm m))" "contract_fits (lib E) (contract m)"
    using m by (simp_all add: frame_ok_def evm_ok_def)
  from validJumpdest_total [OF E this, of pos] obtain cache c b
    where v: "validJumpdest (bitmaps (evm m)) (contract m) pos = Some (cache, c, b)"
      and ok: "cache_fits (lib E) cache" "contract_fits (lib E) c" "Gas c = Gas (contract m)" by blast
  have "frame_ok E I (m\<lparr>stack := st, evm := (evm m)\<lparr>bitmaps := cache\<rparr>, contract := c\<rparr>)"
    using m ok by (simp add: frame_ok_def evm_ok_def)
  with v ok show ?thesis by (simp add: jump_to_def Let_def same_def)
qed

lemma exec_jumps [exec_rules]:
  assumes "env_ok E I"
  shows "exec_ok E I op 1 w None opJump" "exec_ok E I op 2 w None opJumpi"
proof -
  have "exec_res E I m (opJumpi E C m)" if "frame_ok E I m" "2 \<le> length (stack m)" for m :: "('a, 'b) M" and C
    using that by (cases "stack m ! 1 = 0") (auto simp: opJumpi_def operands jump_to_ok [OF assms])
  then show "exec_ok E I op 2 w None opJumpi" by (simp add: exec_ok_def)
  show "exec_ok E I op 1 w None opJump" by (auto simp: exec_ok_def opJump_def operands jump_to_ok [OF assms])
qed

lemma exec_calldataload [exec_rules]: "exec_ok E I op 1 w None opCallDataLoad"
proof -
  have "exec_res E I m (opCallDataLoad E C m)" if m: "frame_ok E I m" "1 \<le> length (stack m)" for m :: "('a, 'b) M" and C
  proof -
    have "length (Input (contract m)) \<le> max_code" using m(1) by (simp add: frame_ok_def contract_fits_def)
    then have "\<exists>bs. getData (lib E) (Input (contract m)) start 32 = Some bs" for start
      by (intro getData_total) simp_all
    then obtain bs where "getData (lib E) (Input (contract m)) (Uint64 (hd (stack m))) 32 = Some bs" by blast
    then show ?thesis using m by (auto simp: opCallDataLoad_def operands Uint64WithOverflow_def Let_def)
  qed
  then show ?thesis by (simp add: exec_ok_def)
qed

lemma exec_returndatacopy [exec_rules]:
  assumes E: "env_ok E I" shows "exec_ok E I op 3 w (Some memoryReturnDataCopy) opReturnDataCopy"
  unfolding exec_ok_def
proof (intro allI impI)
  fix C and m :: "('a, 'b) M"
  assume m: "frame_ok E I m" "3 \<le> length (stack m)" and r: "mem_ready (Some memoryReturnDataCopy) m"
  obtain a b l st where st: "stack m = a # b # l # st" using m(2) by (auto simp: operands)
  have "inside (stack m ! 0) (stack m ! 2) (memory m)"
    by (rule mem_ready_at [OF r memory_at(3)]) (use m(2) in linarith)+
  then have ins: "inside a l (memory m)" using st by simp
  then have l: "unat l \<le> max_memory" using frame_ok_len [OF m(1)] by (cases "l = 0") (auto simp: inside_def)
  have add: "Add (lib E) b l = b + l" using E by (simp add: env_ok_def outside_ok_def)
  have rd: "length (returnData (evm m)) \<le> max_code" using m(1) by (simp add: frame_ok_def evm_ok_def)
  show "exec_res E I m (opReturnDataCopy E C m)"
  proof (cases "IsUint64 b \<and> IsUint64 (b + l) \<and> \<not> (of_nat (length (returnData (evm m))) :: u64) < Uint64 (b + l)")
    case True
    have "unat (b + l) = unat b + unat l" using True l by (simp add: IsUint64_def unat_word_ariths)
    then have e: "unat (Uint64 b) \<le> unat (Uint64 (b + l))" using True by (simp add: unat_Uint64)
    have "unat (Uint64 (b + l)) \<le> length (returnData (evm m))"
      using True rd by (simp add: word_less_nat_alt unat_of_nat)
    from slice_not_None [OF e this] obtain bs
      where "slice (returnData (evm m)) (uint (Uint64 b)) (uint (Uint64 (b + l))) = Some bs" by (auto simp only: uint_nat)
    moreover obtain mem where "Memory_Set (Uint64 a) (Uint64 l) bs (memory m) = Some mem" "Len mem = Len (memory m)"
      using Memory_Set_inside [OF ins frame_ok_len [OF m(1)]] by blast
    ultimately show ?thesis
      using True m st add frame_ok_memory [of E I "m\<lparr>stack := st\<rparr>"]
      by (simp add: opReturnDataCopy_def Uint64WithOverflow_def Let_def)
  next
    case False
    with m st add show ?thesis by (auto simp: opReturnDataCopy_def Uint64WithOverflow_def Let_def)
  qed
qed

lemma pops_total: "n \<le> length st \<Longrightarrow> pops n st = Some (take n st, drop n st)"
  by (induction n st rule: pops.induct) (auto simp: Suc_le_length_iff)

lemma exec_log [exec_rules]:
  assumes "n = k + 2" shows "exec_ok E I op n True (Some memoryLog) (makeLog k)"
  unfolding exec_ok_def
proof (intro allI impI)
  fix C and m :: "('a, 'b) M"
  assume m: "frame_ok E I m" "n \<le> length (stack m)" "True \<longrightarrow> \<not> protected E (evm m)" and r: "mem_ready (Some memoryLog) m"
  have "2 \<le> length (stack m)" using m(2) assms by simp
  then obtain a b st where st: "stack m = a # b # st" by (auto simp: operands)
  have "inside (stack m ! 0) (stack m ! 1) (memory m)"
    by (rule mem_ready_at [OF r memory_at(10)]) (use m(2) assms in linarith)+
  then have "GetCopy (sint (Uint64 a)) (sint (Uint64 b)) (memory m) = Some (take (unat b) (drop (unat a) (store (memory m))))"
    using GetCopy_inside [OF _ frame_ok_len [OF m(1)]] st by simp
  moreover have "pops k st = Some (take k st, drop k st)" using m(2) st assms by (intro pops_total) simp
  moreover have "closed_rw E I" "I (db m)" using m closed_rw_frame by blast+
  ultimately show "exec_res E I m (makeLog k E C m)"
    using m(1) st by (simp add: makeLog_def Let_def closed_rwD frame_ok_db)
qed

lemma traced_ok:
  "traced E f (e, t) = (e', t') \<Longrightarrow> (evm_ok E I e' = evm_ok E I e) \<and> same e e' \<and> statedb e' = statedb e \<and>
     callGasTemp e' = callGasTemp e \<and> readOnly e' = readOnly e \<and> returnData e' = returnData e"
  by (auto simp: traced_def Cancel_def same_def split: option.splits prod.splits if_splits)

lemma exec_suicide [exec_rules]: "exec_ok E I op 1 True None opSuicide"
  unfolding exec_ok_def
proof (intro allI impI)
  fix C and m :: "('a, 'b) M"
  assume m: "frame_ok E I m" "1 \<le> length (stack m)" "True \<longrightarrow> \<not> protected E (evm m)"
  then have rw: "closed_rw E I" and I: "I (db m)" using closed_rw_frame by blast+
  obtain r st where st: "stack m = r # st" using m(2) by (auto simp: operands)
  let ?enter = "\<lambda>T. CaptureEnter T SELFDESTRUCT (self (contract m)) (Bytes20 r) [] 0
    (Some (GetBalance (sdb E) (self (contract m)) (db m)))"
  obtain e1 t1 where t1: "traced E ?enter (evm m, trc m) = (e1, t1)" by force
  obtain e2 t2 where t2: "traced E (\<lambda>T. CaptureExit T [] 0 None) (e1, t1) = (e2, t2)" by force
  have e2: "evm_ok E I e2" "same (evm m) e2" "I (statedb e2)"
    using traced_ok [OF t1, of I] traced_ok [OF t2, of I] m(1) I by (auto simp: frame_ok_def intro: same_trans)
  define e4 where "e4 = e2\<lparr>statedb := snd (Suicide (sdb E) (self (contract m))
    (on_suicide E e2 (self (contract m)) (Bytes20 r)))\<rparr>"
  have "I (snd (Suicide (sdb E) a (on_suicide E e2 a b)))" for a b
    using rw e2(3) unfolding closed_rw_def by simp
  then have "evm_ok E I e4" "same (evm m) e4" using e2 by (auto simp: e4_def same_def intro!: evm_ok_statedb)
  moreover have "opSuicide E C m = ok (m\<lparr>evm := e4, trc := t2, stack := st\<rparr>)"
    using st t1 t2 by (simp add: opSuicide_def e4_def on_suicide_def Let_def split: option.split)
  ultimately show "exec_res E I m (opSuicide E C m)" using m(1) by (simp add: frame_ok_def)
qed

end
