(* ===== verification/VmOps.thy ===== *)
theory VmOps
  imports VmExec
begin

text \<open>
  Every entry of the jump tables: from the stack check, the gas function and the instruction to one
  iteration of the interpreter, which returns and goes on only with less gas.
\<close>

section \<open>Operations\<close>

definition call_ok :: "('s, 't) Env \<Rightarrow> ('s \<Rightarrow> bool) \<Rightarrow> 's EVM \<Rightarrow> u64 \<Rightarrow> ('s, 't) call_result \<Rightarrow> bool" where
  "call_ok E I e gas r \<longleftrightarrow>
     (\<exists>e' t ret left err. r = Some (e', t, ret, left, err) \<and> evm_ok E I e' \<and> same e e' \<and> left \<le> gas \<and> length ret \<le> max_code)"

definition create_ok :: "('s, 't) Env \<Rightarrow> ('s \<Rightarrow> bool) \<Rightarrow> 's EVM \<Rightarrow> u64 \<Rightarrow> ('s, 't) create_result \<Rightarrow> bool" where
  "create_ok E I e gas r \<longleftrightarrow>
     (\<exists>e' t ret addr left err. r = Some (e', t, ret, addr, left, err) \<and> evm_ok E I e' \<and> same e e' \<and> left \<le> gas \<and>
        length ret \<le> max_code)"

text \<open>The contract of the calls of the machine, for less gas than \<open>b\<close>.\<close>

definition calls_ok :: "('s, 't) Env \<Rightarrow> ('s \<Rightarrow> bool) \<Rightarrow> nat \<Rightarrow> ('s, 't) Calls \<Rightarrow> bool" where
  "calls_ok E I b C \<longleftrightarrow>
     (\<forall>e t a addr input gas v. evm_ok E I e \<longrightarrow> unat gas < b \<longrightarrow> length input \<le> max_code \<longrightarrow>
        ((protected E e \<longrightarrow> v = 0) \<longrightarrow> 0 \<le> v \<longrightarrow> call_ok E I e gas (do_Call C e t a addr input gas v)) \<and>
        call_ok E I e gas (do_CallCode C e t a addr input gas v) \<and>
        (\<forall>c. value c \<noteq> None \<longrightarrow> call_ok E I e gas (do_DelegateCall C e t c addr input gas)) \<and>
        call_ok E I e gas (do_StaticCall C e t a addr input gas) \<and>
        (\<not> protected E e \<longrightarrow> 0 \<le> v \<longrightarrow> create_ok E I e gas (do_Create C e t a input gas v) \<and>
           (\<forall>salt. create_ok E I e gas (do_Create2 C e t a input gas v salt))))"

text \<open>An iteration that returns, and that goes on with less gas only.\<close>

definition step_ok :: "('s, 't) Env \<Rightarrow> ('s \<Rightarrow> bool) \<Rightarrow> ('s, 't) M \<Rightarrow> ('s, 't) outcome option \<Rightarrow> bool" where
  "step_ok E I m r \<longleftrightarrow>
     (case r of
        None \<Rightarrow> False
      | Some (Next m') \<Rightarrow> frame_ok E I m' \<and> same (evm m) (evm m') \<and> Gas (contract m') < Gas (contract m)
      | Some (Return m' ret err logged) \<Rightarrow> frame_ok E I m' \<and> same (evm m) (evm m') \<and>
          Gas (contract m') \<le> Gas (contract m) \<and> length ret \<le> max_code)"

definition op_ok :: "('s, 't) Env \<Rightarrow> ('s \<Rightarrow> bool) \<Rightarrow> OpCode \<Rightarrow> ('s, 't) operation \<Rightarrow> bool" where
  "op_ok E I op o1 \<longleftrightarrow>
     (\<forall>C m. frame_ok E I m \<longrightarrow> GetOp (contract m) (pc m) = op \<longrightarrow> calls_ok E I (unat (Gas (contract m))) C \<longrightarrow>
        step_ok E I m (operate E C op o1 m))"

text \<open>The variables right before an operation is executed, when its cost \<open>c\<close> has been paid.\<close>

definition ready :: "('s, 't) Env \<Rightarrow> ('s \<Rightarrow> bool) \<Rightarrow> ('s, 't) operation \<Rightarrow> u64 \<Rightarrow> ('s, 't) M \<Rightarrow> ('s, 't) M \<Rightarrow> bool" where
  "ready E I o1 c m m' \<longleftrightarrow> frame_ok E I m' \<and> same (evm m) (evm m') \<and> stack m' = stack m \<and> pc m' = pc m \<and>
     contract m' = (contract m)\<lparr>Gas := Gas (contract m) - c\<rparr> \<and> mem_ready (memorySize o1) m'"

text \<open>The result of its execution.\<close>

definition done_ok :: "('s, 't) Env \<Rightarrow> ('s \<Rightarrow> bool) \<Rightarrow> ('s, 't) operation \<Rightarrow> ('s, 't) M \<Rightarrow> ('s, 't) result \<Rightarrow> bool" where
  "done_ok E I o1 m r \<longleftrightarrow>
     (\<exists>m' ret err. r = Some (m', ret, err) \<and> frame_ok E I m' \<and> same (evm m) (evm m') \<and> length ret \<le> max_code \<and>
        Gas (contract m') \<le> Gas (contract m) \<and>
        (\<not> halts o1 \<longrightarrow> \<not> reverts o1 \<longrightarrow> Gas (contract m') < Gas (contract m)))"

lemma frame_ok_returnData: "frame_ok E I m \<Longrightarrow> length ret \<le> max_code \<Longrightarrow> frame_ok E I (m\<lparr>evm := (evm m)\<lparr>returnData := ret\<rparr>\<rparr>)"
  by (simp add: frame_ok_def evm_ok_def)

lemma step_ok_simps [simp]:
  "step_ok E I m (Some (Next m')) \<longleftrightarrow>
     frame_ok E I m' \<and> same (evm m) (evm m') \<and> Gas (contract m') < Gas (contract m)"
  "step_ok E I m (Some (Return m' ret err logged)) \<longleftrightarrow> frame_ok E I m' \<and> same (evm m) (evm m') \<and>
     Gas (contract m') \<le> Gas (contract m) \<and> length ret \<le> max_code"
  by (simp_all add: step_ok_def)

lemma same_returnData [simp]: "same e (e'\<lparr>returnData := ret\<rparr>) = same e e'"
  by (simp add: same_def)

lemma after_execute_ok: "done_ok E I o1 m r \<Longrightarrow> step_ok E I m (map_option (after_execute o1) r)"
proof -
  assume "done_ok E I o1 m r"
  then obtain m1 ret err where r: "r = Some (m1, ret, err)" and m1: "frame_ok E I m1" "same (evm m) (evm m1)"
    and ret: "length ret \<le> max_code" and gas: "Gas (contract m1) \<le> Gas (contract m)"
      "\<not> halts o1 \<longrightarrow> \<not> reverts o1 \<longrightarrow> Gas (contract m1) < Gas (contract m)" unfolding done_ok_def by blast
  define m2 where "m2 = (if returns o1 then m1\<lparr>evm := (evm m1)\<lparr>returnData := ret\<rparr>\<rparr> else m1)"
  have "frame_ok E I m2" "same (evm m) (evm m2)" "contract m2 = contract m1"
    using m1 ret by (auto simp: m2_def frame_ok_returnData)
  then show ?thesis
    using ret gas by (cases err) (auto simp: r after_execute_def m2_def [symmetric])
qed

lemma fail_ok [simp]:
  "step_ok E I m (fail m' e) \<longleftrightarrow> frame_ok E I m' \<and> same (evm m) (evm m') \<and> Gas (contract m') \<le> Gas (contract m)"
  by (simp add: step_ok_def fail_def)

lemma contract_fits_gas [simp]: "contract_fits d (c\<lparr>Gas := g\<rparr>) = contract_fits d c"
  by (simp add: contract_fits_def)

lemma perform_ok:
  assumes E: "env_ok E I" and m1: "frame_ok E I m1" "gas_frame m m1"
    and need: "needed_memory E o1 m = Some (sz, False)" and sz: "memorySize o1 \<noteq> None \<longrightarrow> unat sz \<le> max_memory"
    and ex: "\<And>m2. ready E I o1 c m m2 \<Longrightarrow> callGasTemp (evm m2) = callGasTemp (evm m1) \<Longrightarrow> done_ok E I o1 m (execute o1 E C m2)"
  shows "step_ok E I m (perform E C op o1 g sz (m1\<lparr>cost := c, contract := (contract m)\<lparr>Gas := Gas (contract m) - c\<rparr>\<rparr>))"
proof -
  let ?m = "m1\<lparr>cost := c, contract := (contract m)\<lparr>Gas := Gas (contract m) - c\<rparr>\<rparr>"
  obtain e t where tr: "traced E (\<lambda>T. CaptureState T (evm ?m) (step_info ?m (pc ?m) op g None)) (evm ?m, trc ?m) = (e, t)"
    by (cases "traced E (\<lambda>T. CaptureState T (evm ?m) (step_info ?m (pc ?m) op g None)) (evm ?m, trc ?m)")
  have e: "evm_ok E I e" "same (evm m1) e" "callGasTemp e = callGasTemp (evm m1)"
    using traced_ok [OF tr, of I] m1(1) by (auto simp: frame_ok_def)
  define m2 where "m2 = (let m = ?m\<lparr>evm := e, trc := t\<rparr>
    in if sz > 0 then m\<lparr>memory := Resize sz (memory m)\<rparr> else m)"
  have gf: "contract m1 = contract m" "stack m1 = stack m" "pc m1 = pc m" "Len (memory m1) = Len (memory m)" "same (evm m) (evm m1)"
    using m1(2) by (auto simp: gas_frame_def Len_def)
  have size: "Len (memory m2) = max (Len (memory m1)) (unat sz)"
    by (auto simp: m2_def Let_def word_gt_0)
  have "unat sz \<le> max_memory" using sz need by (cases "memorySize o1") (auto simp: needed_memory_def)
  then have "frame_ok E I m2"
    using m1(1) e size gf(1) by (auto simp: frame_ok_def m2_def Let_def)
  moreover have "mem_ready (memorySize o1) m2"
  proof (cases "memorySize o1")
    case (Some f)
    then obtain x where "f (stack m) = Some (x, False)" and "SafeMul (lib E) (toWordSize x) 32 = (sz, False)"
      using need by (auto simp: needed_memory_def split: option.splits if_splits bind_splits)
    moreover from this have "unat x \<le> unat sz" using toWordSize_ok E by (auto simp: env_ok_def)
    ultimately show ?thesis using Some size gf(2) by (simp add: mem_ready_def m2_def Let_def)
  qed (simp add: mem_ready_def)
  ultimately have "ready E I o1 c m m2" "callGasTemp (evm m2) = callGasTemp (evm m1)"
    using gf e by (auto simp: ready_def m2_def Let_def intro: same_trans)
  from after_execute_ok [OF ex [OF this]] show ?thesis
    using tr by (simp add: perform_def m2_def Let_def)
qed

text \<open>The stack check guarantees \<open>n\<close> operands, which is enough for the size of the memory.\<close>

definition sized :: "nat \<Rightarrow> memorySizeFunc option \<Rightarrow> bool" where
  "sized n ms \<longleftrightarrow> (\<forall>f st. ms = Some f \<longrightarrow> n \<le> length st \<longrightarrow> f st \<noteq> None)"

definition checked :: "nat \<Rightarrow> (Stack \<Rightarrow> error option) \<Rightarrow> bool" where
  "checked n v \<longleftrightarrow> (\<forall>st. v st = None \<longrightarrow> n \<le> length st)"

text \<open>The rule for one entry of the table, from its gas function and its instruction.\<close>

lemma op_okI:
  assumes E: "env_ok E I"
    and check: "checked n (validateStack o1)" and size: "sized n (memorySize o1)"
    and call: "op = CALL \<Longrightarrow> 3 \<le> n"
    and gas: "\<And>m sz. frame_ok E I m \<Longrightarrow> n \<le> length (stack m) \<Longrightarrow> (writes o1 \<Longrightarrow> \<not> protected E (evm m)) \<Longrightarrow>
      gas_res E I m (\<lambda>m' c. (memorySize o1 \<noteq> None \<longrightarrow> unat sz \<le> max_memory) \<and> P m m' c) (gasCost o1 E sz m)"
    and ex: "\<And>C m m1 m2 c. frame_ok E I m \<Longrightarrow> n \<le> length (stack m) \<Longrightarrow> (writes o1 \<Longrightarrow> \<not> protected E (evm m)) \<Longrightarrow>
      (op = CALL \<Longrightarrow> protected E (evm m) \<Longrightarrow> stack m ! 2 = 0) \<Longrightarrow> GetOp (contract m) (pc m) = op \<Longrightarrow>
      calls_ok E I (unat (Gas (contract m))) C \<Longrightarrow>
      P m m1 c \<Longrightarrow> c \<le> Gas (contract m) \<Longrightarrow> ready E I o1 c m m2 \<Longrightarrow> callGasTemp (evm m2) = callGasTemp (evm m1) \<Longrightarrow>
      done_ok E I o1 m (execute o1 E C m2)"
  shows "op_ok E I op o1"
  unfolding op_ok_def
proof (intro allI impI)
  fix C and m :: "('a, 'b) M"
  assume m: "frame_ok E I m" and op: "GetOp (contract m) (pc m) = op" and C: "calls_ok E I (unat (Gas (contract m))) C"
  show "step_ok E I m (operate E C op o1 m)"
  proof (cases "validateStack o1 (stack m)")
    case None
    then have n: "n \<le> length (stack m)" using check by (simp add: checked_def)
    have "\<exists>r. enforceRestrictions E op o1 m = Some r"
      using call n by (auto simp: enforceRestrictions_def Back_def)
    then obtain r where r: "enforceRestrictions E op o1 m = Some r" ..
    have "\<exists>sz ov. needed_memory E o1 m = Some (sz, ov)"
      using size n by (fastforce simp: sized_def needed_memory_def split: option.split prod.split)
    then obtain sz ov where need: "needed_memory E o1 m = Some (sz, ov)" by blast
    show ?thesis
    proof (cases "r = None \<and> \<not> ov")
      case True
      then have w: "writes o1 \<Longrightarrow> \<not> protected E (evm m)" and v: "op = CALL \<Longrightarrow> protected E (evm m) \<Longrightarrow> stack m ! 2 = 0"
        using r by (auto simp: enforceRestrictions_def Back_def split: if_splits bind_splits)
      from gas [OF m n w] obtain m1 c err where g: "gasCost o1 E sz m = Some (m1, c, err)"
        and m1: "frame_ok E I m1" "gas_frame m m1"
        and P: "err = None \<longrightarrow> (memorySize o1 \<noteq> None \<longrightarrow> unat sz \<le> max_memory) \<and> P m m1 c"
        unfolding gas_res_def by blast
      have c1: "contract m1 = contract m" "same (evm m) (evm m1)" using m1(2) by (auto simp: gas_frame_def)
      show ?thesis
      proof (cases "err = None \<and> c \<le> Gas (contract m)")
        case paid: True
        have "step_ok E I m (perform E C op o1 (Gas (contract m)) sz
            (m1\<lparr>cost := c, contract := (contract m)\<lparr>Gas := Gas (contract m) - c\<rparr>\<rparr>))"
          using need True paid P by (intro perform_ok [OF E m1] ex [OF m n w v op C]) auto
        with None r need True g paid c1 m1 show ?thesis by (auto simp: operate_def UseGas_def Let_def not_less)
      next
        case False
        with None r need True g c1 m1 show ?thesis by (auto simp: operate_def UseGas_def Let_def not_less)
      qed
    next
      case False
      with None r need m show ?thesis by (auto simp: operate_def split: option.split)
    qed
  qed (use m in \<open>simp add: operate_def\<close>)
qed

lemma op_ok_plain:
  assumes E: "env_ok E I"
    and check: "checked n (validateStack o1)" and size: "sized n (memorySize o1)"
    and call: "op \<noteq> CALL"
    and gas: "gas_ok E I n (writes o1) (memorySize o1 \<noteq> None) (\<not> halts o1 \<and> \<not> reverts o1) (gasCost o1)"
    and ex: "exec_ok E I op n (writes o1) (memorySize o1) (execute o1)"
  shows "op_ok E I op o1"
proof (rule op_okI [OF E check size, where P = "\<lambda>m m' c. \<not> halts o1 \<and> \<not> reverts o1 \<longrightarrow> c \<noteq> 0"])
  fix m :: "('a, 'b) M" and sz
  assume "frame_ok E I m" and "n \<le> length (stack m)" and "writes o1 \<Longrightarrow> \<not> protected E (evm m)"
  with gas show "gas_res E I m (\<lambda>m' c. (memorySize o1 \<noteq> None \<longrightarrow> unat sz \<le> max_memory) \<and>
      (\<not> halts o1 \<and> \<not> reverts o1 \<longrightarrow> c \<noteq> 0)) (gasCost o1 E sz m)"
    unfolding gas_ok_def by blast
next
  fix C and m m1 m2 :: "('a, 'b) M" and c
  assume n: "n \<le> length (stack m)" and w: "writes o1 \<Longrightarrow> \<not> protected E (evm m)"
    and op: "GetOp (contract m) (pc m) = op" and pos: "\<not> halts o1 \<and> \<not> reverts o1 \<longrightarrow> c \<noteq> 0"
    and c: "c \<le> Gas (contract m)" and r: "ready E I o1 c m m2"
  have m2: "frame_ok E I m2" "stack m2 = stack m" "pc m2 = pc m" "same (evm m) (evm m2)" "mem_ready (memorySize o1) m2"
    "Code (contract m2) = Code (contract m)" "Gas (contract m2) = Gas (contract m) - c"
    using r by (simp_all add: ready_def)
  have "op \<noteq> 0 \<longrightarrow> unat (pc m2) < length (Code (contract m2))"
    using op m2(3,6) by (auto simp: GetOp_def GetByte_def split: if_splits)
  moreover have "writes o1 \<longrightarrow> \<not> protected E (evm m2)" using w m2(4) by (auto simp: same_def)
  ultimately have "exec_res E I m2 (execute o1 E C m2)" using ex m2 n unfolding exec_ok_def by simp
  moreover have "Gas (contract m) - c \<le> Gas (contract m)" using c by (simp add: word_sub_le)
  moreover have "Gas (contract m) - c < Gas (contract m)" if "c \<noteq> 0"
    using c that unat_gt_0 [of c] by (simp add: word_less_nat_alt word_le_nat_alt unat_sub)
  ultimately show "done_ok E I o1 m (execute o1 E C m2)"
    using m2(4,7) pos by (auto simp: exec_res_def done_ok_def intro: same_trans)
qed (use call in auto)

text \<open>The four kinds of entries without a call: with or without memory, going on or stopping.\<close>

lemma checked_rules:
  "checked n (makeStackFunc d n k)" "checked n (makeDupStackFunc d n)" "checked n (makeSwapStackFunc d n)"
  by (simp_all add: checked_def makeDupStackFunc_def makeSwapStackFunc_def makeStackFunc_def split: if_splits)

lemma sized_rules:
  "sized n None" "sized 2 (Some memorySha3)" "sized 3 (Some memoryCallDataCopy)" "sized 3 (Some memoryReturnDataCopy)"
  "sized 3 (Some memoryCodeCopy)" "sized 4 (Some memoryExtCodeCopy)" "sized 1 (Some memoryMLoad)"
  "sized 2 (Some memoryMStore)" "sized 2 (Some memoryMStore8)" "sized 3 (Some memoryCreate)"
  "sized 4 (Some memoryCreate2)" "sized 2 (Some memoryReturn)" "sized 2 (Some memoryRevert)"
  "2 \<le> n \<Longrightarrow> sized n (Some memoryLog)" "sized 7 (Some memoryCall)" "sized 6 (Some memoryDelegateCall)"
  "sized 6 (Some memoryStaticCall)"
  by (auto simp: sized_def vm_defs bind_eq_None_conv split: prod.splits if_splits)

lemma op_rules:
  assumes "env_ok E I" and "op \<noteq> CALL" and "checked n v" and "sized n ms" and "exec_ok E I op n w ms e"
  shows "gas_ok E I n w (ms \<noteq> None) (\<not> h \<and> \<not> r) g \<Longrightarrow>
      op_ok E I op \<lparr>execute = e, gasCost = g, validateStack = v, memorySize = ms, halts = h, jumps = j,
        writes = w, reverts = r, returns = rt\<rparr>"
  by (rule op_ok_plain) (use assms in simp_all)

section \<open>Calls and creations\<close>

lemma mem_ready_max:
  assumes "mem_ready (Some f) m" and "f = mem_max i j k l" and "i < length (stack m)" "j < length (stack m)"
    "k < length (stack m)" "l < length (stack m)"
  shows "inside (stack m ! i) (stack m ! j) (memory m)" and "inside (stack m ! k) (stack m ! l) (memory m)"
proof -
  obtain x ox where x: "calcMemSize64 (stack m ! i) (stack m ! j) = (x, ox)" by force
  obtain y oy where y: "calcMemSize64 (stack m ! k) (stack m ! l) = (y, oy)" by force
  have "\<not> ox" "\<not> oy" "unat x \<le> Len (memory m)" "unat y \<le> Len (memory m)"
    using assms x y by (auto simp: mem_ready_def mem_max_def mem_at_def Back_def word_less_nat_alt split: if_splits)
  with x y show "inside (stack m ! i) (stack m ! j) (memory m)" and "inside (stack m ! k) (stack m ! l) (memory m)"
    by (auto intro: inside_calc)
qed

lemma unat_plus_le: "unat x + unat y \<le> unat (z :: u64) \<Longrightarrow> unat (x + y :: u64) = unat x + unat y"
  by (rule unat_plus_u64, rule le_less_trans, assumption) simp

text \<open>The gas after a call: less than before, when the cost covers the gas passed on.\<close>

lemma gas_returned:
  assumes "c \<le> (g :: u64)" and "left \<le> gas" and "unat gas < unat c"
  shows "g - c + left < g"
proof -
  have "unat (g - c) + unat left < unat g" using assms by (simp add: unat_sub word_le_nat_alt)
  then have "unat (g - c + left) = unat (g - c) + unat left" by (intro unat_plus_le [of _ _ g]) simp
  with \<open>unat (g - c) + unat left < unat g\<close> show ?thesis by (simp add: word_less_nat_alt)
qed

lemma after_call_ok:
  assumes m2: "ready E I o1 c m m2" and c: "c \<le> Gas (contract m)" and gas: "unat gas < unat c"
    and ret: "inside ro rs (memory m2)" and call: "call_ok E I (evm m2) gas r"
  shows "done_ok E I o1 m (r \<bind> after_call (Uint64 ro) (Uint64 rs) st m2)"
proof -
  obtain e t bs left err where r: "r = Some (e, t, bs, left, err)" and e: "evm_ok E I e" "same (evm m2) e"
    and "left \<le> gas" and bs: "length bs \<le> max_code"
    using call unfolding call_ok_def by blast
  have f: "frame_ok E I m2" "same (evm m) (evm m2)" "Gas (contract m2) = Gas (contract m) - c"
    using m2 by (simp_all add: ready_def)
  have g: "Gas (contract m) - c + left < Gas (contract m)" by (rule gas_returned [OF c \<open>left \<le> gas\<close> gas])
  obtain mem where mem: "Memory_Set (Uint64 ro) (Uint64 rs) bs (memory m2) = Some mem" "Len mem = Len (memory m2)"
    using Memory_Set_inside [OF ret frame_ok_len [OF f(1)]] by blast
  show ?thesis
    using f e bs g mem same_trans [OF f(2) e(2)] by (auto simp: r after_call_def done_ok_def frame_ok_def)
qed

lemma calls_okD:
  assumes "calls_ok E I b C" and "evm_ok E I e" and "unat gas < b" and "length input \<le> max_code"
  shows "(protected E e \<Longrightarrow> v = 0) \<Longrightarrow> 0 \<le> v \<Longrightarrow> call_ok E I e gas (do_Call C e t a addr input gas v)"
    and "call_ok E I e gas (do_CallCode C e t a addr input gas v)"
    and "value c \<noteq> None \<Longrightarrow> call_ok E I e gas (do_DelegateCall C e t c addr input gas)"
    and "call_ok E I e gas (do_StaticCall C e t a addr input gas)"
    and "\<not> protected E e \<Longrightarrow> 0 \<le> v \<Longrightarrow> create_ok E I e gas (do_Create C e t a input gas v)"
    and "\<not> protected E e \<Longrightarrow> 0 \<le> v \<Longrightarrow> create_ok E I e gas (do_Create2 C e t a input gas v salt)"
  using assms unfolding calls_ok_def by blast+

text \<open>The gas that a call instruction passes on, with the stipend.\<close>

lemma passed_on:
  assumes "unat temp + unat (stipend E v) < unat (c :: u64)"
  shows "unat (if v \<noteq> 0 then temp + CallStipend (lib E) else temp) < unat c"
proof (cases "v = 0")
  case False
  then have "unat (temp + CallStipend (lib E)) = unat temp + unat (CallStipend (lib E))"
    using assms by (intro unat_plus_le [of _ _ c]) (simp add: stipend_def)
  with assms False show ?thesis by (simp add: stipend_def)
qed (use assms in \<open>simp add: stipend_def\<close>)

lemma args_ok: "inside off l (memory m2) \<Longrightarrow> frame_ok E I m2 \<Longrightarrow>
   \<exists>bs. GetCopy (sint (Uint64 off)) (sint (Uint64 l)) (memory m2) = Some bs \<and> length bs \<le> max_code"
  using GetCopy_inside [OF _ frame_ok_len] take_region [OF frame_ok_len] by metis

lemma big_value_0: "v = 0 \<Longrightarrow> big_value v = 0"
  by (simp add: big_value_def)

lemma big_value_nonneg: "0 \<le> big_value v"
  by (simp add: big_value_def)

lemma ready_frame:
  assumes "ready E I o1 c m m2"
  shows "frame_ok E I m2" and "evm_ok E I (evm m2)" and "stack m2 = stack m" and "value (contract m2) \<noteq> None"
    and "protected E (evm m2) = protected E (evm m)"
  using assms by (auto simp: ready_def frame_ok_def contract_fits_def same_def)

lemma exec_call:
  assumes m2: "ready E I o1 c m m2" and mem: "memorySize o1 = Some memoryCall" and n: "7 \<le> length (stack m)"
    and C: "calls_ok E I (unat (Gas (contract m))) C" and c: "c \<le> Gas (contract m)"
    and P: "unat (callGasTemp (evm m2)) + unat (stipend E (stack m ! 2)) < unat c"
  shows "(protected E (evm m) \<Longrightarrow> stack m ! 2 = 0) \<Longrightarrow> done_ok E I o1 m (opCall E C m2)"
    and "done_ok E I o1 m (opCallCode E C m2)"
proof -
  obtain g a v io isz ro rs st where st: "stack m = g # a # v # io # isz # ro # rs # st" using n by (auto simp: operands)
  note f = ready_frame [OF m2]
  have r: "mem_ready (Some memoryCall) m2" using m2 mem by (simp add: ready_def)
  have "memoryCall = mem_max 5 6 3 4" by (simp add: memoryCall_def fun_eq_iff)
  from mem_ready_max [OF r this] have ins: "inside ro rs (memory m2)" "inside io isz (memory m2)"
    using f(3) st by simp_all
  obtain bs where bs: "GetCopy (sint (Uint64 io)) (sint (Uint64 isz)) (memory m2) = Some bs" "length bs \<le> max_code"
    using args_ok [OF ins(2) f(1)] by blast
  define gas where "gas = (if v \<noteq> 0 then callGasTemp (evm m2) + CallStipend (lib E) else callGasTemp (evm m2))"
  have gas: "unat gas < unat c" unfolding gas_def by (rule passed_on) (use P st in simp)
  then have gas2: "unat gas < unat (Gas (contract m))" using c by (simp add: word_le_nat_alt)
  note calls = calls_okD [OF C f(2) gas2 bs(2)]
  show "done_ok E I o1 m (opCallCode E C m2)"
    using after_call_ok [OF m2 c gas ins(1) calls(2)] f(3) st bs
    by (simp add: opCallCode_def pop_def gas_def [symmetric] Let_def)
  show "done_ok E I o1 m (opCall E C m2)" if "protected E (evm m) \<Longrightarrow> stack m ! 2 = 0"
    using after_call_ok [OF m2 c gas ins(1) calls(1)] f(3,5) st bs that
    by (simp add: opCall_def pop_def gas_def [symmetric] Let_def big_value_0 big_value_nonneg)
qed

lemma exec_plain_call:
  assumes m2: "ready E I o1 c m m2" and mem: "memorySize o1 = Some f" and f: "f = mem_max 4 5 2 3" and n: "6 \<le> length (stack m)"
    and C: "calls_ok E I (unat (Gas (contract m))) C" and c: "c \<le> Gas (contract m)"
    and P: "unat (callGasTemp (evm m2)) < unat c"
  shows "done_ok E I o1 m (opDelegateCall E C m2)" and "done_ok E I o1 m (opStaticCall E C m2)"
proof -
  obtain g a io isz ro rs st where st: "stack m = g # a # io # isz # ro # rs # st" using n by (auto simp: operands)
  note f2 = ready_frame [OF m2]
  have r: "mem_ready (Some f) m2" using m2 mem by (simp add: ready_def)
  from mem_ready_max [OF r f] have ins: "inside ro rs (memory m2)" "inside io isz (memory m2)"
    using f2(3) st by simp_all
  obtain bs where bs: "GetCopy (sint (Uint64 io)) (sint (Uint64 isz)) (memory m2) = Some bs" "length bs \<le> max_code"
    using args_ok [OF ins(2) f2(1)] by blast
  have gas2: "unat (callGasTemp (evm m2)) < unat (Gas (contract m))" using P c by (simp add: word_le_nat_alt)
  note calls = calls_okD [OF C f2(2) gas2 bs(2)]
  show "done_ok E I o1 m (opDelegateCall E C m2)"
    using after_call_ok [OF m2 c P ins(1) calls(3) [OF f2(4)]] f2(3) st bs by (simp add: opDelegateCall_def pop_def)
  show "done_ok E I o1 m (opStaticCall E C m2)"
    using after_call_ok [OF m2 c P ins(1) calls(4)] f2(3) st bs by (simp add: opStaticCall_def pop_def)
qed

text \<open>After a creation.\<close>

lemma gas_of_create:
  assumes "g \<le> (h :: u64)" and "left \<le> g"
  shows "h - g + left \<le> h"
proof -
  have "unat (h - g) + unat left \<le> unat h" using assms by (simp add: unat_sub word_le_nat_alt)
  moreover from this have "unat (h - g + left) = unat (h - g) + unat left" by (rule unat_plus_le)
  ultimately show ?thesis by (simp add: word_le_nat_alt)
qed

lemma exec_create:
  assumes m2: "ready E I o1 c m m2" and f: "memorySize o1 = Some (mem_at 1 2)"
    and C: "calls_ok E I (unat (Gas (contract m))) C" and c: "c \<le> Gas (contract m)" "c \<noteq> 0"
    and w: "\<not> protected E (evm m)"
  shows "3 \<le> length (stack m) \<Longrightarrow> done_ok E I o1 m (opCreate E C m2)"
    and "4 \<le> length (stack m) \<Longrightarrow> done_ok E I o1 m (opCreate2 E C m2)"
proof -
  note fr = ready_frame [OF m2]
  have r: "mem_ready (Some (mem_at 1 2)) m2" using m2 f by (simp add: ready_def)
  let ?g = "Gas (contract m2)"
  have g: "?g = Gas (contract m) - c" using m2 by (simp add: ready_def)
  have less: "?g < Gas (contract m)"
    using c unat_gt_0 [of c] by (simp add: g word_less_nat_alt word_le_nat_alt unat_sub)
  have split64: "?g - ?g div 64 \<le> ?g" by (simp add: word_le_nat_alt unat_div unat_sub)
  have post: "?g - gas + left < Gas (contract m)" if "gas \<le> ?g" "left \<le> gas" for gas left
    using gas_of_create [OF that] less by (rule le_less_trans)
  have bound: "unat gas < unat (Gas (contract m))" if "gas \<le> ?g" for gas
    using that less by (simp add: word_less_nat_alt word_le_nat_alt)
  have s: "same (evm m) (evm m2)" and fr2: "contract_fits (lib E) (contract m2)" "Len (memory m2) \<le> max_memory"
    using m2 by (auto simp: ready_def frame_ok_def)
  show "done_ok E I o1 m (opCreate E C m2)" if n: "3 \<le> length (stack m)"
  proof -
    obtain v off sz st where st: "stack m2 = v # off # sz # st" using n fr(3) by (auto simp: operands)
    have "inside (stack m2 ! 1) (stack m2 ! 2) (memory m2)" by (rule mem_ready_at [OF r refl]) (use st in simp_all)
    then obtain bs where bs: "GetCopy (sint (Uint64 off)) (sint (Uint64 sz)) (memory m2) = Some bs" "length bs \<le> max_code"
      using args_ok [OF _ fr(1), of off sz] st by auto
    define gas where "gas = (if IsEIP150 (chainConfig E) (blockNumber E) then ?g - ?g div 64 else ?g)"
    have gas: "gas \<le> ?g" using split64 by (simp add: gas_def)
    have "create_ok E I (evm m2) gas (do_Create C (evm m2) (trc m2) (self (contract m2)) bs gas (big_value v))"
      by (rule calls_okD(5) [OF C fr(2) bound [OF gas] bs(2)]) (use w fr(5) in \<open>simp_all add: big_value_nonneg\<close>)
    then obtain e t ret addr left err where
      "do_Create C (evm m2) (trc m2) (self (contract m2)) bs gas (big_value v) = Some (e, t, ret, addr, left, err)"
      and e: "evm_ok E I e" "same (evm m2) e" "left \<le> gas" "length ret \<le> max_code" unfolding create_ok_def by blast
    then show ?thesis
      using st bs gas post [OF gas e(3)] fr2 same_trans [OF s e(2)]
      by (auto simp: opCreate_def gas_def [symmetric] Let_def UseGas_def done_ok_def frame_ok_def not_less)
  qed
  show "done_ok E I o1 m (opCreate2 E C m2)" if n: "4 \<le> length (stack m)"
  proof -
    obtain v off sz salt st where st: "stack m2 = v # off # sz # salt # st" using n fr(3) by (auto simp: operands)
    have "inside (stack m2 ! 1) (stack m2 ! 2) (memory m2)" by (rule mem_ready_at [OF r refl]) (use st in simp_all)
    then obtain bs where bs: "GetCopy (sint (Uint64 off)) (sint (Uint64 sz)) (memory m2) = Some bs" "length bs \<le> max_code"
      using args_ok [OF _ fr(1), of off sz] st by auto
    define gas where "gas = ?g - ?g div 64"
    have gas: "gas \<le> ?g" using split64 by (simp add: gas_def)
    have "create_ok E I (evm m2) gas (do_Create2 C (evm m2) (trc m2) (self (contract m2)) bs gas (big_value v) salt)"
      by (rule calls_okD(6) [OF C fr(2) bound [OF gas] bs(2)]) (use w fr(5) in \<open>simp_all add: big_value_nonneg\<close>)
    then obtain e t ret addr left err where
      "do_Create2 C (evm m2) (trc m2) (self (contract m2)) bs gas (big_value v) salt = Some (e, t, ret, addr, left, err)"
      and e: "evm_ok E I e" "same (evm m2) e" "left \<le> gas" "length ret \<le> max_code" unfolding create_ok_def by blast
    then show ?thesis
      using st bs gas post [OF gas e(3)] fr2 same_trans [OF s e(2)]
      by (auto simp: opCreate2_def pop_def gas_def [symmetric] Let_def UseGas_def done_ok_def frame_ok_def not_less)
  qed
qed

end
