(* ===== verification/VmTables.thy ===== *)
theory VmTables
  imports VmOps
begin

text \<open>
  Every entry of the five instruction sets (src/vm/jump_table.go) is a safe operation: it neither
  panics nor leaves the invariant of VmSafety, and goes on with less gas only.
\<close>

section \<open>The jump tables\<close>

abbreviation table_ok :: "('s, 't) Env \<Rightarrow> ('s \<Rightarrow> bool) \<Rightarrow> ('s, 't) JumpTable \<Rightarrow> bool" where
  "table_ok E I tab \<equiv> list_all (\<lambda>(op, o1). op_ok E I op o1) tab"

lemmas op_entry = op_rules [OF _ _ checked_rules(1)] op_rules [OF _ _ checked_rules(2)] op_rules [OF _ _ checked_rules(3)]

lemmas table_defs = mk_op_def list.pred_inject prod.case operation.simps

lemma table_arithmetic: "env_ok E I \<Longrightarrow> table_ok E I (arithmetic_ops (lib E))"
  unfolding arithmetic_ops_def table_defs
  by (intro conjI TrueI op_entry) (simp_all add: sized_rules exec_rules gas_rules del: One_nat_def)

lemma table_environment: "env_ok E I \<Longrightarrow> closed_ro E lvl k I \<Longrightarrow> table_ok E I (environment_ops (lib E))"
  unfolding environment_ops_def table_defs
  by (intro conjI TrueI op_entry)
    (simp_all add: sized_rules exec_rules exec_sha3 [of E lvl k I] gas_rules del: One_nat_def)

lemma table_memory: "env_ok E I \<Longrightarrow> table_ok E I (memory_ops (lib E))"
  unfolding memory_ops_def table_defs
  by (intro conjI TrueI op_entry) (simp_all add: sized_rules exec_rules gas_rules costs del: One_nat_def)

lemma table_push: "env_ok E I \<Longrightarrow> table_ok E I (push_ops (lib E))"
  unfolding push_ops_def table_defs
  by (intro conjI TrueI op_entry) (simp_all add: sized_rules exec_rules gas_rules)

lemma table_dup: "env_ok E I \<Longrightarrow> table_ok E I (dup_ops (lib E))"
  unfolding dup_ops_def table_defs
  by (intro conjI TrueI op_entry) (simp_all add: sized_rules exec_rules gas_rules del: One_nat_def)

lemma table_swap: "env_ok E I \<Longrightarrow> table_ok E I (swap_ops (lib E))"
  unfolding swap_ops_def table_defs
  by (intro conjI TrueI op_entry) (simp_all add: sized_rules exec_rules gas_rules del: One_nat_def)

lemma memory_max: "memoryDelegateCall = mem_max 4 5 2 3" "memoryStaticCall = mem_max 4 5 2 3"
  by (simp_all add: memoryDelegateCall_def memoryStaticCall_def fun_eq_iff)

lemma entry_call:
  assumes E: "env_ok E I" and v: "checked 7 v"
  shows "op_ok E I CALL \<lparr>execute = opCall, gasCost = gasCall, validateStack = v,
    memorySize = Some memoryCall, halts = False, jumps = False, writes = False, reverts = False, returns = True\<rparr>"
proof (rule op_okI [OF E, where n = 7 and P = "\<lambda>m m' c. unat (callGasTemp (evm m')) + unat (stipend E (stack m ! 2)) < unat c"], goal_cases)
  case (4 m sz)
  then show ?case using gas_call(1) [OF E, of m sz] by (simp add: covers_def [abs_def])
next
  case (5 C m m1 m2 c)
  then show ?case using exec_call(1) [OF 5(9)] by simp
qed (use v sized_rules in simp_all)

lemma entry_callcode:
  assumes E: "env_ok E I" and v: "checked 7 v"
  shows "op_ok E I CALLCODE \<lparr>execute = opCallCode, gasCost = gasCallCode, validateStack = v,
    memorySize = Some memoryCall, halts = False, jumps = False, writes = False, reverts = False, returns = True\<rparr>"
proof (rule op_okI [OF E, where n = 7 and P = "\<lambda>m m' c. unat (callGasTemp (evm m')) + unat (stipend E (stack m ! 2)) < unat c"], goal_cases)
  case (4 m sz)
  then show ?case using gas_call(2) [OF E, of m sz] by (simp add: covers_def [abs_def])
next
  case (5 C m m1 m2 c)
  then show ?case using exec_call(2) [OF 5(9)] by simp
qed (use v sized_rules in simp_all)

lemma entry_delegatecall:
  assumes E: "env_ok E I" and v: "checked 6 v"
  shows "op_ok E I DELEGATECALL \<lparr>execute = opDelegateCall, gasCost = gasDelegateCall, validateStack = v,
    memorySize = Some memoryDelegateCall, halts = False, jumps = False, writes = False, reverts = False, returns = True\<rparr>"
proof (rule op_okI [OF E, where n = 6 and P = "\<lambda>m m' c. unat (callGasTemp (evm m')) < unat c"], goal_cases)
  case (4 m sz)
  then show ?case using gas_plain_call(1) [OF E, of m sz] by (simp add: covers_def [abs_def] stipend_def)
next
  case (5 C m m1 m2 c)
  then show ?case using exec_plain_call(1) [OF 5(9) _ memory_max(1)] by simp
qed (use v sized_rules in simp_all)

lemma entry_staticcall:
  assumes E: "env_ok E I" and v: "checked 6 v"
  shows "op_ok E I STATICCALL \<lparr>execute = opStaticCall, gasCost = gasStaticCall, validateStack = v,
    memorySize = Some memoryStaticCall, halts = False, jumps = False, writes = False, reverts = False, returns = True\<rparr>"
proof (rule op_okI [OF E, where n = 6 and P = "\<lambda>m m' c. unat (callGasTemp (evm m')) < unat c"], goal_cases)
  case (4 m sz)
  then show ?case using gas_plain_call(2) [OF E, of m sz] by (simp add: covers_def [abs_def] stipend_def)
next
  case (5 C m m1 m2 c)
  then show ?case using exec_plain_call(2) [OF 5(9) _ memory_max(2)] by simp
qed (use v sized_rules in simp_all)

lemma entry_create:
  assumes E: "env_ok E I" and v: "checked 3 v"
  shows "op_ok E I CREATE \<lparr>execute = opCreate, gasCost = gasCreate, validateStack = v,
    memorySize = Some memoryCreate, halts = False, jumps = False, writes = True, reverts = False, returns = True\<rparr>"
proof (rule op_okI [OF E, where n = 3 and P = "\<lambda>m m' c. c \<noteq> 0"], goal_cases)
  case (4 m sz)
  then show ?case using gas_memory(4) [OF E, of 3 True] by (simp add: gas_ok_def)
next
  case (5 C m m1 m2 c)
  then show ?case using exec_create(1) [OF 5(9)] by (simp add: memory_at)
qed (use v sized_rules in simp_all)

lemma entry_create2:
  assumes E: "env_ok E I" and v: "checked 4 v"
  shows "op_ok E I CREATE2 \<lparr>execute = opCreate2, gasCost = gasCreate2, validateStack = v,
    memorySize = Some memoryCreate2, halts = False, jumps = False, writes = True, reverts = False, returns = True\<rparr>"
proof (rule op_okI [OF E, where n = 4 and P = "\<lambda>m m' c. c \<noteq> 0"], goal_cases)
  case (4 m sz)
  then show ?case using gas_copy(6) [OF E, of True] by (simp add: gas_ok_def)
next
  case (5 C m m1 m2 c)
  then show ?case using exec_create(2) [OF 5(9)] by (simp add: memory_at)
qed (use v sized_rules in simp_all)

lemmas call_entry = entry_call [OF _ checked_rules(1)] entry_callcode [OF _ checked_rules(1)]
  entry_delegatecall [OF _ checked_rules(1)] entry_staticcall [OF _ checked_rules(1)]
  entry_create [OF _ checked_rules(1)] entry_create2 [OF _ checked_rules(1)]

lemma table_system: "env_ok E I \<Longrightarrow> table_ok E I (system_ops (lib E))"
  unfolding system_ops_def table_defs
  by (intro conjI TrueI call_entry op_entry) (simp_all add: sized_rules exec_rules gas_rules del: One_nat_def)

lemma table_frontier:
  "env_ok E I \<Longrightarrow> closed_ro E lvl k I \<Longrightarrow> table_ok E I (NewFrontierInstructionSet (lib E))"
  by (simp add: NewFrontierInstructionSet_def table_arithmetic table_environment table_memory table_push table_dup
    table_swap table_system)

lemma table_forks:
  assumes "env_ok E I" and "closed_ro E lvl k I"
  shows "table_ok E I (NewHomesteadInstructionSet (lib E))" (is ?H)
    and "table_ok E I (NewByzantiumInstructionSet (lib E))" (is ?B)
    and "table_ok E I (NewConstantinopleInstructionSet (lib E))" (is ?C)
    and "table_ok E I (NewIstanbulInstructionSet (lib E))"
proof -
  note F = table_frontier [OF assms]
  show H: ?H unfolding NewHomesteadInstructionSet_def list_all_append table_defs
    by (intro conjI TrueI call_entry F assms) simp
  show B: ?B unfolding NewByzantiumInstructionSet_def list_all_append table_defs
    by (intro conjI TrueI call_entry op_entry H assms) (simp_all add: assms sized_rules exec_rules gas_rules)
  show C: ?C unfolding NewConstantinopleInstructionSet_def list_all_append table_defs
    by (intro conjI TrueI call_entry op_entry B assms)
      (simp_all add: assms sized_rules exec_rules gas_rules del: One_nat_def)
  show "table_ok E I (NewIstanbulInstructionSet (lib E))"
    unfolding NewIstanbulInstructionSet_def list_all_append table_defs
    by (intro conjI TrueI call_entry op_entry C assms) (simp_all add: assms sized_rules exec_rules gas_rules)
qed

lemma op_ok_table:
  assumes "env_ok E I" and "closed_ro E lvl k I" and "map_of (NewInterpreter_table E) op = Some o1"
  shows "op_ok E I op o1"
proof -
  have "table_ok E I (NewInterpreter_table E)"
    unfolding NewInterpreter_table_def using table_frontier [OF assms(1,2)] table_forks [OF assms(1,2)] by simp
  then show ?thesis using assms(3) map_of_SomeD by (fastforce simp: list_all_iff)
qed

end
