(* ===== verification/VmTotal.thy ===== *)
theory VmTotal
  imports VmTables
begin

text \<open>
  Runs, calls and creations as a whole (src/vm/interpreter.go, src/vm/evm.go).

  \<open>runner_ok\<close> is what a frame promises to the frame that started it.  By induction on the fuel the
  interpreter loop keeps the promise when its calls keep it with less gas; the theorems at the end
  state what follows for a new machine: every call and every creation returns, gives back at most
  the gas it got, and a static call cannot change the state.
\<close>

section \<open>Runs\<close>

definition runner_ok :: "('s, 't) Env \<Rightarrow> ('s \<Rightarrow> bool) \<Rightarrow> nat \<Rightarrow> ('s, 't) runner \<Rightarrow> bool" where
  "runner_ok E I b L \<longleftrightarrow>
     (\<forall>m. frame_ok E I m \<longrightarrow> unat (Gas (contract m)) < b \<longrightarrow>
        (\<exists>m' ret err. L m = Some (m', ret, err) \<and> frame_ok E I m' \<and> same (evm m) (evm m') \<and>
           Gas (contract m') \<le> Gas (contract m) \<and> length ret \<le> max_code))"

definition run_ok :: "('s, 't) Env \<Rightarrow> ('s \<Rightarrow> bool) \<Rightarrow> 's EVM \<Rightarrow> u64 \<Rightarrow> ('s, 't) run_result \<Rightarrow> bool" where
  "run_ok E I e gas r \<longleftrightarrow>
     (\<exists>e' t c ret err. r = Some (e', t, c, ret, err) \<and> evm_ok E I e' \<and> same e e' \<and> Gas c \<le> gas \<and> length ret \<le> max_code)"

lemma run_ok_Some [simp]:
  "run_ok E I e gas (Some (e', t, c, ret, err)) \<longleftrightarrow>
     evm_ok E I e' \<and> same e e' \<and> Gas c \<le> gas \<and> length ret \<le> max_code"
  by (simp add: run_ok_def)

lemma intercept_ok:
  assumes E: "env_ok E I" "closed_ro E lvl k I" and e: "evm_ok E I e" and i: "intercept E e c input = Some (s, gas, out, err)"
  shows "I s" and "gas \<le> Gas c" and "length out \<le> max_code"
proof -
  obtain hook where h: "InterceptContractCall (ctx E) = Some hook"
    "hook e (c\<lparr>Input := input\<rparr>) (readOnly e) = Some (s, gas, out, err)"
    using i by (auto simp: intercept_def split: option.splits if_splits)
  have "gas \<le> Gas (c\<lparr>Input := input\<rparr>) \<and> length out \<le> max_code"
    using E(1) h unfolding env_ok_def outside_ok_def by blast
  then show "gas \<le> Gas c" and "length out \<le> max_code" by simp_all
  show "I s"
  proof (cases "readOnly e")
    case True
    with h show ?thesis using intercept_closed(1) [OF E(2) h(1) evm_ok_D(1) [OF e]] by simp
  next
    case False
    then have "closed_rw E I" using evm_ok_D(2) [OF e] by simp
    from intercept_closed(2) [OF this h(1) evm_ok_D(1) [OF e]] False h show ?thesis by simp
  qed
qed

lemma evm_ok_returnData: "evm_ok E I e \<Longrightarrow> length bs \<le> max_code \<Longrightarrow> evm_ok E I (e\<lparr>returnData := bs\<rparr>)"
  by (simp add: evm_ok_def)

lemma Run_ok:
  assumes E: "env_ok E I" "closed_ro E lvl k I" and L: "runner_ok E I b L" and e: "evm_ok E I e"
    and c: "contract_fits (lib E) c" "unat (Gas c) < b" and input: "length input \<le> max_code"
  shows "run_ok E I e (Gas c) (Run L E e t c input)"
proof -
  define e1 where "e1 = e\<lparr>depth := depth e + 1, returnData := []\<rparr>"
  have e1: "evm_ok E I e1" "depth e1 = depth e + 1" "readOnly e1 = readOnly e"
    using e by (simp_all add: e1_def evm_ok_def)
  have run: "Run L E e t c input =
      (case intercept E e1 c input of
         Some (s, gas, out, err) \<Rightarrow> Some (leave (e1\<lparr>statedb := s\<rparr>), t, c\<lparr>Gas := gas\<rparr>, out, err)
       | None \<Rightarrow> if Code c = [] then Some (leave e1, t, c, [], None)
           else do {
             (m, ret, err) \<leftarrow> L (start_frame e1 t c input);
             Some (leave (evm m), trc m, contract m, ret, err)
           })"
    by (simp only: Run_def e1_def Let_def)
  show ?thesis
  proof (cases "intercept E e1 c input")
    case (Some r)
    obtain s gas out err where r: "r = (s, gas, out, err)" by (cases r)
    have "I s" "gas \<le> Gas c" "length out \<le> max_code"
      by (rule intercept_ok [OF E e1(1) Some [unfolded r]])+
    with Some r e1 show ?thesis by (simp add: run leave_def same_def evm_ok_statedb)
  next
    case None
    show ?thesis
    proof (cases "Code c = []")
      case True
      with None e1 show ?thesis by (simp add: run leave_def same_def)
    next
      case False
      have m: "frame_ok E I (start_frame e1 t c input)" "unat (Gas (contract (start_frame e1 t c input))) < b"
        using e1 c input by (simp_all add: start_frame_def frame_ok_def contract_fits_def NewMemory_def Len_def)
      with L obtain m' ret err where "L (start_frame e1 t c input) = Some (m', ret, err)" and "frame_ok E I m'"
        and "same (evm (start_frame e1 t c input)) (evm m')" and "Gas (contract m') \<le> Gas (contract (start_frame e1 t c input))"
        and "length ret \<le> max_code" unfolding runner_ok_def by blast
      with None False e1 show ?thesis
        by (simp add: run leave_def same_def frame_ok_def start_frame_def)
    qed
  qed
qed

lemma UseGas_le: "Gas (snd (UseGas g c)) \<le> Gas c"
  by (simp add: word_sub_le)

lemma run_total:
  assumes E: "env_ok E I" "closed_ro E lvl k I" and L: "runner_ok E I b L" and e: "evm_ok E I e"
    and c: "contract_fits (lib E) c" "unat (Gas c) < b" and input: "length input \<le> max_code" and b: "b < 2 ^ 64"
  shows "run_ok E I e (Gas c) (run L E e t c input)"
proof (cases "case CodeAddr c of Some a \<Rightarrow> precompiles E a | None \<Rightarrow> None")
  case None
  then show ?thesis using Run_ok [OF E L e c input] by (simp add: run_def)
next
  case (Some p)
  then obtain a where "precompiles E a = Some p" by (auto split: option.splits)
  then have p: "length (fst (PRun p input)) \<le> max_code" if "RequiredGas p input \<noteq> -1"
    using E(1) input that by (simp add: env_ok_def outside_ok_def)
  have "RequiredGas p input \<noteq> -1" if "RequiredGas p input \<le> Gas c"
  proof
    assume "RequiredGas p input = -1"
    with that have "Gas c = -1" by (simp add: antisym)
    then have "unat (Gas c) = 2 ^ 64 - 1" by (simp only: unsigned_minus_1_eq_mask) (simp add: mask_eq_exp_minus_1)
    with c(2) b show False by simp
  qed
  with p Some e show ?thesis
    by (cases "PRun p input") (auto simp: run_def RunPrecompiledContract_def UseGas_def not_less word_sub_le)
qed

text \<open>
  \<open>above\<close> restricts a predicate to the states in which the snapshot \<open>n\<close> exists: the run that follows a
  snapshot keeps it, so the snapshot can be reverted to.
\<close>

abbreviation above :: "('s \<Rightarrow> nat) \<Rightarrow> nat \<Rightarrow> ('s \<Rightarrow> bool) \<Rightarrow> 's \<Rightarrow> bool" where
  "above lvl n I \<equiv> \<lambda>s. I s \<and> n < lvl s"

lemma evm_ok_above:
  assumes "levels_ok E lvl I" and "closed_ro E lvl k I" and "k \<le> n" and "evm_ok E I e" and "n < lvl (statedb e)"
  shows "evm_ok E (above lvl n I) e"
  using assms levels_above(3) [OF assms(1-3)] by (auto simp: evm_ok_def)

lemma evm_ok_below: "evm_ok E (above lvl n I) e \<Longrightarrow> (\<not> protected E e \<Longrightarrow> closed_rw E I) \<Longrightarrow> evm_ok E I e"
  by (auto simp: evm_ok_def)

text \<open>The promise of a runner for all state predicates.\<close>

definition runner_safe :: "('s, 't) Env \<Rightarrow> ('s \<Rightarrow> nat) \<Rightarrow> nat \<Rightarrow> ('s, 't) runner \<Rightarrow> bool" where
  "runner_safe E lvl b L \<longleftrightarrow>
     (\<forall>I k. env_ok E I \<longrightarrow> levels_ok E lvl I \<longrightarrow> closed_ro E lvl k I \<longrightarrow> runner_ok E I b L)"

lemma runner_safeD:
  "runner_safe E lvl b L \<Longrightarrow> env_ok E I \<Longrightarrow> levels_ok E lvl I \<Longrightarrow> closed_ro E lvl k I \<Longrightarrow> runner_ok E I b L"
  by (auto simp: runner_safe_def)

lemma settle_ok:
  assumes I: "closed_ro E lvl k I" and r: "run_ok E (above lvl n I) e gas r" and n: "k \<le> n"
    and rw: "\<not> protected E e \<Longrightarrow> closed_rw E I"
  shows "call_ok E I e gas (map_option (settle E n) r)"
proof -
  obtain e' t c ret err where r: "r = Some (e', t, c, ret, err)" and e': "evm_ok E (above lvl n I) e'" "same e e'"
    and gas: "Gas c \<le> gas" "length ret \<le> max_code"
    using r unfolding run_ok_def by blast
  have "readOnly e' = readOnly e" using e'(2) by (simp add: same_def)
  then have ok: "evm_ok E I e'" using evm_ok_below [OF e'(1)] rw by simp
  have "n < lvl (statedb e')" using evm_ok_D(1) [OF e'(1)] by simp
  then have "I (RevertToSnapshot (sdb E) n (statedb e'))" using closed_roD(2) [OF I evm_ok_D(1) [OF ok] n] by simp
  with r ok e' gas show ?thesis
    by (auto simp: call_ok_def settle_def same_def evm_ok_statedb UseGas_def)
qed

lemma with_hooks_ok:
  assumes "\<And>e' t'. evm_ok E I e' \<Longrightarrow> same e e' \<Longrightarrow> statedb e' = statedb e \<Longrightarrow> call_ok E I e' g (body e' t')" and "evm_ok E I e"
  shows "call_ok E I e g (with_hooks E enter exit gas body e t)"
proof -
  obtain e1 t1 where t1: "traced E enter (e, t) = (e1, t1)" by force
  have e1: "evm_ok E I e1" "same e e1" "statedb e1 = statedb e" using traced_ok [OF t1, of I] assms(2) by auto
  from assms(1) [OF this, of t1] obtain e2 t2 ret left err where b: "body e1 t1 = Some (e2, t2, ret, left, err)"
    and e2: "evm_ok E I e2" "same e1 e2" "left \<le> g" "length ret \<le> max_code" unfolding call_ok_def by blast
  obtain e3 t3 where t3: "traced E (exit ret (gas - left) err) (e2, t2) = (e3, t3)" by force
  have "evm_ok E I e3" "same e2 e3" using traced_ok [OF t3, of I] e2(1) by auto
  with t1 b t3 e1 e2 show ?thesis
    by (auto simp: with_hooks_def call_ok_def intro: same_trans [OF same_trans])
qed

text \<open>A new frame on the code of an address.\<close>

lemma new_frame_ok:
  assumes "env_ok E I" and "I s" and "value c \<noteq> None" and "analysis c = None" and "Input c = []"
  shows "contract_fits (lib E) (new_frame E s addr c)"
  using assms by (auto simp: env_ok_def codes_ok_def new_frame_def contract_fits_def SetCallCode_def)

lemma new_frame_gas [simp]: "Gas (new_frame E s addr c) = Gas c"
  by (simp add: new_frame_def SetCallCode_def)

text \<open>A frame that starts right after the snapshot \<open>n\<close>.\<close>

lemma run_after_snapshot:
  assumes E: "env_ok E I" "levels_ok E lvl I" "closed_ro E lvl k I" and L: "runner_safe E lvl b L" "b < 2 ^ 64"
    and e: "evm_ok E I e" "n < lvl (statedb e)" and n: "k \<le> n"
    and c: "contract_fits (lib E) c" "unat (Gas c) < b" and input: "length input \<le> max_code"
  shows "run_ok E (above lvl n I) e (Gas c) (run L E e t c input)"
proof -
  note above = env_ok_above [OF E(1)] levels_above [OF E(2,3) n]
  have "runner_ok E (above lvl n I) b L" by (rule runner_safeD [OF L(1) above(1-3)])
  from run_total [OF above(1,3) this evm_ok_above [OF E(2,3) n e] c input L(2)] show ?thesis .
qed

lemma snapshot_step:
  assumes "levels_ok E lvl I" and "closed_ro E lvl k I" and "I s" and "Snapshot (sdb E) s = (n, s')"
  shows "k \<le> n" and "I s'" and "lvl s' = Suc n"
  using assms(4) closed_roD(1,6) [OF assms(2,3)] levels_okD(1,8) [OF assms(1,3)] by auto

lemma create_level:
  "levels_ok E lvl I \<Longrightarrow> OnCreateContract (ctx E) = Some f \<Longrightarrow> I (statedb e) \<Longrightarrow> lvl (f e a b) = lvl (statedb e)"
  by (simp add: levels_ok_def)

lemma create_closed:
  assumes "closed_rw E I" and "OnCreateContract (ctx E) = Some f" and "I (statedb e)"
  shows "I (f e a b)" and "CanTransfer (ctx E) (statedb e) c v \<Longrightarrow> CanTransfer (ctx E) (f e a b) c v"
  using assms by (simp_all add: closed_rw_def)

lemma call_total:
  assumes E: "env_ok E I" "levels_ok E lvl I" "closed_ro E lvl k I" and L: "runner_safe E lvl b L" "b < 2 ^ 64"
    and e: "evm_ok E I e" and gas: "unat gas < b" and input: "length input \<le> max_code"
    and v: "protected E e \<Longrightarrow> val = 0" "0 \<le> val"
  shows "call_ok E I e gas (call L E caller addr input gas val e t)"
proof -
  obtain n s where snap: "Snapshot (sdb E) (statedb e) = (n, s)" by force
  note I = evm_ok_D(1) [OF e]
  note n = snapshot_step [OF E(2,3) I snap]
  define s1 where "s1 = (if \<not> Exist (sdb E) addr s then CreateAccount (sdb E) addr s else s)"
  have s1: "I s1" "lvl s1 = Suc n" using closed_roD(3) [OF E(3) n(2)] levels_okD(3) [OF E(2) n(2)] n by (simp_all add: s1_def)
  define s2 where "s2 = Transfer (ctx E) s1 caller addr val"
  have s2: "I s2" if ok: "CanTransfer (ctx E) (statedb e) caller val"
  proof (cases "protected E e")
    case True
    then show ?thesis using v closed_roD(4) [OF E(3) s1(1)] by (simp add: s2_def)
  next
    case False
    note rw = evm_ok_D(2) [OF e False]
    have "CanTransfer (ctx E) s caller val" using closed_rwD(7) [OF rw I ok] snap by simp
    then have "CanTransfer (ctx E) s1 caller val" using closed_rwD(8) [OF rw n(2)] by (simp add: s1_def)
    then show ?thesis using closed_rwD(1) [OF rw s1(1) _ v(2)] by (simp add: s2_def)
  qed
  define c where "c = new_frame E s2 addr (NewContract caller addr (Some val) gas)"
  have c: "CanTransfer (ctx E) (statedb e) caller val \<Longrightarrow> contract_fits (lib E) c" "Gas c = gas"
    using new_frame_ok [OF E(1) s2] by (simp_all add: c_def NewContract_def)
  let ?r = "run L E (e\<lparr>statedb := s2\<rparr>) t c input"
  have "call_ok E I e gas (map_option (settle E n) ?r)" if ok: "CanTransfer (ctx E) (statedb e) caller val"
  proof -
    have "n < lvl s2" using levels_okD(4) [OF E(2) s1(1)] s1(2) by (simp add: s2_def)
    then have "run_ok E (above lvl n I) (e\<lparr>statedb := s2\<rparr>) (Gas c) ?r"
      by (intro run_after_snapshot [OF E L evm_ok_statedb [OF e s2 [OF ok]] _ n(1) c(1) [OF ok] _ input])
        (simp_all add: c(2) gas)
    then have "run_ok E (above lvl n I) e gas ?r" by (simp add: run_ok_def same_def c(2))
    from settle_ok [OF E(3) this n(1)] show ?thesis using evm_ok_D(2) [OF e] by blast
  qed
  then show ?thesis
    using e evm_ok_statedb [OF e n(2)] snap
    by (auto simp: call_def call_ok_def Let_def c_def s2_def s1_def same_def)
qed

lemma call_code_total:
  assumes E: "env_ok E I" "levels_ok E lvl I" "closed_ro E lvl k I" and L: "runner_safe E lvl b L" "b < 2 ^ 64"
    and e: "evm_ok E I e" and gas: "unat (Gas c) < b" and input: "length input \<le> max_code"
    and c: "value c \<noteq> None" "analysis c = None" "Input c = []"
  shows "call_ok E I e (Gas c) (call_code L E op caller addr val c input gas e t)"
  unfolding call_code_def
proof (rule with_hooks_ok [OF _ e])
  fix e' and t' :: 'b
  assume e': "evm_ok E I e'"
  obtain n s where snap: "Snapshot (sdb E) (statedb e') = (n, s)" by force
  note n = snapshot_step [OF E(2,3) evm_ok_D(1) [OF e'] snap]
  let ?c = "new_frame E s addr c"
  have "run_ok E (above lvl n I) (e'\<lparr>statedb := s\<rparr>) (Gas ?c) (run L E (e'\<lparr>statedb := s\<rparr>) t' ?c input)"
    by (intro run_after_snapshot [OF E L evm_ok_statedb [OF e' n(2)] _ n(1) new_frame_ok [OF E(1) n(2) c] _ input])
      (simp_all add: gas n(3))
  then have "run_ok E (above lvl n I) e' (Gas c) (run L E (e'\<lparr>statedb := s\<rparr>) t' ?c input)" by (simp add: run_ok_def same_def)
  from settle_ok [OF E(3) this n(1)] evm_ok_D(2) [OF e']
  have "call_ok E I e' (Gas c) (map_option (settle E n) (run L E (e'\<lparr>statedb := s\<rparr>) t' ?c input))" by blast
  with snap show "call_ok E I e' (Gas c) (let (snapshot, s) = Snapshot (sdb E) (statedb e')
      in map_option (settle E snapshot) (run L E (e'\<lparr>statedb := s\<rparr>) t' (new_frame E s addr c) input))" by simp
qed

lemma call_ok_early: "evm_ok E I e \<Longrightarrow> call_ok E I e gas (Some (e, t, [], gas, err))"
  by (simp add: call_ok_def)

lemma NewContract_fields [simp]:
  "Gas (NewContract a b v g) = g" "value (NewContract a b v g) = v" "analysis (NewContract a b v g) = None"
  "Input (NewContract a b v g) = []" "self (NewContract a b v g) = b"
  by (simp_all add: NewContract_def)

lemma AsDelegate_fields [simp]:
  "Gas (AsDelegate p c) = Gas c" "value (AsDelegate p c) = value p" "analysis (AsDelegate p c) = analysis c"
  "Input (AsDelegate p c) = Input c"
  by (simp_all add: AsDelegate_def)

lemma StaticCall_total:
  assumes E: "env_ok E I" "levels_ok E lvl I" "closed_ro E lvl k I" and L: "runner_safe E lvl b L" "b < 2 ^ 64" and e: "evm_ok E I e"
    and gas: "unat gas < b" and input: "length input \<le> max_code"
  shows "call_ok E I e gas (StaticCall L E e t caller addr input gas)"
proof (cases "NoRecursion E \<and> depth e > 0 \<or> depth e > CallCreateDepth (lib E)")
  case True
  then show ?thesis using call_ok_early [OF e] by (auto simp: StaticCall_def)
next
  case False
  let ?c = "NewContract caller addr (Some 0) gas"
  have e1: "evm_ok E I (e\<lparr>readOnly := True\<rparr>)" using e by (auto simp: evm_ok_def)
  from call_code_total [OF E L e1, of ?c input] gas input
  have "call_ok E I (e\<lparr>readOnly := True\<rparr>) gas (call_code L E STATICCALL caller addr None ?c input gas (e\<lparr>readOnly := True\<rparr>) t)"
    by simp
  then obtain e' t' ret left err where
    r: "call_code L E STATICCALL caller addr None ?c input gas (e\<lparr>readOnly := True\<rparr>) t = Some (e', t', ret, left, err)"
    and e': "evm_ok E I e'" "same (e\<lparr>readOnly := True\<rparr>) e'" "left \<le> gas" "length ret \<le> max_code"
    unfolding call_ok_def by blast
  have "evm_ok E I (e'\<lparr>readOnly := False\<rparr>)" if "\<not> readOnly e"
    using e' evm_ok_D(2) [OF e] that by (simp add: evm_ok_def)
  with False r e' show ?thesis by (auto simp: StaticCall_def call_ok_def same_def)
qed

lemma store_code_ok:
  assumes I: "levels_ok E lvl I" "closed_ro E lvl k I" "closed_rw E I" and r: "run_ok E (above lvl n I) e gas r" and n: "k \<le> n"
  shows "create_ok E I e gas (map_option (store_code E n addr) r)"
proof -
  let ?J = "above lvl n I"
  obtain e' t c ret err where r: "r = Some (e', t, c, ret, err)" and e': "evm_ok E ?J e'" "same e e'"
    and gas: "Gas c \<le> gas" and ret: "length ret \<le> max_code"
    using r unfolding run_ok_def by blast
  note J = evm_ok_D(1) [OF e'(1)]
  let ?x = "IsEIP158 (chainConfig E) (blockNumber E) \<and> length ret > MaxCodeSize (lib E)"
  define u where "u = UseGas (of_nat (length ret) * CreateDataGas (lib E)) c"
  define e1 where "e1 = (if err = None \<and> \<not> ?x \<and> fst u then e'\<lparr>statedb := SetCode (sdb E) addr ret (statedb e')\<rparr> else e')"
  define c1 where "c1 = (if err = None \<and> \<not> ?x then snd u else c)"
  define err1 where "err1 = (if err = None \<and> \<not> ?x then (if fst u then None else Some ErrCodeStoreOutOfGas) else err)"
  have e1: "evm_ok E ?J e1" "same e e1"
    using e' closed_rwD(6) [OF levels_above(3) [OF I(1,2) n I(3)] J ret] by (auto simp: e1_def same_def intro: evm_ok_statedb)
  have e1': "evm_ok E I e1" using evm_ok_below [OF e1(1)] I(3) by simp
  have c1: "Gas c1 \<le> gas" using UseGas_le [of "of_nat (length ret) * CreateDataGas (lib E)" c] gas
    by (auto simp: c1_def u_def)
  have rv: "I (RevertToSnapshot (sdb E) n (statedb e1))"
    using closed_roD(2) [OF I(2) _ n] evm_ok_D(1) [OF e1(1)] by simp
  define P where "P \<longleftrightarrow> ?x \<or> (err1 \<noteq> None \<and> (IsHomestead (chainConfig E) (blockNumber E) \<or> err1 \<noteq> Some ErrCodeStoreOutOfGas))"
  have "store_code E n addr (e', t, c, ret, err) =
      (if P then e1\<lparr>statedb := RevertToSnapshot (sdb E) n (statedb e1)\<rparr> else e1, t, ret, addr,
       Gas (if P \<and> err1 \<noteq> Some ErrExecutionReverted then snd (UseGas (Gas c1) c1) else c1),
       if ?x \<and> err1 = None then Some errMaxCodeSizeExceeded else err1)"
    by (cases u) (auto simp: store_code_def Let_def u_def [symmetric] e1_def c1_def err1_def P_def)
  moreover have "evm_ok E I (if P then e1\<lparr>statedb := RevertToSnapshot (sdb E) n (statedb e1)\<rparr> else e1)"
    using e1' evm_ok_statedb [OF e1' rv] by simp
  moreover have "Gas (if P \<and> err1 \<noteq> Some ErrExecutionReverted then snd (UseGas (Gas c1) c1) else c1) \<le> gas"
    using c1 by (simp add: UseGas_def)
  ultimately show ?thesis using r e1 ret by (auto simp: create_ok_def same_def)
qed

lemma create_total:
  assumes E: "env_ok E I" "levels_ok E lvl I" "closed_ro E lvl k I" and L: "runner_safe E lvl b L" "b < 2 ^ 64" and e: "evm_ok E I e"
    and gas: "unat gas < b" and code: "length code \<le> max_code" and w: "\<not> protected E e" and v: "0 \<le> val"
  shows "create_ok E I e gas (create L E caller code gas val addr e t)"
proof -
  note rw = evm_ok_D(2) [OF e w]
  define s1 where "s1 = SetNonce (sdb E) caller (GetNonce (sdb E) caller (statedb e) + 1) (statedb e)"
  have s1: "I s1" using closed_rwD(5) [OF rw evm_ok_D(1) [OF e]] by (simp add: s1_def)
  define e1 where "e1 = e\<lparr>statedb := s1, contractCreationCount := contractCreationCount e + 1\<rparr>"
  have e1: "evm_ok E I e1" "same e e1" using e s1 by (auto simp: e1_def evm_ok_def same_def)
  obtain n s2 where snap: "Snapshot (sdb E) s1 = (n, s2)" by force
  note n = snapshot_step [OF E(2,3) s1 snap]
  define s3 where "s3 = (if IsEIP158 (chainConfig E) (blockNumber E)
    then SetNonce (sdb E) addr 1 (CreateAccount (sdb E) addr s2) else CreateAccount (sdb E) addr s2)"
  note s2 = closed_roD(3) [OF E(3) n(2), of addr]
  have s3: "I s3" "lvl s3 = Suc n" using closed_rwD(5) [OF rw s2] s2 levels_okD(3) [OF E(2) n(2)] levels_okD(5) [OF E(2) s2] n(3)
    by (simp_all add: s3_def)
  define s4 where "s4 = (case OnCreateContract (ctx E) of Some f \<Rightarrow> f (e1\<lparr>statedb := s3\<rparr>) addr caller | None \<Rightarrow> s3)"
  have s4: "I s4" using s3 create_closed(1) [OF rw, of _ "e1\<lparr>statedb := s3\<rparr>"] by (simp add: s4_def split: option.split)
  have l4: "lvl s4 = Suc n"
  proof (cases "OnCreateContract (ctx E)")
    case (Some f)
    from create_level [OF E(2) this, of "e1\<lparr>statedb := s3\<rparr>"] Some s3 show ?thesis by (simp add: s4_def)
  qed (simp add: s4_def s3(2))
  define s5 where "s5 = Transfer (ctx E) s4 caller addr val"
  have s5: "I s5" if ok: "CanTransfer (ctx E) (statedb e) caller val"
  proof -
    have "CanTransfer (ctx E) s1 caller val" using closed_rwD(9) [OF rw evm_ok_D(1) [OF e] ok] by (simp add: s1_def)
    then have "CanTransfer (ctx E) s2 caller val" using closed_rwD(7) [OF rw s1] snap by fastforce
    then have "CanTransfer (ctx E) (CreateAccount (sdb E) addr s2) caller val" by (rule closed_rwD(8) [OF rw n(2)])
    then have "CanTransfer (ctx E) s3 caller val" using closed_rwD(9) [OF rw s2] by (simp add: s3_def)
    then have "CanTransfer (ctx E) s4 caller val"
      using s3 create_closed(2) [OF rw, of _ "e1\<lparr>statedb := s3\<rparr>"] by (simp add: s4_def split: option.split)
    then show ?thesis using closed_rwD(1) [OF rw s4 _ v] by (simp add: s5_def)
  qed
  have l5: "n < lvl s5" using levels_okD(4) [OF E(2) s4] l4 by (simp add: s5_def)
  define c where "c = SetCallCode addr (Keccak256 (lib E) code) code (NewContract caller addr (Some val) gas)"
  have c: "contract_fits (lib E) c" "Gas c = gas"
    using code by (simp_all add: c_def contract_fits_def SetCallCode_def)
  define e2 where "e2 = e1\<lparr>statedb := s5\<rparr>"
  have e2: "evm_ok E I e2" "same e e2" if "CanTransfer (ctx E) (statedb e) caller val"
    using e1 s5 [OF that] by (simp_all add: e2_def evm_ok_statedb same_def)
  have r: "create_ok E I e gas (map_option (store_code E n addr) (run L E e2 t c []))"
    if ok: "CanTransfer (ctx E) (statedb e) caller val"
  proof -
    have "run_ok E (above lvl n I) e2 (Gas c) (run L E e2 t c [])"
      by (intro run_after_snapshot [OF E L e2(1) [OF ok] _ n(1) c(1)]) (simp_all add: c(2) gas e2_def l5)
    then have "run_ok E (above lvl n I) e gas (run L E e2 t c [])" using e2(2) [OF ok] by (auto simp: run_ok_def c(2) same_def)
    from store_code_ok [OF E(2,3) rw this n(1)] show ?thesis .
  qed
  have "create L E caller code gas val addr e t =
      (if depth e > CallCreateDepth (lib E) then Some (e, t, [], 0, gas, Some ErrDepth)
       else if \<not> CanTransfer (ctx E) (statedb e) caller val then Some (e, t, [], 0, gas, Some ErrInsufficientBalance)
       else if GetNonce (sdb E) addr s1 \<noteq> 0 \<or>
         (GetCodeHash (sdb E) addr s1 \<noteq> 0 \<and> GetCodeHash (sdb E) addr s1 \<noteq> emptyCodeHash (lib E))
       then Some (e1, t, [], 0, 0, Some ErrContractAddressCollision)
       else if NoRecursion E \<and> depth e2 > 0 then Some (e2, t, [], addr, gas, None)
       else map_option (store_code E n addr) (run L E e2 t c []))"
    by (simp only: create_def s1_def [symmetric] e1_def [symmetric] snap Let_def split_conv s3_def [symmetric]
        s4_def [symmetric] s5_def [symmetric] c_def [symmetric] e2_def [symmetric])
  then show ?thesis using r e e1 e2 by (auto simp: create_ok_def)
qed

lemma with_create_hooks_ok:
  assumes "\<And>e' t'. evm_ok E I e' \<Longrightarrow> same e e' \<Longrightarrow> create_ok E I e' g (body e' t')" and "evm_ok E I e"
  shows "create_ok E I e g (with_create_hooks E enter exit gas body e t)"
proof -
  obtain e1 t1 where t1: "traced E enter (e, t) = (e1, t1)" by force
  have e1: "evm_ok E I e1" "same e e1" using traced_ok [OF t1, of I] assms(2) by auto
  from assms(1) [OF this, of t1] obtain e2 t2 ret addr left err where b: "body e1 t1 = Some (e2, t2, ret, addr, left, err)"
    and e2: "evm_ok E I e2" "same e1 e2" "left \<le> g" "length ret \<le> max_code" unfolding create_ok_def by blast
  obtain e3 t3 where t3: "traced E (exit ret (gas - left) err) (e2, t2) = (e3, t3)" by force
  have "evm_ok E I e3" "same e2 e3" using traced_ok [OF t3, of I] e2(1) by auto
  with t1 b t3 e1 e2 show ?thesis
    by (auto simp: with_create_hooks_def create_ok_def intro: same_trans [OF same_trans])
qed

lemma protected_same: "same e e' \<Longrightarrow> readOnly e' = readOnly e"
  by (simp add: same_def)

lemma mkCalls_ok:
  assumes E: "env_ok E I" "levels_ok E lvl I" "closed_ro E lvl k I" and L: "runner_safe E lvl b L" "b < 2 ^ 64"
  shows "calls_ok E I b (mkCalls L E)"
  unfolding calls_ok_def
proof (intro allI impI conjI)
  fix e t a addr and input :: bytes and gas :: u64 and v
  assume e: "evm_ok E I e" and gas: "unat gas < b" and input: "length input \<le> max_code"
  note code = call_code_total [OF E L e, where input = input]
  show "call_ok E I e gas (do_Call (mkCalls L E) e t a addr input gas v)" if "protected E e \<longrightarrow> v = 0" "0 \<le> v"
    unfolding mkCalls_def Calls.simps Call_def
    by (rule with_hooks_ok [OF call_total [OF E L _ gas input] e]) (use that in \<open>auto simp: protected_same\<close>)
  show "call_ok E I e gas (do_CallCode (mkCalls L E) e t a addr input gas v)"
    using call_ok_early [OF e] code [of "NewContract a a (Some v) gas"] gas input by (simp add: mkCalls_def CallCode_def)
  show "call_ok E I e gas (do_DelegateCall (mkCalls L E) e t c addr input gas)" if "value c \<noteq> None" for c
    using call_ok_early [OF e] code [of "AsDelegate c (NewContract (self c) (self c) None gas)"] gas input that
    by (simp add: mkCalls_def DelegateCall_def)
  show "call_ok E I e gas (do_StaticCall (mkCalls L E) e t a addr input gas)"
    using StaticCall_total [OF E L e gas input] by (simp add: mkCalls_def)
  assume w: "\<not> protected E e" "0 \<le> v"
  show "create_ok E I e gas (do_Create (mkCalls L E) e t a input gas v)"
    unfolding mkCalls_def Calls.simps Create_def Let_def
    by (rule with_create_hooks_ok [OF create_total [OF E L _ gas input] e]) (use w in \<open>auto simp: protected_same\<close>)
  show "create_ok E I e gas (do_Create2 (mkCalls L E) e t a input gas v salt)" for salt
    unfolding mkCalls_def Calls.simps Create2_def Let_def
    by (rule with_create_hooks_ok [OF create_total [OF E L _ gas input] e]) (use w in \<open>auto simp: protected_same\<close>)
qed

section \<open>The loop\<close>

lemma step_total:
  assumes "env_ok E I" and "closed_ro E lvl k I" and "frame_ok E I m" and "calls_ok E I (unat (Gas (contract m))) C"
  shows "step_ok E I m (step E C m)"
  using assms op_ok_table [OF assms(1,2)]
  by (auto simp: step_def op_ok_def fail_def Let_def split: option.splits)

lemma capture_error_ok:
  assumes "frame_ok E I m'" and "same (evm m) (evm m')"
  shows "frame_ok E I (capture_error E m m' err logged)" and "same (evm m) (evm (capture_error E m m' err logged))"
    and "contract (capture_error E m m' err logged) = contract m'"
  using assms traced_ok [of E _ "evm m'" "trc m'", of _ _ _ I]
  by (auto simp: capture_error_def frame_ok_def Let_def split: option.splits prod.splits intro: same_trans)

lemma runner_okD:
  assumes "runner_ok E I b L" and "frame_ok E I m" and "unat (Gas (contract m)) < b"
  obtains m' ret err where "L m = Some (m', ret, err)" "frame_ok E I m'" "same (evm m) (evm m')"
    "Gas (contract m') \<le> Gas (contract m)" "length ret \<le> max_code"
  using assms unfolding runner_ok_def by blast

lemma runner_ok_mono: "runner_ok E I b L \<Longrightarrow> b' \<le> b \<Longrightarrow> runner_ok E I b' L"
  unfolding runner_ok_def by (meson less_le_trans)

lemma runner_safe_mono: "runner_safe E lvl b L \<Longrightarrow> b' \<le> b \<Longrightarrow> runner_safe E lvl b' L"
  by (auto simp: runner_safe_def intro: runner_ok_mono)

lemma loop_safe: "runner_safe E lvl (min n (2 ^ 64 - 1)) (loop n E)"
proof (induction n)
  case 0
  show ?case by (simp add: runner_safe_def runner_ok_def)
next
  case (Suc n)
  show ?case
    unfolding runner_safe_def runner_ok_def
  proof (intro allI impI)
    fix I k and m :: "('a, 'b) M"
    assume E: "env_ok E I" "levels_ok E lvl I" "closed_ro E lvl k I"
    assume m: "frame_ok E I m" and gas: "unat (Gas (contract m)) < min (Suc n) (2 ^ 64 - 1)"
    have "runner_safe E lvl (unat (Gas (contract m))) (loop n E)"
      using gas by (intro runner_safe_mono [OF Suc.IH]) linarith
    note s = step_total [OF E(1,3) m mkCalls_ok [OF E this]]
    have IH: "runner_ok E I (min n (2 ^ 64 - 1)) (loop n E)" by (rule runner_safeD [OF Suc.IH E])
    show "\<exists>m' ret err. loop (Suc n) E m = Some (m', ret, err) \<and> frame_ok E I m' \<and> same (evm m) (evm m') \<and>
        Gas (contract m') \<le> Gas (contract m) \<and> length ret \<le> max_code"
    proof (cases "step E (mkCalls (loop n E) E) m")
      case None
      with s gas show ?thesis by (simp add: step_ok_def)
    next
      case (Some r)
      show ?thesis
      proof (cases r)
        case (Next m1)
        with s gas Some have m1: "frame_ok E I m1" "same (evm m) (evm m1)" "Gas (contract m1) < Gas (contract m)" by simp_all
        then have "unat (Gas (contract m1)) < unat (Gas (contract m))" by (simp add: word_less_nat_alt)
        then have "unat (Gas (contract m1)) < min n (2 ^ 64 - 1)" using gas by linarith
        from runner_okD [OF IH m1(1) this] obtain m' ret err where "loop n E m1 = Some (m', ret, err)"
          "frame_ok E I m'" "same (evm m1) (evm m')" "Gas (contract m') \<le> Gas (contract m1)" "length ret \<le> max_code" .
        with Some Next m1 m show ?thesis by (auto intro: same_trans)
      next
        case (Return m1 ret err logged)
        with s gas Some have m1: "frame_ok E I m1" "same (evm m) (evm m1)" "Gas (contract m1) \<le> Gas (contract m)"
          "length ret \<le> max_code" by simp_all
        note capture_error_ok [OF m1(1,2), of err logged]
        with Some Return m1 m show ?thesis by auto
      qed
    qed
  qed
qed

section \<open>The machine as a whole\<close>

lemma runner_loop:
  assumes "unat gas < n" and "gas \<noteq> (-1 :: u64)"
  obtains b where "runner_safe E lvl b (loop n E)" and "b < 2 ^ 64" and "unat gas < b"
proof
  have "gas < -1" using assms(2) by (simp add: word_neq_0_conv less_le)
  then have "unat gas < unat (-1 :: u64)" by (simp add: word_less_nat_alt)
  also have "\<dots> = 2 ^ 64 - 1" by (simp only: unsigned_minus_1_eq_mask) (simp add: mask_eq_exp_minus_1)
  finally show "unat gas < min n (2 ^ 64 - 1)" using assms(1) by simp
  show "runner_safe E lvl (min n (2 ^ 64 - 1)) (loop n E)" by (rule loop_safe)
  show "min n (2 ^ 64 - 1) < (2 ^ 64 :: nat)" by simp
qed

lemma NewEVM_ok: "closed_rw E I \<Longrightarrow> I s \<Longrightarrow> cache_fits (lib E) cache \<Longrightarrow> evm_ok E I (NewEVM cache s)"
  by (simp add: evm_ok_def NewEVM_def)

lemma NewEVM_fields [simp]: "depth (NewEVM cache s) = 0" "readOnly (NewEVM cache s) = False"
  by (simp_all add: NewEVM_def)

text \<open>
  A machine for the witnesses: its state is the number of snapshots and a list of bytes, the code of
  every account; a write to the storage replaces it.
\<close>

definition demo_lib :: deps where
  "demo_lib =
     \<lparr>RightPadBytes = (\<lambda>bs l. bs @ replicate (nat l - length bs) 0),
      SafeAdd = (\<lambda>x y. (x + y, 2 ^ 64 \<le> unat x + unat y)), SafeMul = (\<lambda>x y. (x * y, 2 ^ 64 \<le> unat x * unat y)),
      Keccak256 = (\<lambda>bs. of_nat (length bs)), Add = (+), Sub = (-), Mul = (*), Div = (div), SDiv = (div),
      Mod = (mod), SMod = (mod), Exp = (\<lambda>x y. x ^ unat y), ExtendSign = (\<lambda>x y. y), Not = (\<lambda>x. - x - 1),
      Lt = (<), Gt = (>), Slt = (<), Sgt = (>), And = (\<lambda>x y. x), Or = (\<lambda>x y. x), Xor = (\<lambda>x y. x),
      Byte = (\<lambda>x y. x), AddMod = (\<lambda>x y z. x), MulMod = (\<lambda>x y z. x), Lsh = (\<lambda>x n. x), Rsh = (\<lambda>x n. x),
      SRsh = (\<lambda>x n. x), StackLimit = 1024, MemoryGas = 3, QuadCoeffDiv = 512, CopyGas = 3, SstoreSetGas = 20000,
      SstoreRefundGas = 15000, SstoreClearGas = 5000, SstoreResetGas = 5000, LogGas = 375, LogTopicGas = 375,
      LogDataGas = 8, Sha3Gas = 30, Sha3WordGas = 6, CreateGas = 32000, Create2Gas = 32000,
      CallNewAccountGas = 25000, CallValueTransferGas = 9000, CallStipend = 2300, SuicideRefundGas = 24000,
      JumpdestGas = 1, CallCreateDepth = 1024, MaxCodeSize = 24576, CreateDataGas = 200\<rparr>"

definition demo_sdb :: "(nat \<times> bytes) StateDB" where
  "demo_sdb =
     \<lparr>CreateAccount = (\<lambda>a s. s), SubBalance = (\<lambda>a v s. s), AddBalance = (\<lambda>a v s. s), GetBalance = (\<lambda>a s. 0),
      GetNonce = (\<lambda>a s. 0), SetNonce = (\<lambda>a n s. s), GetCodeHash = (\<lambda>a s. 0), GetCode = (\<lambda>a s. snd s),
      SetCode = (\<lambda>a c s. s), GetCodeSize = (\<lambda>a s. int (length (snd s))), AddRefund = (\<lambda>g s. s), GetRefund = (\<lambda>s. 0),
      GetState = (\<lambda>a x s. of_nat (length (snd s))), SetState = (\<lambda>a x y s. (fst s, [ucast y])), Suicide = (\<lambda>a s. (True, s)),
      HasSuicided = (\<lambda>a s. False), Exist = (\<lambda>a s. True), Empty = (\<lambda>a s. False),
      RevertToSnapshot = (\<lambda>n s. (n, snd s)), Snapshot = (\<lambda>s. (fst s, (Suc (fst s), snd s))),
      AddLog = (\<lambda>l s. s), AddPreimage = (\<lambda>h p s. s)\<rparr>"

definition demo_env :: "(nat \<times> bytes, unit) Env" where
  "demo_env =
     \<lparr>lib = demo_lib, sdb = demo_sdb,
      ctx = \<lparr>CanTransfer = (\<lambda>s a v. v = 0), Transfer = (\<lambda>s a b v. s), GetHash = (\<lambda>n. 0),
        NewContractAddress = (\<lambda>e n. ucast n), InterceptContractCall = None, OnCreateContract = None,
        OnSuicideContract = None, Origin = 1, GasPrice = 0, Coinbase = 2, GasLimit = 1000000, BlockNumber = 1,
        Time = 10, Difficulty = 0\<rparr>,
      chainConfig = \<lparr>ChainID = Some 1, IsHomestead = (\<lambda>n. True), IsEIP150 = (\<lambda>n. True), IsEIP155 = (\<lambda>n. True),
        IsEIP158 = (\<lambda>n. True), IsByzantium = (\<lambda>n. True), IsConstantinople = (\<lambda>n. True),
        GasTable_at = (\<lambda>n. \<lparr>gt_ExtcodeSize = 700, gt_ExtcodeCopy = 700, gt_ExtcodeHash = 400, gt_Balance = 400,
          gt_SLoad = 200, gt_Calls = 700, gt_Suicide = 5000, gt_ExpByte = 50, gt_CreateBySuicide = 25000\<rparr>),
        IstanbulBlock = None\<rparr>,
      Tracer = None, NoRecursion = False, EnablePreimageRecording = False, PrecompiledContractsHomestead = Map.empty,
      PrecompiledContractsByzantium = Map.empty, PrecompiledContractsIstanbul = Map.empty\<rparr>"

lemma of_nat_length_inj:
  "length x \<le> max_code \<Longrightarrow> length y \<le> max_code \<Longrightarrow> (of_nat (length x) :: hash) = of_nat (length y) \<Longrightarrow> length x = length y"
  by (auto simp: of_nat_inverse dest!: arg_cong [where f = unat])

lemma demo_env_ok:
  assumes "\<And>s. I s \<Longrightarrow> length (snd s) \<le> max_code"
  shows "env_ok demo_env I"
  unfolding env_ok_def
proof (intro conjI)
  show "safe_math_ok (lib demo_env)" by (simp add: safe_math_ok_def demo_env_def demo_lib_def)
  show "costs_ok (lib demo_env) (gasTable demo_env)"
    by (simp add: costs_ok_def demo_env_def demo_lib_def gasTable_def)
  show "codes_ok (lib demo_env) (sdb demo_env) I"
    using assms by (auto simp: codes_ok_def demo_env_def demo_lib_def demo_sdb_def dest: of_nat_length_inj)
  show "outside_ok demo_env"
    by (simp add: outside_ok_def demo_env_def demo_lib_def precompiles_def IsIstanbul_def isForked_def)
qed

lemma demo_levels: "levels_ok demo_env fst I"
  by (simp add: levels_ok_def demo_env_def demo_sdb_def on_suicide_def)

lemma demo_closed: "closed_ro demo_env fst 0 (\<lambda>s. P (snd s))"
  by (simp add: closed_ro_def demo_env_def demo_sdb_def)

lemma demo_closed_rw: "closed_rw demo_env (\<lambda>s. length (snd s) \<le> max_code)"
  by (simp add: closed_rw_def demo_env_def demo_sdb_def on_suicide_def)

lemma demo_cache: "cache_fits (lib demo_env) Map.empty"
  by (simp add: cache_fits_def)

section \<open>Main theorems\<close>

text \<open>
  C1: a top-level call always returns.  In an environment that satisfies the stated assumptions, and
  with fuel for more iterations than there is gas, \<open>Call\<close> on a new machine neither panics nor runs
  for ever, whatever the code of the called account is; it gives back at most the gas it got, leaves
  the depth and the write protection as they were, and keeps every predicate of the state database
  that the single writes of the state interface keep.
\<close>
theorem Call_returns:
  assumes "env_ok E I" and "levels_ok E lvl I" and "closed_ro E lvl k I" and "closed_rw E I" and "I s"
    and "cache_fits (lib E) cache" and "length input \<le> max_code" and "0 \<le> val" and "unat gas < n" and "gas \<noteq> -1"
  shows "\<exists>e t' ret left err. Call (loop n E) E (NewEVM cache s) t caller addr input gas val = Some (e, t', ret, left, err) \<and>
    left \<le> gas \<and> depth e = 0 \<and> \<not> readOnly e \<and> I (statedb e)"
proof -
  obtain b where b: "runner_safe E lvl b (loop n E)" "b < 2 ^ 64" "unat gas < b" using runner_loop [OF assms(9,10)] .
  have "calls_ok E I b (mkCalls (loop n E) E)" by (rule mkCalls_ok [OF assms(1-3) b(1,2)])
  then have "call_ok E I (NewEVM cache s) gas (Call (loop n E) E (NewEVM cache s) t caller addr input gas val)"
    using NewEVM_ok [OF assms(4-6)] b(3) assms(7,8) by (simp add: calls_ok_def mkCalls_def)
  then show ?thesis unfolding call_ok_def by (auto simp: same_def dest: evm_ok_D)
qed

theorem Call_returns_witness:
  "(\<exists>e t' ret left err. Call (loop 51 demo_env) demo_env (NewEVM Map.empty (0, [0x60, 1, 0x56])) () 1 2 [] 50 0 =
     Some (e, t', ret, left, err) \<and> left \<le> 50 \<and> depth e = 0 \<and> \<not> readOnly e \<and> length (snd (statedb e)) \<le> max_code)"
  using Call_returns [OF demo_env_ok demo_levels demo_closed demo_closed_rw _ demo_cache,
      where s = "(0, [0x60, 1, 0x56])" and n = 51 and gas = 50 and input = "[]" and t = "()" and caller = 1 and addr = 2 and val = 0]
  by simp

text \<open>
  C9: a top-level creation always returns, under the same assumptions.
\<close>
theorem Create_returns:
  assumes "env_ok E I" and "levels_ok E lvl I" and "closed_ro E lvl k I" and "closed_rw E I" and "I s"
    and "cache_fits (lib E) cache" and "length code \<le> max_code" and "0 \<le> val" and "unat gas < n" and "gas \<noteq> -1"
  shows "\<exists>e t' ret addr left err. Create (loop n E) E (NewEVM cache s) t caller code gas val = Some (e, t', ret, addr, left, err) \<and>
    left \<le> gas \<and> depth e = 0 \<and> \<not> readOnly e \<and> I (statedb e)"
proof -
  obtain b where b: "runner_safe E lvl b (loop n E)" "b < 2 ^ 64" "unat gas < b" using runner_loop [OF assms(9,10)] .
  have "calls_ok E I b (mkCalls (loop n E) E)" by (rule mkCalls_ok [OF assms(1-3) b(1,2)])
  then have "create_ok E I (NewEVM cache s) gas (Create (loop n E) E (NewEVM cache s) t caller code gas val)"
    using NewEVM_ok [OF assms(4-6)] b(3) assms(7,8) by (simp add: calls_ok_def mkCalls_def)
  then show ?thesis unfolding create_ok_def by (auto simp: same_def dest: evm_ok_D)
qed

theorem Create_returns_witness:
  "(\<exists>e t' ret addr left err. Create (loop 51 demo_env) demo_env (NewEVM Map.empty (0, [])) () 1 [0x60, 1, 0x56] 50 0 =
     Some (e, t', ret, addr, left, err) \<and> left \<le> 50 \<and> depth e = 0 \<and> \<not> readOnly e \<and> length (snd (statedb e)) \<le> max_code)"
  using Create_returns [OF demo_env_ok demo_levels demo_closed demo_closed_rw _ demo_cache,
      where s = "(0, [])" and n = 51 and gas = 50 and code = "[0x60, 1, 0x56]" and t = "()" and caller = 1 and val = 0]
  by simp

lemma StaticCall_readonly:
  assumes "env_ok E I" and "levels_ok E lvl I" and "closed_ro E lvl k I" and "rules_IsByzantium (chainRules E)"
    and "I (statedb e)" and "cache_fits (lib E) (bitmaps e)" and "length (returnData e) \<le> max_code"
    and "length input \<le> max_code" and "unat gas < n" and "gas \<noteq> -1"
  shows "\<exists>e' t' ret left err. StaticCall (loop n E) E e t caller addr input gas = Some (e', t', ret, left, err) \<and>
    left \<le> gas \<and> depth e' = depth e \<and> readOnly e' = readOnly e \<and> I (statedb e')"
proof (cases "NoRecursion E \<and> depth e > 0 \<or> depth e > CallCreateDepth (lib E)")
  case True
  then show ?thesis using assms(5) by (auto simp: StaticCall_def)
next
  case False
  obtain b where b: "runner_safe E lvl b (loop n E)" "b < 2 ^ 64" "unat gas < b" using runner_loop [OF assms(9,10)] .
  have "evm_ok E I (e\<lparr>readOnly := True\<rparr>)" using assms(4-7) by (simp add: evm_ok_def)
  from call_code_total [OF assms(1-3) b(1,2) this, of "NewContract caller addr (Some 0) gas" input] b(3) assms(8)
  have "call_ok E I (e\<lparr>readOnly := True\<rparr>) gas (call_code (loop n E) E STATICCALL caller addr None
      (NewContract caller addr (Some 0) gas) input gas (e\<lparr>readOnly := True\<rparr>) t)" by simp
  with False show ?thesis unfolding call_ok_def by (auto simp: StaticCall_def same_def dest: evm_ok_D)
qed

text \<open>
  C7: a static call does not change the state.  From Byzantium on, \<open>StaticCall\<close> keeps every predicate
  of the state database that snapshots, reverts, account stubs, empty transfers and preimages keep:
  no code that it runs, in whatever depth, can write to the storage, move tokens, emit logs, create
  or destroy a contract.
\<close>
theorem StaticCall_keeps_state:
  assumes "env_ok E I" and "levels_ok E lvl I" and "closed_ro E lvl k I" and "rules_IsByzantium (chainRules E)"
    and "I (statedb e)" and "cache_fits (lib E) (bitmaps e)" and "length (returnData e) \<le> max_code"
    and "length input \<le> max_code" and "unat gas < n" and "gas \<noteq> -1"
  shows "\<exists>e' t' ret left err. StaticCall (loop n E) E e t caller addr input gas = Some (e', t', ret, left, err) \<and>
    left \<le> gas \<and> depth e' = depth e \<and> readOnly e' = readOnly e \<and> I (statedb e')"
  by (rule StaticCall_readonly [OF assms])

theorem StaticCall_keeps_state_witness:
  "(\<exists>e' t' ret left err. StaticCall (loop 40001 demo_env) demo_env (NewEVM Map.empty (0, [0x60, 1, 0x60, 0, 0x55])) () 1 2 [] 40000 =
     Some (e', t', ret, left, err) \<and> left \<le> 40000 \<and> depth e' = 0 \<and> readOnly e' = False \<and>
     snd (statedb e') = [0x60, 1, 0x60, 0, 0x55])"
  using StaticCall_keeps_state [where I = "\<lambda>s. snd s = [0x60, 1, 0x60, 0, 0x55]", OF demo_env_ok demo_levels demo_closed,
      where e = "NewEVM Map.empty (0, [0x60, 1, 0x60, 0, 0x55])" and n = 40001 and gas = 40000 and input = "[]" and t = "()"
        and caller = 1 and addr = 2]
    demo_cache
  by (simp add: NewEVM_def chainRules_def Rules_of_def demo_env_def)

end
