(* ===== verification/Runtimes.thy ===== *)
theory Runtimes
  imports StateDbs VmTotal
begin

text \<open>
  The runtime's callbacks for the virtual machine (src/runtime/runtime.go, \<open>newEVM\<close>), over the state adapter.

  \<open>thor_sdb\<close> is the adapter as the machine's state interface; \<open>newEVM\<close> is the environment of a clause:
  transfers, which touch the energy of both accounts first, the hooks for creations and destructions,
  and the addresses of new contracts.  The hook for native calls of the built-in contracts is an
  argument.
\<close>

section \<open>The state interface of the machine\<close>

text \<open>
  The machine's interface has no error results: a panic of the adapter leaves the machine.  On a state
  that satisfies the invariant no operation panics, and the values chosen here for a panic do not
  matter.
\<close>

definition keep :: "('s \<Rightarrow> 's option) \<Rightarrow> 's \<Rightarrow> 's" where
  "keep f s = (case f s of Some s' \<Rightarrow> s' | None \<Rightarrow> s)"

definition or_else :: "'a \<Rightarrow> 'a option \<Rightarrow> 'a" where
  "or_else d x = (case x of Some y \<Rightarrow> y | None \<Rightarrow> d)"

lemma keep_simps [simp]: "f s = Some s' \<Longrightarrow> keep f s = s'" "or_else d (Some y) = y"
  by (simp_all add: keep_def or_else_def)

definition thor_sdb :: "state_deps \<Rightarrow> Thor_StateDB StateDB" where
  "thor_sdb D =
     \<lparr>CreateAccount = StateDB_CreateAccount, SubBalance = (\<lambda>a v. keep (StateDB_SubBalance D a v)),
      AddBalance = (\<lambda>a v. keep (StateDB_AddBalance D a v)), GetBalance = (\<lambda>a s. or_else 0 (StateDB_GetBalance D a s)),
      GetNonce = StateDB_GetNonce, SetNonce = StateDB_SetNonce,
      GetCodeHash = (\<lambda>a s. or_else 0 (StateDB_GetCodeHash D a s)),
      GetCode = (\<lambda>a s. or_else [] (StateDB_GetCode D a s)), SetCode = (\<lambda>a c. keep (StateDB_SetCode D a c)),
      GetCodeSize = (\<lambda>a s. case StateDB_GetCode D a s of Some c \<Rightarrow> int (length c) | None \<Rightarrow> 0),
      AddRefund = (\<lambda>g. keep (StateDB_AddRefund g)), GetRefund = (\<lambda>s. or_else 0 (StateDB_GetRefund s)),
      GetState = (\<lambda>a k s. or_else 0 (StateDB_GetState D a k s)), SetState = (\<lambda>a k v. keep (StateDB_SetState D a k v)),
      Suicide = (\<lambda>a s. or_else (False, s) (StateDB_Suicide D a s)),
      HasSuicided = (\<lambda>a s. or_else False (StateDB_HasSuicided a s)),
      Exist = (\<lambda>a s. or_else False (StateDB_Exist D a s)), Empty = (\<lambda>a s. or_else True (StateDB_Empty D a s)),
      RevertToSnapshot = (\<lambda>n. keep (StateDB_RevertToSnapshot n)), Snapshot = (\<lambda>s. or_else (0, s) (StateDB_Snapshot s)),
      AddLog = (\<lambda>l. keep (StateDB_AddLog l)), AddPreimage = (\<lambda>h p. keep (StateDB_AddPreimage h p))\<rparr>"

section \<open>The runtime\<close>

record BlockContext =
  bc_Beneficiary :: address
  bc_Signer :: address
  bc_Number :: u32
  bc_Time :: u64
  bc_GasLimit :: u64
  bc_TotalScore :: u64

record TransactionContext =
  tc_ID :: hash
  tc_Origin :: address
  tc_GasPayer :: address
  tc_GasPrice :: int
  tc_ProvedWork :: int
  tc_BlockRef :: bytes
  tc_Expiration :: u32

record ForkConfig =
  fc_VIP191 :: u32
  fc_ETH_CONST :: u32
  fc_BLOCKLIST :: u32
  fc_ETH_IST :: u32
  fc_VIP214 :: u32
  fc_FINALITY :: u32

text \<open>
  What the runtime uses of other packages: the block identifiers of the chain, the two events of the
  built-in contracts with their encodings, the hook for native calls of the built-in contracts, and
  the gas tables of go-ethereum.
\<close>

record rt_deps =
  GetBlockID :: "u32 \<Rightarrow> hash"
  setMasterEvent_ID :: hash
  setMasterEvent_Encode :: "address \<Rightarrow> bytes"
  energyTransferEvent_ID :: hash
  energyTransferEvent_Encode :: "int \<Rightarrow> bytes"
  Energy_Address :: address
  native_hook :: "(Thor_StateDB EVM \<Rightarrow> Contract \<Rightarrow> bool \<Rightarrow> (Thor_StateDB \<times> u64 \<times> bytes \<times> error option) option) option"
  params_GasTable :: "int \<Rightarrow> GasTable"

record 't Runtime =
  rt_lib :: deps
  rt_db :: state_deps
  rt_deps :: rt_deps
  rt_ctx :: BlockContext
  rt_chainConfig :: ChainConfig
  rt_Tracer :: "(Thor_StateDB, 't) Logger option"
  rt_NoRecursion :: bool
  rt_EnablePreimageRecording :: bool
  rt_Homestead :: "address \<rightharpoonup> PrecompiledContract"
  rt_Byzantium :: "address \<rightharpoonup> PrecompiledContract"
  rt_Istanbul :: "address \<rightharpoonup> PrecompiledContract"

text \<open>\<open>baseChainConfig\<close> with the two forks of the fork configuration and the identifier of the genesis block.\<close>

definition currentChainConfig :: "rt_deps \<Rightarrow> ForkConfig \<Rightarrow> hash option \<Rightarrow> ChainConfig" where
  "currentChainConfig X fc genesisID =
     \<lparr>ChainID = Some (case genesisID of Some h \<Rightarrow> uint h | None \<Rightarrow> 0),
      IsHomestead = (\<lambda>n. isForked (Some 0) (Some n)), IsEIP150 = (\<lambda>n. isForked (Some 0) (Some n)),
      IsEIP155 = (\<lambda>n. isForked (Some 0) (Some n)), IsEIP158 = (\<lambda>n. isForked (Some 0) (Some n)),
      IsByzantium = (\<lambda>n. isForked (Some 0) (Some n)),
      IsConstantinople = (\<lambda>n. isForked (Some (uint (fc_ETH_CONST fc))) (Some n)),
      GasTable_at = params_GasTable X, IstanbulBlock = Some (uint (fc_ETH_IST fc))\<rparr>"

section \<open>Callbacks\<close>

definition rt_CanTransfer :: "state_deps \<Rightarrow> Thor_StateDB \<Rightarrow> address \<Rightarrow> int \<Rightarrow> bool option" where
  "rt_CanTransfer D s addr amount = map_option (\<lambda>b. amount \<le> b) (StateDB_GetBalance D addr s)"

definition rt_Transfer :: "state_deps \<Rightarrow> u64 \<Rightarrow> address \<Rightarrow> address \<Rightarrow> int \<Rightarrow> Thor_StateDB \<Rightarrow> Thor_StateDB option" where
  "rt_Transfer D time sender recipient amount s =
     (if amount = 0 then Some s
      else do {
        senderEnergy \<leftarrow> must (State_GetEnergy D sender time (sd_state s));
        recipientEnergy \<leftarrow> must (State_GetEnergy D recipient time (sd_state s));
        s \<leftarrow> set_state s (State_SetEnergy D sender senderEnergy time (sd_state s));
        s \<leftarrow> set_state s (State_SetEnergy D recipient recipientEnergy time (sd_state s));
        s \<leftarrow> StateDB_SubBalance D sender amount s;
        s \<leftarrow> StateDB_AddBalance D recipient amount s;
        StateDB_AddTransfer \<lparr>tl_Sender = sender, tl_Recipient = recipient, tl_Amount = amount\<rparr> s
      })"

definition CreateContractAddress :: "deps \<Rightarrow> hash \<Rightarrow> u32 \<Rightarrow> u32 \<Rightarrow> address" where
  "CreateContractAddress d txID clauseIndex creationCount =
     ucast (Keccak256 d (Bytes32_of txID @ nat_be 4 (unat clauseIndex) @ nat_be 4 (unat creationCount)))"

definition rt_OnCreateContract :: "rt_deps \<Rightarrow> state_deps \<Rightarrow> address \<Rightarrow> address \<Rightarrow> Thor_StateDB \<Rightarrow> Thor_StateDB option" where
  "rt_OnCreateContract X D contractAddr caller s =
     do {
       s \<leftarrow> set_state s (State_SetMaster D contractAddr caller (sd_state s));
       StateDB_AddLog \<lparr>log_Address = contractAddr, log_Topics = [setMasterEvent_ID X],
         log_Data = setMasterEvent_Encode X caller, log_BlockNumber = 0\<rparr> s
     }"

definition rt_OnSuicideContract ::
    "rt_deps \<Rightarrow> state_deps \<Rightarrow> u64 \<Rightarrow> address \<Rightarrow> address \<Rightarrow> Thor_StateDB \<Rightarrow> Thor_StateDB option" where
  "rt_OnSuicideContract X D time contractAddr tokenReceiver s =
     do {
       energy \<leftarrow> must (State_GetEnergy D contractAddr time (sd_state s));
       bal \<leftarrow> StateDB_GetBalance D contractAddr s;
       s \<leftarrow> (if bal \<noteq> 0 \<or> energy \<noteq> 0 then
               do {
                 receiverEnergy \<leftarrow> must (State_GetEnergy D tokenReceiver time (sd_state s));
                 s \<leftarrow> set_state s (State_SetEnergy D tokenReceiver (receiverEnergy + energy) time (sd_state s));
                 if energy \<noteq> 0 then
                   StateDB_AddLog \<lparr>log_Address = Energy_Address X,
                     log_Topics = [energyTransferEvent_ID X, ucast contractAddr, ucast tokenReceiver],
                     log_Data = energyTransferEvent_Encode X energy, log_BlockNumber = 0\<rparr> s
                 else Some s
               }
             else Some s);
       if bal \<noteq> 0 then
         do {
           s \<leftarrow> StateDB_AddBalance D tokenReceiver bal s;
           StateDB_AddTransfer \<lparr>tl_Sender = contractAddr, tl_Recipient = tokenReceiver, tl_Amount = bal\<rparr> s
         }
       else Some s
     }"

definition newEVM :: "'t Runtime \<Rightarrow> u32 \<Rightarrow> TransactionContext \<Rightarrow> (Thor_StateDB, 't) Env" where
  "newEVM rt clauseIndex txCtx =
     \<lparr>lib = rt_lib rt, sdb = thor_sdb (rt_db rt),
      ctx = \<lparr>CanTransfer = (\<lambda>s a v. or_else False (rt_CanTransfer (rt_db rt) s a v)),
        Transfer = (\<lambda>s a b v. keep (rt_Transfer (rt_db rt) (bc_Time (rt_ctx rt)) a b v) s),
        GetHash = (\<lambda>num. GetBlockID (rt_deps rt) (ucast num)),
        NewContractAddress = (\<lambda>e counter. CreateContractAddress (rt_lib rt) (tc_ID txCtx) clauseIndex counter),
        InterceptContractCall = native_hook (rt_deps rt),
        OnCreateContract = Some (\<lambda>e a b. keep (rt_OnCreateContract (rt_deps rt) (rt_db rt) a b) (statedb e)),
        OnSuicideContract = Some (\<lambda>e a b. keep (rt_OnSuicideContract (rt_deps rt) (rt_db rt) (bc_Time (rt_ctx rt)) a b) (statedb e)),
        Origin = tc_Origin txCtx, GasPrice = tc_GasPrice txCtx, Coinbase = bc_Beneficiary (rt_ctx rt),
        GasLimit = bc_GasLimit (rt_ctx rt), BlockNumber = uint (bc_Number (rt_ctx rt)), Time = uint (bc_Time (rt_ctx rt)),
        Difficulty = 0\<rparr>,
      chainConfig = rt_chainConfig rt, Tracer = rt_Tracer rt, NoRecursion = rt_NoRecursion rt,
      EnablePreimageRecording = rt_EnablePreimageRecording rt, PrecompiledContractsHomestead = rt_Homestead rt,
      PrecompiledContractsByzantium = rt_Byzantium rt, PrecompiledContractsIstanbul = rt_Istanbul rt\<rparr>"

lemma newEVM_fields [simp]:
  "lib (newEVM rt i tc) = rt_lib rt" "sdb (newEVM rt i tc) = thor_sdb (rt_db rt)" "chainConfig (newEVM rt i tc) = rt_chainConfig rt"
  "InterceptContractCall (ctx (newEVM rt i tc)) = native_hook (rt_deps rt)"
  "Transfer (ctx (newEVM rt i tc)) = (\<lambda>s a b v. keep (rt_Transfer (rt_db rt) (bc_Time (rt_ctx rt)) a b v) s)"
  "CanTransfer (ctx (newEVM rt i tc)) = (\<lambda>s a v. or_else False (rt_CanTransfer (rt_db rt) s a v))"
  "OnCreateContract (ctx (newEVM rt i tc)) = Some (\<lambda>e a b. keep (rt_OnCreateContract (rt_deps rt) (rt_db rt) a b) (statedb e))"
  "OnSuicideContract (ctx (newEVM rt i tc)) =
     Some (\<lambda>e a b. keep (rt_OnSuicideContract (rt_deps rt) (rt_db rt) (bc_Time (rt_ctx rt)) a b) (statedb e))"
  by (simp_all add: newEVM_def)

end
