(* ===== verification/RuntimeSafety.thy ===== *)
theory RuntimeSafety
  imports Runtimes
begin

text \<open>
  The contract of the machine, fulfilled by the runtime.

  For every operation and callback: it succeeds on states that satisfy the invariant, concerns the top
  level only, and its effect on balances and codes is stated.  \<open>fair\<close> collects what follows for the
  token invariant \<open>vet_ok\<close>; the lemmas \<open>vet_closed\<close> and \<open>vet_below_closed\<close> discharge the premises of the
  theorems on the machine, and the last section shows that failing calls revert to their snapshot.
\<close>

section \<open>Effects on balances and codes\<close>

definition balances :: "state_deps \<Rightarrow> Thor_StateDB \<Rightarrow> address \<Rightarrow> int" where
  "balances D s a = Balance (acc D s a)"

definition codes :: "state_deps \<Rightarrow> Thor_StateDB \<Rightarrow> address \<Rightarrow> bytes \<times> bytes" where
  "codes D s a = (acc_CodeHash (acc D s a), code_of D (sd_state s) a)"

definition steady :: "state_deps \<Rightarrow> Thor_StateDB \<Rightarrow> Thor_StateDB \<Rightarrow> bool" where
  "steady D s s' \<longleftrightarrow> local D s s' \<and> balances D s' = balances D s \<and> codes D s' = codes D s"

lemma steady_refl [simp]: "db_ok D s \<Longrightarrow> steady D s s"
  by (simp add: steady_def)

lemma steady_trans: "steady D s s' \<Longrightarrow> steady D s' s'' \<Longrightarrow> steady D s s''"
  by (auto simp: steady_def intro: local_trans)

lemma steady_ok: "steady D s s' \<Longrightarrow> db_ok D s'"
  by (auto simp: steady_def dest: local_ok)

lemma steadyI:
  "local D s s' \<Longrightarrow> acc D s' = acc D s \<Longrightarrow> code_of D (sd_state s') = code_of D (sd_state s) \<Longrightarrow> steady D s s'"
  by (simp add: steady_def balances_def codes_def fun_eq_iff)

lemma repo_put_steady:
  assumes "db_ok D s" and "repo_typed key v"
  obtains s' where "repo_put key v s = Some s'" and "steady D s s'"
  by (rule repo_put_local [OF assms]) (use that in \<open>simp add: steadyI\<close>)

lemma write_account_steady:
  assumes "db_ok D s" and "\<And>x. Balance (f x) = Balance x" and "\<And>x. acc_CodeHash (f x) = acc_CodeHash x"
  obtains st where "write_account D a f (sd_state s) = Some (st, None)" and "steady D s (s\<lparr>sd_state := st\<rparr>)"
proof (rule set_state_local [OF assms(1), of a f])
  fix st
  assume st: "write_account D a f (sd_state s) = Some (st, None)" "local D s (s\<lparr>sd_state := st\<rparr>)"
    "written (AccountKey a) (AccountVal (f (acc D s a))) (sd_state s) st"
  from st(2) values_written(1,2) [OF st(3), of D] assms(2,3) have "steady D s (s\<lparr>sd_state := st\<rparr>)"
    by (simp add: steady_def balances_def codes_def fun_eq_iff)
  with st(1) show thesis by (rule that)
qed

lemma energy_steady:
  assumes "db_ok D s"
  obtains e s' where "must (State_GetEnergy D a t (sd_state s)) = Some (CalcEnergy (acc D s a) t)"
    and "set_state s (State_SetEnergy D b v t (sd_state s)) = Some s'" and "steady D s s'"
  by (rule write_account_steady [OF assms, of "\<lambda>x. x\<lparr>Energy := v, BlockTime := t\<rparr>" b])
    (use db_okD(1,2) [OF assms] that in \<open>simp_all add: State_GetEnergy_def State_SetEnergy_def read_account_of must_def set_state_def\<close>)

lemma balance_effect:
  assumes "db_ok D s"
  obtains s' where "StateDB_AddBalance D a v s = Some s'" and "local D s s'"
    and "balances D s' = (balances D s)(a := balances D s a + v)" and "codes D s' = codes D s"
  by (rule StateDB_AddBalance_ok [OF assms, of a v]) (use that in \<open>simp add: balances_def codes_def fun_eq_iff\<close>)

lemma rt_Transfer_ok:
  assumes "db_ok D s"
  obtains s' where "rt_Transfer D t a b v s = Some s'" and "local D s s'" and "codes D s' = codes D s"
    and "balances D s' = ((balances D s)(a := balances D s a - v))(b := ((balances D s)(a := balances D s a - v)) b + v)"
proof (cases "v = 0")
  case True
  with assms that [of s] show thesis by (simp add: rt_Transfer_def fun_eq_iff)
next
  case False
  obtain s1 where s1: "must (State_GetEnergy D a t (sd_state s)) = Some (CalcEnergy (acc D s a) t)"
    "set_state s (State_SetEnergy D a (CalcEnergy (acc D s a) t) t (sd_state s)) = Some s1" "steady D s s1"
    by (rule energy_steady [OF assms])
  have e: "must (State_GetEnergy D b t (sd_state s)) = Some (CalcEnergy (acc D s b) t)" by (rule energy_steady [OF assms])
  obtain s2 where s2: "set_state s1 (State_SetEnergy D b (CalcEnergy (acc D s b) t) t (sd_state s1)) = Some s2" "steady D s1 s2"
    by (rule energy_steady [OF steady_ok [OF s1(3)]])
  note s12 = steady_trans [OF s1(3) s2(2)]
  obtain s3 where s3: "StateDB_AddBalance D a (- v) s2 = Some s3" "local D s2 s3"
    "balances D s3 = (balances D s2)(a := balances D s2 a + - v)" "codes D s3 = codes D s2"
    by (rule balance_effect [OF steady_ok [OF s2(2)]])
  obtain s4 where s4: "StateDB_AddBalance D b v s3 = Some s4" "local D s3 s4"
    "balances D s4 = (balances D s3)(b := balances D s3 b + v)" "codes D s4 = codes D s3"
    by (rule balance_effect [OF local_ok [OF s3(2)]])
  obtain s5 where s5: "StateDB_AddTransfer \<lparr>tl_Sender = a, tl_Recipient = b, tl_Amount = v\<rparr> s4 = Some s5" "steady D s4 s5"
    by (rule repo_put_steady [OF local_ok [OF s4(2)], of transferKey "TransferVal \<lparr>tl_Sender = a, tl_Recipient = b, tl_Amount = v\<rparr>"])
      (simp_all add: StateDB_AddTransfer_def)
  have "rt_Transfer D t a b v s = Some s5"
    using False s1 e s2 s3 s4 s5 by (simp add: rt_Transfer_def StateDB_SubBalance_eq)
  moreover have "local D s s5"
    using s12 s3 s4 s5 by (auto simp: steady_def intro: local_trans)
  moreover have "balances D s5 = ((balances D s)(a := balances D s a - v))(b := ((balances D s)(a := balances D s a - v)) b + v)"
    using s12 s3(3) s4(3) s5(2) by (simp add: steady_def)
  moreover have "codes D s5 = codes D s" using s12 s3(4) s4(4) s5(2) by (simp add: steady_def)
  ultimately show thesis using that by blast
qed

lemma rt_OnCreateContract_ok:
  assumes "db_ok D s"
  obtains s' where "rt_OnCreateContract X D a b s = Some s'" and "steady D s s'"
proof -
  obtain st where st: "write_account D a (\<lambda>x. x\<lparr>Master := if b = 0 then [] else Address_bytes b\<rparr>) (sd_state s) = Some (st, None)"
    "steady D s (s\<lparr>sd_state := st\<rparr>)"
    by (rule write_account_steady [OF assms, of "\<lambda>x. x\<lparr>Master := if b = 0 then [] else Address_bytes b\<rparr>" a]) simp_all
  let ?l = "\<lparr>log_Address = a, log_Topics = [setMasterEvent_ID X], log_Data = setMasterEvent_Encode X b, log_BlockNumber = 0\<rparr>"
  obtain s' where "repo_put eventKey (EventVal ?l) (s\<lparr>sd_state := st\<rparr>) = Some s'" "steady D (s\<lparr>sd_state := st\<rparr>) s'"
    by (rule repo_put_steady [OF steady_ok [OF st(2)], of eventKey "EventVal ?l"]) simp
  with st that steady_trans [OF st(2)] show thesis
    by (simp add: rt_OnCreateContract_def State_SetMaster_def set_state_def StateDB_AddLog_def)
qed

lemma rt_OnSuicideContract_ok:
  assumes "db_ok D s"
  obtains s' where "rt_OnSuicideContract X D t a b s = Some s'" and "local D s s'" and "codes D s' = codes D s"
    and "balances D s' = (balances D s)(b := balances D s b + balances D s a)"
proof -
  let ?e = "CalcEnergy (acc D s a) t" and ?v = "balances D s a"
  have e: "must (State_GetEnergy D a t (sd_state s)) = Some ?e" by (rule energy_steady [OF assms])
  have bal: "StateDB_GetBalance D a s = Some ?v" by (simp add: StateDB_reads [OF assms] balances_def)
  obtain s1 where s1: "must (State_GetEnergy D b t (sd_state s)) = Some (CalcEnergy (acc D s b) t)"
    "set_state s (State_SetEnergy D b (CalcEnergy (acc D s b) t + ?e) t (sd_state s)) = Some s1" "steady D s s1"
    by (rule energy_steady [OF assms])
  let ?l = "\<lparr>log_Address = Energy_Address X, log_Topics = [energyTransferEvent_ID X, ucast a, ucast b],
    log_Data = energyTransferEvent_Encode X ?e, log_BlockNumber = 0\<rparr>"
  obtain s2 where s2: "StateDB_AddLog ?l s1 = Some s2" "steady D s1 s2"
    by (rule repo_put_steady [OF steady_ok [OF s1(3)], of eventKey "EventVal ?l"]) (simp_all add: StateDB_AddLog_def)
  define s3 where "s3 = (if ?v \<noteq> 0 \<or> ?e \<noteq> 0 then if ?e \<noteq> 0 then s2 else s1 else s)"
  have s3: "steady D s s3" using assms s1(3) steady_trans [OF s1(3) s2(2)] by (simp add: s3_def)
  obtain s4 where s4: "StateDB_AddBalance D b ?v s3 = Some s4" "local D s3 s4"
    "balances D s4 = (balances D s3)(b := balances D s3 b + ?v)" "codes D s4 = codes D s3"
    by (rule balance_effect [OF steady_ok [OF s3]])
  let ?t = "\<lparr>tl_Sender = a, tl_Recipient = b, tl_Amount = ?v\<rparr>"
  obtain s5 where s5: "StateDB_AddTransfer ?t s4 = Some s5" "steady D s4 s5"
    by (rule repo_put_steady [OF local_ok [OF s4(2)], of transferKey "TransferVal ?t"]) (simp_all add: StateDB_AddTransfer_def)
  define s6 where "s6 = (if ?v \<noteq> 0 then s5 else s3)"
  have "rt_OnSuicideContract X D t a b s = Some s6"
    unfolding rt_OnSuicideContract_def
    using e bal s1(1,2) s2(1) s4(1) s5(1) by (cases "?e = 0"; cases "?v = 0") (simp_all add: s6_def s3_def)
  moreover have "local D s s6" using s3 s4(2) s5(2) by (auto simp: s6_def steady_def intro: local_trans)
  moreover have "balances D s6 = (balances D s)(b := balances D s b + ?v)" "codes D s6 = codes D s"
    using s3 s4(3,4) s5(2) by (simp_all add: s6_def steady_def fun_eq_iff)
  ultimately show thesis using that by blast
qed

section \<open>The contract of the machine\<close>

text \<open>
  What the theorems assume of the native calls of the built-in contracts: a native call succeeds, gives
  back at most the gas it got and at most \<open>2 ^ 40\<close> bytes, changes neither balances of tokens nor codes,
  and in read-only mode changes nothing.
\<close>

definition native_ok :: "'t Runtime \<Rightarrow> bool" where
  "native_ok rt \<longleftrightarrow>
     (\<forall>hook e c ro s gas out err. native_hook (rt_deps rt) = Some hook \<longrightarrow> hook e c ro = Some (s, gas, out, err) \<longrightarrow>
        gas \<le> Gas c \<and> length out \<le> max_code \<and> (ro \<longrightarrow> s = statedb e) \<and>
        (db_ok (rt_db rt) (statedb e) \<longrightarrow> steady (rt_db rt) (statedb e) s))"

lemma native_okD:
  assumes "native_ok rt" and "native_hook (rt_deps rt) = Some hook" and "hook e c ro = Some (s, gas, out, err)"
  shows "gas \<le> Gas c" and "length out \<le> max_code" and "ro \<Longrightarrow> s = statedb e"
    and "db_ok (rt_db rt) (statedb e) \<Longrightarrow> steady (rt_db rt) (statedb e) s"
  using assms unfolding native_ok_def by blast+

abbreviation snapshots :: "Thor_StateDB \<Rightarrow> nat" where
  "snapshots s \<equiv> length (rmaps s)"

lemma local_level: "local D s s' \<Longrightarrow> snapshots s' = snapshots s"
  by (simp add: local_def)

lemma steady_local: "steady D s s' \<Longrightarrow> local D s s'"
  by (simp add: steady_def)

lemma thor_reads:
  assumes ok: "db_ok D s"
  shows "GetCode (thor_sdb D) a s = code_of D (sd_state s) a" "GetCodeHash (thor_sdb D) a s = be_word (acc_CodeHash (acc D s a))"
  "CreateAccount (thor_sdb D) a s = s" "SetNonce (thor_sdb D) a n s = s"
  by (simp_all add: thor_sdb_def StateDB_reads [OF ok] StateDB_CreateAccount_def StateDB_SetNonce_def)

lemma thor_steady:
  assumes ok: "db_ok D s"
  shows "steady D s (AddPreimage (thor_sdb D) h p s)" "steady D s (AddLog (thor_sdb D) l s)" "steady D s (AddRefund (thor_sdb D) g s)"
  "steady D s (SetState (thor_sdb D) a k v s)"
proof -
  show "steady D s (AddPreimage (thor_sdb D) h p s)"
    by (rule repo_put_steady [OF ok, of "preimageKey h" "PreimageVal p"]) (simp_all add: thor_sdb_def StateDB_AddPreimage_def)
  show "steady D s (AddLog (thor_sdb D) l s)"
    by (rule repo_put_steady [OF ok, of eventKey "EventVal l"]) (simp_all add: thor_sdb_def StateDB_AddLog_def)
  show "steady D s (AddRefund (thor_sdb D) g s)"
    by (rule StateDB_AddRefund_ok [OF ok, of g]) (simp add: thor_sdb_def steadyI)
  show "steady D s (SetState (thor_sdb D) a k v s)"
    by (rule StateDB_SetState_ok [OF ok, of a k v]) (simp add: thor_sdb_def steadyI)
qed

lemma thor_SetCode:
  assumes ok: "db_ok D s"
  shows "local D s (SetCode (thor_sdb D) a c s)" "balances D (SetCode (thor_sdb D) a c s) = balances D s"
  "codes D (SetCode (thor_sdb D) a c s) = (codes D s)(a := (if c \<noteq> [] then Bytes32_of (thor_Keccak256 D c) else [], c))"
  by (rule StateDB_SetCode_ok [OF ok, of a c]; simp add: thor_sdb_def balances_def codes_def fun_eq_iff)+

lemma thor_Snapshot:
  assumes ok: "db_ok D s"
  obtains s' where "Snapshot (thor_sdb D) s = (snapshots s, s')" and "db_ok D s'" and "snapshots s' = Suc (snapshots s)"
    and "StateDB_Snapshot s = Some (snapshots s, s')" and "s_trie (sd_state s') = s_trie (sd_state s)"
    and "dmaps s' = dmaps s @ [last (dmaps s)]"
  by (rule StateDB_Snapshot_ok [OF ok]) (use db_okD(4) [OF ok] that in \<open>auto simp: thor_sdb_def\<close>)

lemma thor_Revert:
  assumes ok: "db_ok D s" and "0 < n" and "n < snapshots s"
  obtains s' where "RevertToSnapshot (thor_sdb D) n s = s'" and "db_ok D s'" and "snapshots s' = n"
    and "StateDB_RevertToSnapshot n s = Some s'" and "s_trie (sd_state s') = s_trie (sd_state s)"
    and "dmaps s' = take (base s + n - 1) (dmaps s)"
  by (rule StateDB_RevertToSnapshot_ok [OF assms]) (use that assms in \<open>auto simp: thor_sdb_def\<close>)

lemma thor_Suicide:
  fixes X D t a b s
  assumes ok: "db_ok D s"
  defines "s1 \<equiv> keep (rt_OnSuicideContract X D t a b) s"
  shows "local D s (snd (Suicide (thor_sdb D) a s1))"
    and "balances D (snd (Suicide (thor_sdb D) a s1)) = ((balances D s)(b := balances D s b + balances D s a))(a := 0)"
    and "codes D (snd (Suicide (thor_sdb D) a s1)) = (codes D s)(a := ([], snd (codes D (snd (Suicide (thor_sdb D) a s1)) a)))"
    and "snd (codes D (snd (Suicide (thor_sdb D) a s1)) a) \<in> {[], snd (codes D s a)}"
proof -
  obtain s1' where s1: "rt_OnSuicideContract X D t a b s = Some s1'" "local D s s1'" "codes D s1' = codes D s"
    "balances D s1' = (balances D s)(b := balances D s b + balances D s a)"
    by (rule rt_OnSuicideContract_ok [OF ok])
  then have [simp]: "s1 = s1'" by (simp add: s1_def)
  obtain s2 where s2: "StateDB_Suicide D a s1 = Some (\<not> IsEmpty (acc D s1 a), s2)" "local D s1 s2"
    "acc D s2 = (acc D s1)(a := if IsEmpty (acc D s1 a) then acc D s1 a else emptyAccount)"
    "code_of D (sd_state s2) = (code_of D (sd_state s1))(a := if IsEmpty (acc D s1 a) then code_of D (sd_state s1) a else [])"
    by (rule StateDB_Suicide_ok [of D s1 a]) (use local_ok [OF s1(2)] in simp_all)
  then have [simp]: "snd (Suicide (thor_sdb D) a s1') = s2" by (simp add: thor_sdb_def)
  show "local D s (snd (Suicide (thor_sdb D) a s1))" using s1(2) s2(2) by (auto intro: local_trans)
  have b2: "balances D s2 = (balances D s1)(a := 0)" and c2: "codes D s2 = (codes D s1)(a := ([], snd (codes D s2 a)))"
    using s2(3,4) by (auto simp: balances_def codes_def fun_eq_iff IsEmpty_def emptyAccount_def)
  show "balances D (snd (Suicide (thor_sdb D) a s1)) = ((balances D s)(b := balances D s b + balances D s a))(a := 0)"
    using b2 s1(4) by simp
  show "codes D (snd (Suicide (thor_sdb D) a s1)) = (codes D s)(a := ([], snd (codes D (snd (Suicide (thor_sdb D) a s1)) a)))"
    using c2 s1(3) by simp
  show "snd (codes D (snd (Suicide (thor_sdb D) a s1)) a) \<in> {[], snd (codes D s a)}"
    using s2(4) s1(3) by (auto simp: codes_def fun_eq_iff)
qed

lemma thor_OnCreate: "db_ok D s \<Longrightarrow> steady D s (keep (rt_OnCreateContract X D a b) s)"
  by (rule rt_OnCreateContract_ok [of D s X a b]) simp_all

lemma thor_levels:
  assumes "native_ok rt" and I: "\<And>s. I s \<Longrightarrow> db_ok (rt_db rt) s"
  shows "levels_ok (newEVM rt i tc) snapshots I"
  unfolding levels_ok_def newEVM_fields
proof (intro conjI allI impI)
  fix s
  assume "I s"
  note ok = I [OF this]
  show "fst (Snapshot (thor_sdb (rt_db rt)) s) = snapshots s"
    "snapshots (snd (Snapshot (thor_sdb (rt_db rt)) s)) = Suc (snapshots s)"
    by (rule thor_Snapshot [OF ok]; simp)+
  show "snapshots (RevertToSnapshot (thor_sdb (rt_db rt)) n s) = n" if "0 < n" "n < snapshots s" for n
    by (rule thor_Revert [OF ok that]) simp
  show "snapshots (keep (rt_Transfer (rt_db rt) (bc_Time (rt_ctx rt)) a b v) s) = snapshots s" for a b v
    by (rule rt_Transfer_ok [OF ok, of "bc_Time (rt_ctx rt)" a b v]) (simp add: local_level)
qed (auto simp: I thor_reads on_suicide_def newEVM_fields
    local_level [OF steady_local [OF thor_steady(1)]] local_level [OF steady_local [OF thor_steady(2)]]
    local_level [OF steady_local [OF thor_steady(3)]] local_level [OF steady_local [OF thor_steady(4)]]
    local_level [OF thor_SetCode(1)] local_level [OF thor_Suicide(1)]
    local_level [OF steady_local [OF native_okD(4) [OF assms(1)]]]
    local_level [OF steady_local [OF thor_OnCreate]])

section \<open>Tokens and codes on every level\<close>

text \<open>
  \<open>sound\<close> is what the state has to satisfy on every level: no balance is negative, the sum of all
  balances is at most \<open>T\<close>, codes are not longer than \<open>2 ^ 40\<close> bytes, and a code hash is the hash of the
  code.
\<close>

definition sound :: "(bytes \<Rightarrow> hash) \<Rightarrow> int \<Rightarrow> (address \<Rightarrow> int) \<Rightarrow> (address \<Rightarrow> bytes \<times> bytes) \<Rightarrow> bool" where
  "sound K T b c \<longleftrightarrow>
     (\<forall>a. 0 \<le> b a) \<and> (\<Sum>a\<in>UNIV. b a) \<le> T \<and>
     (\<forall>a. length (snd (c a)) \<le> max_code \<and> (fst (c a) = [] \<or> be_word (fst (c a)) = K (snd (c a))))"

definition view :: "state_deps \<Rightarrow> trie_root \<Rightarrow> (state_key \<rightharpoonup> state_val) \<Rightarrow> state_key \<Rightarrow> (db_error + state_val) option" where
  "view D root m key = (case m key of Some v \<Rightarrow> Some (Inr v) | None \<Rightarrow> getter D root key)"

definition account_at :: "state_deps \<Rightarrow> trie_root \<Rightarrow> (state_key \<rightharpoonup> state_val) \<Rightarrow> address \<Rightarrow> Account" where
  "account_at D root m a = (case view D root m (AccountKey a) of Some (Inr (AccountVal x)) \<Rightarrow> x | _ \<Rightarrow> emptyAccount)"

definition code_at :: "state_deps \<Rightarrow> trie_root \<Rightarrow> (state_key \<rightharpoonup> state_val) \<Rightarrow> address \<Rightarrow> bytes" where
  "code_at D root m a = (case view D root m (CodeKey a) of Some (Inr (CodeVal c)) \<Rightarrow> c | _ \<Rightarrow> [])"

definition sound_level :: "(bytes \<Rightarrow> hash) \<Rightarrow> int \<Rightarrow> state_deps \<Rightarrow> trie_root \<Rightarrow> (state_key \<rightharpoonup> state_val) \<Rightarrow> bool" where
  "sound_level K T D root m \<longleftrightarrow>
     sound K T (\<lambda>a. Balance (account_at D root m a)) (\<lambda>a. (acc_CodeHash (account_at D root m a), code_at D root m a))"

definition vet_sound :: "(bytes \<Rightarrow> hash) \<Rightarrow> state_deps \<Rightarrow> int \<Rightarrow> State \<Rightarrow> bool" where
  "vet_sound K D T st \<longleftrightarrow>
     state_ok st \<and> healthy D (s_trie st) \<and> list_all (sound_level K T D (s_trie st)) (smaps st)"

definition vet_ok :: "(bytes \<Rightarrow> hash) \<Rightarrow> state_deps \<Rightarrow> int \<Rightarrow> Thor_StateDB \<Rightarrow> bool" where
  "vet_ok K D T s \<longleftrightarrow> db_ok D s \<and> list_all (sound_level K T D (s_trie (sd_state s))) (dmaps s)"

lemma vet_ok_sound: "vet_ok K D T s \<Longrightarrow> vet_sound K D T (sd_state s)"
  by (simp add: vet_ok_def vet_sound_def db_ok_def)

lemma account_at_top: "account_of D st a = account_at D (s_trie st) (last (smaps st)) a"
  "code_of D st a = code_at D (s_trie st) (last (smaps st)) a"
  by (simp_all add: account_of_def account_at_def code_of_def code_at_def cur_def view_def)

lemma sound_top: "sound_level K T D (s_trie (sd_state s)) (last (dmaps s)) = sound K T (balances D s) (codes D s)"
  by (simp add: sound_level_def balances_def [abs_def] codes_def [abs_def] account_at_top)

lemma vet_okD: "vet_ok K D T s \<Longrightarrow> db_ok D s" "vet_ok K D T s \<Longrightarrow> sound K T (balances D s) (codes D s)"
  using list_all_last db_okD(5) by (fastforce simp: vet_ok_def simp flip: sound_top)+

lemma vet_local:
  assumes "vet_ok K D T s" and "local D s s'" and "sound K T (balances D s') (codes D s')"
  shows "vet_ok K D T s'"
proof -
  have "dmaps s' \<noteq> []" using db_okD(5) [OF local_ok [OF assms(2)]] .
  then have d: "dmaps s' = butlast (dmaps s) @ [last (dmaps s')]"
    using append_butlast_last_id [of "dmaps s'"] assms(2) unfolding local_def by argo
  have "list_all (sound_level K T D (s_trie (sd_state s'))) (butlast (dmaps s))"
    using assms(1,2) by (auto simp: vet_ok_def local_def list_all_iff dest: in_set_butlastD)
  then have "list_all (sound_level K T D (s_trie (sd_state s'))) (dmaps s')"
    using assms(3) by (subst d) (simp add: sound_top)
  with local_ok [OF assms(2)] show ?thesis by (simp add: vet_ok_def)
qed

lemma vet_steady: "vet_ok K D T s \<Longrightarrow> steady D s s' \<Longrightarrow> vet_ok K D T s'"
  by (rule vet_local [of K D T s]) (auto simp: steady_def dest: vet_okD)

lemma vet_levels:
  assumes "vet_ok K D T s" and "db_ok D s'" and "s_trie (sd_state s') = s_trie (sd_state s)" and "set (dmaps s') \<subseteq> set (dmaps s)"
  shows "vet_ok K D T s'"
  using assms by (auto simp: vet_ok_def list_all_iff)

lemma be_word_Bytes32_of [simp]: "be_word (Bytes32_of h) = h"
  by (simp add: be_word_def be_nat_Bytes32_of)

lemma sum_update:
  fixes f :: "'a :: finite \<Rightarrow> int"
  shows "(\<Sum>a\<in>UNIV. (f(x := v)) a) = (\<Sum>a\<in>UNIV. f a) - f x + v"
proof -
  have "(\<Sum>a\<in>UNIV. (f(x := v)) a) = v + (\<Sum>a\<in>UNIV - {x}. f a)" by (simp add: sum.remove [of UNIV x])
  moreover have "(\<Sum>a\<in>UNIV. f a) = f x + (\<Sum>a\<in>UNIV - {x}. f a)" by (simp add: sum.remove [of UNIV x])
  ultimately show ?thesis by simp
qed

text \<open>The three changes of balances and codes keep \<open>sound\<close>.\<close>

lemma sound_transfer:
  assumes "sound K T f c" and "0 \<le> v" and "v \<le> f a"
  shows "sound K T ((f(a := f a - v))(b := (f(a := f a - v)) b + v)) c"
proof -
  let ?f = "f(a := f a - v)"
  have "(\<Sum>x\<in>UNIV. (?f(b := ?f b + v)) x) = (\<Sum>x\<in>UNIV. f x)" by (simp only: sum_update)
  moreover have "0 \<le> (?f(b := ?f b + v)) x" for x using assms by (auto simp: sound_def)
  ultimately show ?thesis using assms(1) unfolding sound_def by metis
qed

lemma sound_suicide:
  assumes "sound K T f c" and "c' = c(a := ([], code))" and "code \<in> {[], snd (c a)}"
  shows "sound K T ((f(b := f b + f a))(a := 0)) c'"
proof -
  let ?f = "f(b := f b + f a)"
  have pos: "0 \<le> f x" for x using assms(1) by (simp add: sound_def)
  have "(\<Sum>x\<in>UNIV. (?f(a := 0)) x) = (\<Sum>x\<in>UNIV. f x) + f a - ?f a" by (simp only: sum_update)
  also have "\<dots> \<le> (\<Sum>x\<in>UNIV. f x)" using pos [of a] by auto
  also have "\<dots> \<le> T" using assms(1) by (simp add: sound_def)
  finally have "(\<Sum>x\<in>UNIV. (?f(a := 0)) x) \<le> T" .
  moreover have "0 \<le> (?f(a := 0)) x" for x using pos by simp
  moreover have "length (snd (c' x)) \<le> max_code \<and> (fst (c' x) = [] \<or> be_word (fst (c' x)) = K (snd (c' x)))" for x
    using assms by (auto simp: sound_def)
  ultimately show ?thesis unfolding sound_def by blast
qed

lemma sound_code:
  assumes "sound K T f c" and "length code \<le> max_code"
  shows "sound K T f (c(a := (if code \<noteq> [] then Bytes32_of (K code) else [], code)))"
  using assms by (auto simp: sound_def)

text \<open>
  The changes that the machine makes outside of read-only mode: they concern the top level only, and
  keep \<open>sound\<close> for every bound on the sum of the balances.
\<close>

definition fair :: "(bytes \<Rightarrow> hash) \<Rightarrow> state_deps \<Rightarrow> Thor_StateDB \<Rightarrow> Thor_StateDB \<Rightarrow> bool" where
  "fair K D s s' \<longleftrightarrow>
     local D s s' \<and> (\<forall>T. sound K T (balances D s) (codes D s) \<longrightarrow> sound K T (balances D s') (codes D s'))"

lemma fair_local: "fair K D s s' \<Longrightarrow> local D s s'"
  by (simp add: fair_def)

lemma steady_fair: "steady D s s' \<Longrightarrow> fair K D s s'"
  by (simp add: steady_def fair_def)

lemma vet_fair: "vet_ok K D T s \<Longrightarrow> fair K D s s' \<Longrightarrow> vet_ok K D T s'"
  by (rule vet_local [of K D T s]) (auto simp: fair_def dest: vet_okD)

section \<open>Assumptions on the environment of the runtime\<close>

text \<open>
  What the theorems assume of the code outside of the model: the helpers and costs of go-ethereum,
  the hash function, the tables of precompiled contracts, and the native calls.
\<close>

definition runtime_ok :: "'t Runtime \<Rightarrow> bool" where
  "runtime_ok rt \<longleftrightarrow>
     safe_math_ok (rt_lib rt) \<and>
     costs_ok (rt_lib rt) (GasTable_at (rt_chainConfig rt) (uint (bc_Number (rt_ctx rt)))) \<and>
     (\<forall>x y. length x \<le> max_code \<longrightarrow> length y \<le> max_code \<longrightarrow> Keccak256 (rt_lib rt) x = Keccak256 (rt_lib rt) y \<longrightarrow>
        length x = length y) \<and>
     thor_Keccak256 (rt_db rt) = Keccak256 (rt_lib rt) \<and>
     (\<forall>a p i. (rt_Homestead rt a = Some p \<or> rt_Byzantium rt a = Some p \<or> rt_Istanbul rt a = Some p) \<longrightarrow>
        length i \<le> max_code \<longrightarrow> RequiredGas p i \<noteq> -1 \<longrightarrow> length (fst (PRun p i)) \<le> max_code) \<and>
     (\<forall>x y. Add (rt_lib rt) x y = x + y) \<and>
     ChainID (rt_chainConfig rt) \<noteq> None \<and> native_ok rt"

lemma runtime_okD: "runtime_ok rt \<Longrightarrow> native_ok rt" "runtime_ok rt \<Longrightarrow> thor_Keccak256 (rt_db rt) = Keccak256 (rt_lib rt)"
  by (simp_all add: runtime_ok_def)

abbreviation K_of :: "'t Runtime \<Rightarrow> bytes \<Rightarrow> hash" where
  "K_of rt \<equiv> Keccak256 (rt_lib rt)"

lemma be_word_Nil [simp]: "be_word [] = 0"
  by (simp add: be_word_def)

lemma codes_sound:
  assumes "sound K T (balances D s) (codes D s)" and "db_ok D s"
  shows "length (GetCode (thor_sdb D) a s) \<le> max_code"
    and "GetCodeHash (thor_sdb D) a s \<noteq> 0 \<Longrightarrow> GetCodeHash (thor_sdb D) a s = K (GetCode (thor_sdb D) a s)"
proof -
  have "length (code_of D (sd_state s) a) \<le> max_code"
    "acc_CodeHash (acc D s a) = [] \<or> be_word (acc_CodeHash (acc D s a)) = K (code_of D (sd_state s) a)"
    using assms(1) by (simp_all add: sound_def codes_def)
  then show "length (GetCode (thor_sdb D) a s) \<le> max_code"
    and "GetCodeHash (thor_sdb D) a s \<noteq> 0 \<Longrightarrow> GetCodeHash (thor_sdb D) a s = K (GetCode (thor_sdb D) a s)"
    by (auto simp: thor_reads(1,2) [OF assms(2)])
qed

lemma runtime_env_ok:
  assumes rt: "runtime_ok rt" and I: "\<And>s. I s \<Longrightarrow> vet_ok (K_of rt) (rt_db rt) T s"
  shows "env_ok (newEVM rt i tc) I"
  unfolding env_ok_def newEVM_fields
proof (intro conjI)
  show "safe_math_ok (rt_lib rt)" using rt by (simp add: runtime_ok_def)
  show "costs_ok (rt_lib rt) (gasTable (newEVM rt i tc))"
    using rt by (simp add: runtime_ok_def gasTable_def newEVM_def)
  show "codes_ok (rt_lib rt) (thor_sdb (rt_db rt)) I"
    unfolding codes_ok_def
  proof (intro conjI allI impI)
    fix a s
    assume "I s"
    note v = vet_okD [OF I [OF this]]
    show "length (GetCode (thor_sdb (rt_db rt)) a s) \<le> max_code" by (rule codes_sound(1) [OF v(2,1)])
    show "GetCodeHash (thor_sdb (rt_db rt)) a s = K_of rt (GetCode (thor_sdb (rt_db rt)) a s)"
      if "GetCodeHash (thor_sdb (rt_db rt)) a s \<noteq> 0" by (rule codes_sound(2) [OF v(2,1) that])
  qed (use rt in \<open>simp add: runtime_ok_def\<close>)
  have tables: "precompiles (newEVM rt i tc) a = Some p \<Longrightarrow>
      rt_Homestead rt a = Some p \<or> rt_Byzantium rt a = Some p \<or> rt_Istanbul rt a = Some p" for a p
    by (auto simp: precompiles_def newEVM_def split: if_splits)
  show "outside_ok (newEVM rt i tc)"
    unfolding outside_ok_def newEVM_fields
  proof (intro conjI)
    show "\<forall>a p i'. precompiles (newEVM rt i tc) a = Some p \<longrightarrow> length i' \<le> max_code \<longrightarrow> RequiredGas p i' \<noteq> -1 \<longrightarrow>
        length (fst (PRun p i')) \<le> max_code"
      using rt tables unfolding runtime_ok_def by blast
    show "\<forall>hook e c ro s gas out err. native_hook (rt_deps rt) = Some hook \<longrightarrow>
        hook e c ro = Some (s, gas, out, err) \<longrightarrow> gas \<le> Gas c \<and> length out \<le> max_code"
      using native_okD(1,2) [OF runtime_okD(1) [OF rt]] by blast
  qed (use rt in \<open>simp_all add: runtime_ok_def\<close>)
qed

lemma can_transfer:
  "db_ok (rt_db rt) s \<Longrightarrow> CanTransfer (ctx (newEVM rt i tc)) s a v \<longleftrightarrow> v \<le> balances (rt_db rt) s a"
  by (simp add: rt_CanTransfer_def StateDB_reads balances_def)

lemma balances_snapshot:
  assumes "s_trie (sd_state s') = s_trie (sd_state s)" and "last (dmaps s') = last (dmaps s)"
  shows "balances D s' = balances D s" and "codes D s' = codes D s"
  using assms by (simp_all add: balances_def [abs_def] codes_def [abs_def] account_at_top)

text \<open>A predicate that snapshots, reverts from \<open>k\<close> on and preimages keep is closed in read-only mode.\<close>

lemma thor_closed_ro:
  assumes native: "native_ok rt" and ok: "\<And>s. I s \<Longrightarrow> db_ok (rt_db rt) s" and k: "\<And>s. I s \<Longrightarrow> k \<le> snapshots s" and "0 < k"
    and snap: "\<And>s s'. I s \<Longrightarrow> StateDB_Snapshot s = Some (snapshots s, s') \<Longrightarrow> I s'"
    and revert: "\<And>s s' n. I s \<Longrightarrow> k \<le> n \<Longrightarrow> n < snapshots s \<Longrightarrow> StateDB_RevertToSnapshot n s = Some s' \<Longrightarrow> I s'"
    and preimage: "\<And>s s' h p. I s \<Longrightarrow> StateDB_AddPreimage h p s = Some s' \<Longrightarrow> I s'"
  shows "closed_ro (newEVM rt i tc) snapshots k I"
  unfolding closed_ro_def newEVM_fields
proof (intro conjI allI impI)
  fix s
  assume I: "I s"
  show "k \<le> snapshots s" by (rule k [OF I])
  show "I (snd (Snapshot (thor_sdb (rt_db rt)) s))" by (rule thor_Snapshot [OF ok [OF I]]) (use snap [OF I] in simp)
  show "I (RevertToSnapshot (thor_sdb (rt_db rt)) n s)" if n: "k \<le> n" "n < snapshots s" for n
    by (rule thor_Revert [OF ok [OF I] _ n(2)]) (use revert [OF I n] n \<open>0 < k\<close> in simp_all)
  show "I (CreateAccount (thor_sdb (rt_db rt)) a s)" for a using I by (simp add: thor_reads ok)
  show "I (keep (rt_Transfer (rt_db rt) (bc_Time (rt_ctx rt)) a b 0) s)" for a b using I by (simp add: rt_Transfer_def)
  show "I (AddPreimage (thor_sdb (rt_db rt)) h p s)" for h p
    by (rule repo_put_steady [OF ok [OF I], of "preimageKey h" "PreimageVal p"])
      (use preimage [OF I] in \<open>simp_all add: thor_sdb_def StateDB_AddPreimage_def\<close>)
next
  fix hook e c s gas out err
  assume "native_hook (rt_deps rt) = Some hook" "I (statedb e)" "hook e c True = Some (s, gas, out, err)"
  then show "I s" using native_okD(3) [OF native, of hook e c True] by simp
qed

lemma transfer_fair:
  assumes "db_ok D s" and "0 \<le> v" and "v \<le> balances D s a"
  shows "fair K D s (keep (rt_Transfer D t a b v) s)"
  by (rule rt_Transfer_ok [OF assms(1), of t a b v]) (use assms sound_transfer in \<open>simp add: fair_def\<close>)

lemma code_fair:
  assumes "db_ok D s" and "length c \<le> max_code" and "thor_Keccak256 D = K"
  shows "fair K D s (SetCode (thor_sdb D) a c s)"
  unfolding fair_def
proof (intro conjI allI impI)
  note s = thor_SetCode [OF assms(1), of a c]
  show "local D s (SetCode (thor_sdb D) a c s)" by (rule s(1))
  show "sound K T (balances D (SetCode (thor_sdb D) a c s)) (codes D (SetCode (thor_sdb D) a c s))"
    if "sound K T (balances D s) (codes D s)" for T
    unfolding s(2,3) assms(3) by (rule sound_code [OF that assms(2)])
qed

lemma suicide_fair:
  assumes "db_ok D s"
  shows "fair K D s (snd (Suicide (thor_sdb D) a (keep (rt_OnSuicideContract X D t a b) s)))"
  unfolding fair_def
proof (intro conjI allI impI)
  note s = thor_Suicide [OF assms, where X = X and t = t and a = a and b = b]
  show "local D s (snd (Suicide (thor_sdb D) a (keep (rt_OnSuicideContract X D t a b) s)))" by (rule s(1))
  show "sound K T (balances D (snd (Suicide (thor_sdb D) a (keep (rt_OnSuicideContract X D t a b) s))))
      (codes D (snd (Suicide (thor_sdb D) a (keep (rt_OnSuicideContract X D t a b) s))))"
    if "sound K T (balances D s) (codes D s)" for T
    unfolding s(2) by (rule sound_suicide [OF that s(3,4)])
qed

text \<open>A predicate that implies the invariant and that every fair change keeps is closed otherwise.\<close>

lemma thor_closed_rw:
  assumes rt: "runtime_ok rt" and ok: "\<And>s. I s \<Longrightarrow> db_ok (rt_db rt) s"
    and fair: "\<And>s s'. I s \<Longrightarrow> fair (K_of rt) (rt_db rt) s s' \<Longrightarrow> I s'"
  shows "closed_rw (newEVM rt i tc) I"
  unfolding closed_rw_def newEVM_fields(1-5) newEVM_fields(7-)
proof (intro conjI allI impI)
  note steady = fair [OF _ steady_fair]
  fix s
  assume I: "I s"
  note db = ok [OF I]
  show "I (AddRefund (thor_sdb (rt_db rt)) g s)" for g by (rule steady [OF I thor_steady(3) [OF db]])
  show "I (SetState (thor_sdb (rt_db rt)) a x y s)" for a x y by (rule steady [OF I thor_steady(4) [OF db]])
  show "I (AddLog (thor_sdb (rt_db rt)) l s)" for l by (rule steady [OF I thor_steady(2) [OF db]])
  show "I (SetNonce (thor_sdb (rt_db rt)) a n s)" for a n using I by (simp add: thor_reads db)
  show "I (SetCode (thor_sdb (rt_db rt)) a b s)" if "length b \<le> max_code" for a b
    by (rule fair [OF I code_fair [OF db that runtime_okD(2) [OF rt]]])
  fix a v
  assume c: "CanTransfer (ctx (newEVM rt i tc)) s a v"
  show "CanTransfer (ctx (newEVM rt i tc)) (CreateAccount (thor_sdb (rt_db rt)) b s) a v" for b
    using c by (simp add: thor_reads db)
  show "CanTransfer (ctx (newEVM rt i tc)) (SetNonce (thor_sdb (rt_db rt)) b n s) a v" for b n
    using c by (simp add: thor_reads db)
  show "CanTransfer (ctx (newEVM rt i tc)) (snd (Snapshot (thor_sdb (rt_db rt)) s)) a v"
  proof (rule thor_Snapshot [OF db])
    fix s'
    assume s': "Snapshot (thor_sdb (rt_db rt)) s = (snapshots s, s')" "db_ok (rt_db rt) s'"
      "s_trie (sd_state s') = s_trie (sd_state s)" "dmaps s' = dmaps s @ [last (dmaps s)]"
    then have "balances (rt_db rt) s' = balances (rt_db rt) s" by (intro balances_snapshot(1)) simp_all
    with c s' db show ?thesis by (simp only: can_transfer s'(1) snd_conv)
  qed
  show "I (keep (rt_Transfer (rt_db rt) (bc_Time (rt_ctx rt)) a b v) s)" if "0 \<le> v" for b
    by (rule fair [OF I transfer_fair [OF db that]]) (use c db in \<open>simp only: can_transfer\<close>)
next
  fix f :: "Thor_StateDB EVM \<Rightarrow> address \<Rightarrow> address \<Rightarrow> Thor_StateDB" and e :: "Thor_StateDB EVM" and a b
  assume f: "Some (\<lambda>e a b. keep (rt_OnCreateContract (rt_deps rt) (rt_db rt) a b) (statedb e)) = Some f" and I: "I (statedb e)"
  then have fe: "f e a b = keep (rt_OnCreateContract (rt_deps rt) (rt_db rt) a b) (statedb e)" for a b by auto
  show "I (f e a b)" unfolding fe by (rule fair [OF I steady_fair [OF thor_OnCreate [OF ok [OF I]]]])
  show "CanTransfer (ctx (newEVM rt i tc)) (f e a b) c v" if "CanTransfer (ctx (newEVM rt i tc)) (statedb e) c v" for c v
    using that thor_OnCreate [OF ok [OF I], of "rt_deps rt" a b] ok [OF I]
    unfolding fe by (auto simp only: can_transfer steady_def steady_ok local_ok)
next
  fix e :: "Thor_StateDB EVM" and a b
  assume I: "I (statedb e)"
  show "I (snd (Suicide (thor_sdb (rt_db rt)) a (on_suicide (newEVM rt i tc) e a b)))"
    using fair [OF I suicide_fair [OF ok [OF I]]] by (simp add: on_suicide_def)
next
  fix hook and e :: "Thor_StateDB EVM" and c s gas out err
  assume h: "native_hook (rt_deps rt) = Some hook" "I (statedb e)" "hook e c False = Some (s, gas, out, err)"
  from native_okD(4) [OF runtime_okD(1) [OF rt] h(1,3) ok [OF h(2)]] show "I s" by (rule fair [OF h(2) steady_fair])
qed

text \<open>The two predicates of the theorems below: the token invariant, and what lies under a snapshot.\<close>

definition vet_below :: "'t Runtime \<Rightarrow> int \<Rightarrow> nat \<Rightarrow> Thor_StateDB \<Rightarrow> Thor_StateDB \<Rightarrow> bool" where
  "vet_below rt T r s0 s \<longleftrightarrow>
     vet_ok (K_of rt) (rt_db rt) T s \<and> r < snapshots s \<and> below_db r s = below_db r s0"

lemma vet_snapshot:
  assumes "vet_ok K D T s" and "StateDB_Snapshot s = Some (n, s')"
  shows "vet_ok K D T s'" and "snapshots s' = Suc (snapshots s)"
proof -
  note db = vet_okD(1) [OF assms(1)]
  obtain s1 where s1: "StateDB_Snapshot s = Some (snapshots s, s1)" "db_ok D s1" "snapshots s1 = Suc (snapshots s)"
    "s_trie (sd_state s1) = s_trie (sd_state s)" "dmaps s1 = dmaps s @ [last (dmaps s)]"
    by (rule thor_Snapshot [OF db])
  with assms(2) have [simp]: "s' = s1" by simp
  show "vet_ok K D T s'" using vet_levels [OF assms(1) s1(2,4)] s1(5) db_okD(5) [OF db] by simp
  show "snapshots s' = Suc (snapshots s)" using s1(3) by simp
qed

lemma vet_revert:
  assumes "vet_ok K D T s" and "0 < n" and "n < snapshots s" and "StateDB_RevertToSnapshot n s = Some s'"
  shows "vet_ok K D T s'" and "snapshots s' = n"
proof -
  obtain s1 where s1: "StateDB_RevertToSnapshot n s = Some s1" "db_ok D s1" "snapshots s1 = n"
    "s_trie (sd_state s1) = s_trie (sd_state s)" "dmaps s1 = take (base s + n - 1) (dmaps s)"
    by (rule thor_Revert [OF vet_okD(1) [OF assms(1)] assms(2,3)])
  with assms(4) have [simp]: "s' = s1" by simp
  show "vet_ok K D T s'" by (simp, rule vet_levels [OF assms(1) s1(2,4)]) (simp only: s1(5) set_take_subset)
  show "snapshots s' = n" using s1(3) by simp
qed

lemma preimage_steady: "db_ok D s \<Longrightarrow> StateDB_AddPreimage h p s = Some s' \<Longrightarrow> steady D s s'"
  by (rule repo_put_steady [of D s "preimageKey h" "PreimageVal p"]) (simp_all add: StateDB_AddPreimage_def)

lemma vet_closed:
  fixes rt :: "'t Runtime" and T :: int
  assumes "runtime_ok rt"
  defines "I \<equiv> vet_ok (K_of rt) (rt_db rt) T"
  shows "env_ok (newEVM rt i tc) I" and "levels_ok (newEVM rt i tc) snapshots I"
    and "closed_ro (newEVM rt i tc) snapshots 1 I" and "closed_rw (newEVM rt i tc) I"
proof -
  have db: "I s \<Longrightarrow> db_ok (rt_db rt) s" for s by (simp add: I_def vet_okD)
  show "env_ok (newEVM rt i tc) I" by (rule runtime_env_ok [OF assms(1)]) (simp add: I_def)
  show "levels_ok (newEVM rt i tc) snapshots I" by (rule thor_levels [OF runtime_okD(1) [OF assms(1)] db])
  show "closed_rw (newEVM rt i tc) I" by (rule thor_closed_rw [OF assms(1) db]) (auto simp: I_def intro: vet_fair)
  show "closed_ro (newEVM rt i tc) snapshots 1 I"
  proof (rule thor_closed_ro [OF runtime_okD(1) [OF assms(1)] db])
    show "1 \<le> snapshots s" if "I s" for s using db_okD(6) [OF db [OF that]] by linarith
    show "I s'" if "I s" "StateDB_AddPreimage h p s = Some s'" for s s' h p
      using vet_steady that preimage_steady [OF db] by (auto simp: I_def)
    show "I s'" if "I s" "StateDB_Snapshot s = Some (snapshots s, s')" for s s'
      using vet_snapshot(1) that unfolding I_def .
    show "I s'" if "I s" "1 \<le> n" "n < snapshots s" "StateDB_RevertToSnapshot n s = Some s'" for s s' n
      using vet_revert(1) [OF that(1) [unfolded I_def] _ that(3,4)] that(2) by (simp add: I_def)
  qed simp_all
qed

lemma vet_below_closed:
  fixes rt :: "'t Runtime" and T :: int and r s0
  assumes "runtime_ok rt"
  defines "I \<equiv> vet_below rt T r s0"
  shows "env_ok (newEVM rt i tc) I" and "levels_ok (newEVM rt i tc) snapshots I"
    and "closed_ro (newEVM rt i tc) snapshots (Suc r) I" and "closed_rw (newEVM rt i tc) I"
proof -
  have vet: "I s \<Longrightarrow> vet_ok (K_of rt) (rt_db rt) T s" for s by (simp add: I_def vet_below_def)
  then have db: "I s \<Longrightarrow> db_ok (rt_db rt) s" for s by (rule vet_okD)
  have change: "I s'" if I: "I s" and "vet_ok (K_of rt) (rt_db rt) T s'" and "local (rt_db rt) s s'" for s s'
    using that local_level [OF that(3)] local_below [OF db [OF I] that(3), of r] by (simp add: I_def vet_below_def)
  show "env_ok (newEVM rt i tc) I" by (rule runtime_env_ok [OF assms(1) vet])
  show "levels_ok (newEVM rt i tc) snapshots I" by (rule thor_levels [OF runtime_okD(1) [OF assms(1)] db])
  show "closed_rw (newEVM rt i tc) I"
    by (rule thor_closed_rw [OF assms(1) db]) (auto intro: change vet_fair [OF vet] fair_local)
  show "closed_ro (newEVM rt i tc) snapshots (Suc r) I"
  proof (rule thor_closed_ro [OF runtime_okD(1) [OF assms(1)] db])
    show "Suc r \<le> snapshots s" if "I s" for s using that by (simp add: I_def vet_below_def)
    show "I s'" if I: "I s" and "StateDB_AddPreimage h p s = Some s'" for s s' h p
      using preimage_steady [OF db [OF I] that(2)] by (intro change [OF I] vet_steady [OF vet [OF I]] steady_local)
    show "I s'" if I: "I s" and "StateDB_Snapshot s = Some (snapshots s, s')" for s s'
      using vet_snapshot [OF vet [OF I] that(2)] snapshot_below [OF db [OF I] that(2), of r] I by (simp add: I_def vet_below_def)
    show "I s'" if I: "I s" and "Suc r \<le> n" "n < snapshots s" "StateDB_RevertToSnapshot n s = Some s'" for s s' n
      using vet_revert [OF vet [OF I] _ that(3,4)] revert_below [OF db [OF I] that(4), of r] that(2,3) I
      by (simp add: I_def vet_below_def)
  qed simp_all
qed

section \<open>Failing calls\<close>

text \<open>
  \<open>J\<close> holds right after the first snapshot of a call and is kept by the machine; then a call that
  fails leaves the state as it was, or reverted to the snapshot from a state in which \<open>J\<close> holds.
\<close>

definition reverted :: "('s, 't) Env \<Rightarrow> ('s \<Rightarrow> bool) \<Rightarrow> nat \<Rightarrow> 's \<Rightarrow> 's \<Rightarrow> bool" where
  "reverted E J n s s' \<longleftrightarrow> s' = s \<or> (\<exists>s2. J s2 \<and> s' = RevertToSnapshot (sdb E) n s2)"

lemma evm_ok_set:
  "cache_fits (lib E) (bitmaps e) \<Longrightarrow> length (returnData e) \<le> max_code \<Longrightarrow> closed_rw E J \<Longrightarrow> J s \<Longrightarrow> evm_ok E J (e\<lparr>statedb := s\<rparr>)"
  by (simp add: evm_ok_def)

lemma traced_statedb: "traced E h (e, t) = (e', t') \<Longrightarrow> statedb e' = statedb e \<and> bitmaps e' = bitmaps e \<and>
    returnData e' = returnData e \<and> depth e' = depth e \<and> readOnly e' = readOnly e \<and>
    contractCreationCount e' = contractCreationCount e"
  by (auto simp: traced_def Cancel_def Let_def split: option.splits prod.splits if_splits)

lemma call_fails:
  assumes E: "env_ok E J" "levels_ok E lvl J" "closed_ro E lvl k J" "closed_rw E J" and L: "runner_safe E lvl b L" "b < 2 ^ 64"
    and snap: "Snapshot (sdb E) (statedb e) = (n, s1)" "J s1"
    and can: "CanTransfer (ctx E) (statedb e) caller val \<Longrightarrow> CanTransfer (ctx E) s1 caller val"
    and e: "cache_fits (lib E) (bitmaps e)" "length (returnData e) \<le> max_code"
    and gas: "unat gas < b" and input: "length input \<le> max_code" and v: "0 \<le> val"
    and r: "call L E caller addr input gas val e t = Some (e', t', ret, left, Some err)"
  shows "reverted E J n (statedb e) (statedb e')"
proof (cases "CanTransfer (ctx E) (statedb e) caller val")
  case False
  with r show ?thesis by (auto simp: call_def reverted_def split: if_splits)
next
  case True
  note s1 = snap(2)
  define s2 where "s2 = (if \<not> Exist (sdb E) addr s1 then CreateAccount (sdb E) addr s1 else s1)"
  have s2: "J s2" "CanTransfer (ctx E) s2 caller val"
    using s1 closed_roD(3) [OF E(3) s1] closed_rwD(8) [OF E(4) s1 can [OF True]] can [OF True] by (simp_all add: s2_def)
  define s3 where "s3 = Transfer (ctx E) s2 caller addr val"
  have s3: "J s3" using closed_rwD(1) [OF E(4) s2 v] by (simp add: s3_def)
  define c where "c = new_frame E s3 addr (NewContract caller addr (Some val) gas)"
  have c: "contract_fits (lib E) c" "Gas c = gas" using new_frame_ok [OF E(1) s3] by (simp_all add: c_def)
  have "run_ok E J (e\<lparr>statedb := s3\<rparr>) (Gas c) (run L E (e\<lparr>statedb := s3\<rparr>) t c input)"
    by (rule run_total [OF E(1,3) runner_safeD [OF L(1) E(1-3)] evm_ok_set [OF e E(4) s3] c(1) _ input L(2)]) (simp add: c(2) gas)
  then obtain e1 t1 c1 ret1 err1 where r1: "run L E (e\<lparr>statedb := s3\<rparr>) t c input = Some (e1, t1, c1, ret1, err1)" "J (statedb e1)"
    unfolding run_ok_def by (auto dest: evm_ok_D)
  with r snap(1) show ?thesis
    by (auto simp: call_def reverted_def Let_def settle_def s2_def [symmetric] s3_def [symmetric] c_def [symmetric] split: if_splits)
qed

lemma create_fails:
  assumes E: "env_ok E J" "levels_ok E lvl J" "closed_ro E lvl k J" "closed_rw E J" and L: "runner_safe E lvl b L" "b < 2 ^ 64"
    and nonce: "\<And>a m s. J s \<or> s = statedb e \<Longrightarrow> SetNonce (sdb E) a m s = s"
    and snap: "Snapshot (sdb E) (statedb e) = (n, s1)" "J s1"
    and can: "CanTransfer (ctx E) (statedb e) caller val \<Longrightarrow> CanTransfer (ctx E) s1 caller val"
    and e: "cache_fits (lib E) (bitmaps e)" "length (returnData e) \<le> max_code"
    and gas: "unat gas < b" and code: "length code \<le> max_code" and v: "0 \<le> val"
    and home: "IsHomestead (chainConfig E) (blockNumber E)"
    and r: "create L E caller code gas val addr e t = Some (e', t', ret, a', left, Some err)"
  shows "reverted E J n (statedb e) (statedb e')"
proof (cases "CanTransfer (ctx E) (statedb e) caller val")
  case False
  with r show ?thesis by (auto simp: create_def reverted_def split: if_splits)
next
  case True
  note s1 = snap(2)
  define s2 where "s2 = CreateAccount (sdb E) addr s1"
  have s2: "J s2" "CanTransfer (ctx E) s2 caller val"
    using closed_roD(3) [OF E(3) s1] closed_rwD(8) [OF E(4) s1 can [OF True]] by (simp_all add: s2_def)
  define e0 where "e0 = e\<lparr>contractCreationCount := contractCreationCount e + 1\<rparr>"
  define s4 where "s4 = (case OnCreateContract (ctx E) of Some f \<Rightarrow> f (e0\<lparr>statedb := s2\<rparr>) addr caller | None \<Rightarrow> s2)"
  have s4: "J s4" "CanTransfer (ctx E) s4 caller val"
    using s2 create_closed [OF E(4), of _ "e0\<lparr>statedb := s2\<rparr>"] by (auto simp: s4_def split: option.split)
  define s5 where "s5 = Transfer (ctx E) s4 caller addr val"
  have s5: "J s5" using closed_rwD(1) [OF E(4) s4 v] by (simp add: s5_def)
  define c where "c = SetCallCode addr (Keccak256 (lib E) code) code (NewContract caller addr (Some val) gas)"
  have c: "contract_fits (lib E) c" "Gas c = gas" using code by (simp_all add: c_def contract_fits_def SetCallCode_def)
  have e0: "cache_fits (lib E) (bitmaps e0)" "length (returnData e0) \<le> max_code" using e by (simp_all add: e0_def)
  have "run_ok E J (e0\<lparr>statedb := s5\<rparr>) (Gas c) (run L E (e0\<lparr>statedb := s5\<rparr>) t c [])"
    by (rule run_total [OF E(1,3) runner_safeD [OF L(1) E(1-3)] evm_ok_set [OF e0 E(4) s5] c(1) _ _ L(2)]) (simp_all add: c(2) gas)
  then obtain e1 t1 c1 ret1 err1 where r1: "run L E (e0\<lparr>statedb := s5\<rparr>) t c [] = Some (e1, t1, c1, ret1, err1)"
    "J (statedb e1)" "length ret1 \<le> max_code"
    unfolding run_ok_def by (auto dest: evm_ok_D)
  have J1: "J (SetCode (sdb E) addr ret1 (statedb e1))" by (rule closed_rwD(6) [OF E(4) r1(2,3)])
  have n0: "SetNonce (sdb E) caller m (statedb e) = statedb e" for m by (simp add: nonce)
  have e0': "e\<lparr>statedb := statedb e, contractCreationCount := contractCreationCount e + 1\<rparr> = e0" by (simp add: e0_def)
  have n2: "(if IsEIP158 (chainConfig E) (blockNumber E) then SetNonce (sdb E) addr 1 s2 else s2) = s2" using s2(1) by (simp add: nonce)
  have "create L E caller code gas val addr e t =
      (if depth e > CallCreateDepth (lib E) then Some (e, t, [], 0, gas, Some ErrDepth)
       else if GetNonce (sdb E) addr (statedb e) \<noteq> 0 \<or>
         (GetCodeHash (sdb E) addr (statedb e) \<noteq> 0 \<and> GetCodeHash (sdb E) addr (statedb e) \<noteq> emptyCodeHash (lib E))
       then Some (e0, t, [], 0, 0, Some ErrContractAddressCollision)
       else if NoRecursion E \<and> depth (e0\<lparr>statedb := s5\<rparr>) > 0 then Some (e0\<lparr>statedb := s5\<rparr>, t, [], addr, gas, None)
       else map_option (store_code E n addr) (Some (e1, t1, c1, ret1, err1)))"
    by (simp only: create_def n0 e0' snap(1) Let_def split_conv s2_def [symmetric] n2 s4_def [symmetric] s5_def [symmetric]
        c_def [symmetric] r1(1) True not_True_eq_False if_False)
  with r r1(2) J1 home show ?thesis
    by (auto simp: reverted_def store_code_def Let_def e0_def UseGas_def split: if_splits)
qed

end
