(* ===== verification/Clauses.thy ===== *)
theory Clauses
  imports RuntimeSafety
begin

text \<open>
  Clauses of a transaction (src/runtime/runtime.go, \<open>PrepareClause\<close>) and read-only calls.
\<close>

section \<open>Clauses\<close>

record Clause =
  cl_To :: "address option"
  cl_Value :: int
  cl_Data :: bytes

record Output =
  out_Data :: bytes
  out_Events :: "event list"
  out_Transfers :: "transfer_log list"
  out_LeftOverGas :: u64
  out_RefundGas :: u64
  out_VMErr :: "error option"
  out_ContractAddress :: "address option"

text \<open>
  \<open>PrepareClause\<close> and the function it returns.  A panic (\<open>None\<close>) is what the deferred function of the code
  turns into an error.  The fuel bounds the iterations of the interpreter.
\<close>

definition exec_clause ::
    "nat \<Rightarrow> 't Runtime \<Rightarrow> bitmapCache \<Rightarrow> Clause \<Rightarrow> u32 \<Rightarrow> u64 \<Rightarrow> TransactionContext \<Rightarrow> State \<Rightarrow> 't \<Rightarrow>
     (Output \<times> State \<times> bitmapCache \<times> 't) option" where
  "exec_clause fuel rt cache clause clauseIndex gas txCtx st t =
     (let E = newEVM rt clauseIndex txCtx; e = NewEVM cache (NewStateDB st)
      in do {
        (e, t, data, contractAddr, leftOverGas, vmErr) \<leftarrow>
          (case cl_To clause of
             None \<Rightarrow> do {
               (e, t, data, caddr, leftOverGas, vmErr) \<leftarrow>
                 Create (loop fuel E) E e t (tc_Origin txCtx) (cl_Data clause) gas (cl_Value clause);
               Some (e, t, data, Some caddr, leftOverGas, vmErr)
             }
           | Some to \<Rightarrow> do {
               (e, t, data, leftOverGas, vmErr) \<leftarrow>
                 Call (loop fuel E) E e t (tc_Origin txCtx) to (cl_Data clause) gas (cl_Value clause);
               Some (e, t, data, None, leftOverGas, vmErr)
             });
        refund \<leftarrow> StateDB_GetRefund (statedb e);
        (events, transfers) \<leftarrow> StateDB_GetLogs (statedb e);
        Some (\<lparr>out_Data = data, out_Events = events, out_Transfers = transfers, out_LeftOverGas = leftOverGas,
               out_RefundGas = refund, out_VMErr = vmErr, out_ContractAddress = contractAddr\<rparr>,
              sd_state (statedb e), bitmaps e, t)
      })"

text \<open>
  The machine part of a clause: the results that do not depend on the address of a created contract.
\<close>

definition clause_machine ::
    "nat \<Rightarrow> 't Runtime \<Rightarrow> bitmapCache \<Rightarrow> Clause \<Rightarrow> u32 \<Rightarrow> u64 \<Rightarrow> TransactionContext \<Rightarrow> State \<Rightarrow> 't \<Rightarrow>
     (Thor_StateDB EVM \<times> 't \<times> bytes \<times> address option \<times> u64 \<times> error option) option" where
  "clause_machine fuel rt cache clause clauseIndex gas txCtx st t =
     (let E = newEVM rt clauseIndex txCtx; e = NewEVM cache (NewStateDB st)
      in case cl_To clause of
           None \<Rightarrow> map_option (\<lambda>(e, t, data, caddr, left, err). (e, t, data, Some caddr, left, err))
             (Create (loop fuel E) E e t (tc_Origin txCtx) (cl_Data clause) gas (cl_Value clause))
         | Some to \<Rightarrow> map_option (\<lambda>(e, t, data, left, err). (e, t, data, None, left, err))
             (Call (loop fuel E) E e t (tc_Origin txCtx) to (cl_Data clause) gas (cl_Value clause)))"

lemma exec_clause_machine:
  assumes "clause_machine fuel rt cache clause i gas tc st t = Some (e, t', data, caddr, left, err)"
  shows "exec_clause fuel rt cache clause i gas tc st t =
    do {
      refund \<leftarrow> StateDB_GetRefund (statedb e);
      (events, transfers) \<leftarrow> StateDB_GetLogs (statedb e);
      Some (\<lparr>out_Data = data, out_Events = events, out_Transfers = transfers, out_LeftOverGas = left,
             out_RefundGas = refund, out_VMErr = err, out_ContractAddress = caddr\<rparr>, sd_state (statedb e), bitmaps e, t')
    }"
  using assms by (auto simp: clause_machine_def exec_clause_def Let_def split: option.splits)

lemma NewStateDB_vet:
  assumes "vet_sound K D T st"
  shows "vet_ok K D T (NewStateDB st)" and "snapshots (NewStateDB st) = 1" and "base (NewStateDB st) = length (smaps st)"
  using assms NewStateDB_ok [of st D] by (auto simp: vet_sound_def vet_ok_def NewStateDB_def NewStackedMap_ok base_def)

definition clause_ready :: "'t Runtime \<Rightarrow> int \<Rightarrow> bitmapCache \<Rightarrow> Clause \<Rightarrow> State \<Rightarrow> bool" where
  "clause_ready rt T cache clause st \<longleftrightarrow>
     vet_sound (K_of rt) (rt_db rt) T st \<and> cache_fits (rt_lib rt) cache \<and>
     length (cl_Data clause) \<le> max_code \<and> 0 \<le> cl_Value clause"

lemma clause_machine_ok:
  assumes rt: "runtime_ok rt" and c: "clause_ready rt T cache clause st" and gas: "unat gas < fuel" "gas \<noteq> -1"
  obtains e t' data caddr left err where
    "clause_machine fuel rt cache clause i gas tc st t = Some (e, t', data, caddr, left, err)" and "left \<le> gas"
    and "vet_below rt T 0 (NewStateDB st) (statedb e)" and "cache_fits (rt_lib rt) (bitmaps e)"
proof -
  let ?E = "newEVM rt i tc" and ?s = "NewStateDB st"
  let ?I = "vet_below rt T 0 ?s"
  note closed = vet_below_closed [OF rt, where i = i and tc = tc and T = T and r = 0 and ?s0.0 = ?s]
  obtain b where b: "runner_safe ?E snapshots b (loop fuel ?E)" "b < 2 ^ 64" "unat gas < b" using runner_loop [OF gas] .
  have calls: "calls_ok ?E ?I b (mkCalls (loop fuel ?E) ?E)" by (rule mkCalls_ok [OF closed(1-3) b(1,2)])
  have "?I ?s" using c NewStateDB_vet [of "K_of rt" "rt_db rt" T st] by (simp add: clause_ready_def vet_below_def)
  then have e: "evm_ok ?E ?I (NewEVM cache ?s)" by (intro NewEVM_ok closed(4)) (use c in \<open>simp_all add: clause_ready_def\<close>)
  have ready: "length (cl_Data clause) \<le> max_code" "0 \<le> cl_Value clause" using c by (simp_all add: clause_ready_def)
  show thesis
  proof (cases "cl_To clause")
    case None
    have "create_ok ?E ?I (NewEVM cache ?s) gas
        (do_Create (mkCalls (loop fuel ?E) ?E) (NewEVM cache ?s) t (tc_Origin tc) (cl_Data clause) gas (cl_Value clause))"
      by (rule calls_okD(5) [OF calls e b(3) ready(1) _ ready(2)]) simp
    then obtain e1 t1 ret addr left err where "Create (loop fuel ?E) ?E (NewEVM cache ?s) t (tc_Origin tc) (cl_Data clause) gas (cl_Value clause) =
        Some (e1, t1, ret, addr, left, err)" "evm_ok ?E ?I e1" "left \<le> gas"
      unfolding create_ok_def by (auto simp: mkCalls_def)
    with None that show thesis by (simp add: clause_machine_def evm_ok_def)
  next
    case (Some to)
    have "call_ok ?E ?I (NewEVM cache ?s) gas
        (do_Call (mkCalls (loop fuel ?E) ?E) (NewEVM cache ?s) t (tc_Origin tc) to (cl_Data clause) gas (cl_Value clause))"
      by (rule calls_okD(1) [OF calls e b(3) ready(1) _ ready(2)]) simp
    then obtain e1 t1 ret left err where "Call (loop fuel ?E) ?E (NewEVM cache ?s) t (tc_Origin tc) to (cl_Data clause) gas (cl_Value clause) =
        Some (e1, t1, ret, left, err)" "evm_ok ?E ?I e1" "left \<le> gas"
      unfolding call_ok_def by (auto simp: mkCalls_def)
    with Some that show thesis by (simp add: clause_machine_def evm_ok_def)
  qed
qed

lemma exec_clause_ok:
  assumes rt: "runtime_ok rt" and c: "clause_ready rt T cache clause st" and gas: "unat gas < fuel" "gas \<noteq> -1"
  obtains out e t' where "exec_clause fuel rt cache clause i gas tc st t = Some (out, sd_state (statedb e), bitmaps e, t')"
    and "out_LeftOverGas out \<le> gas" and "vet_below rt T 0 (NewStateDB st) (statedb e)" and "cache_fits (rt_lib rt) (bitmaps e)"
    and "\<exists>data caddr. clause_machine fuel rt cache clause i gas tc st t = Some (e, t', data, caddr, out_LeftOverGas out, out_VMErr out)"
proof (rule clause_machine_ok [OF rt c gas, of i tc t])
  fix e t' data caddr left err
  assume m: "clause_machine fuel rt cache clause i gas tc st t = Some (e, t', data, caddr, left, err)" "left \<le> gas"
    "vet_below rt T 0 (NewStateDB st) (statedb e)" "cache_fits (rt_lib rt) (bitmaps e)"
  have db: "db_ok (rt_db rt) (statedb e)" using m(3) by (auto simp: vet_below_def dest: vet_okD)
  obtain n where "repo_get refundKey (statedb e) = Some (Inr (Some (RefundVal n)))" using repo_get_typed(1) [OF db] by blast
  then have "StateDB_GetRefund (statedb e) = Some n" by (simp add: StateDB_GetRefund_def)
  with m db show thesis by (intro that) (auto simp: exec_clause_machine [OF m(1)] GetLogs_of)
qed

lemma vet_below_state:
  assumes "vet_below rt T 0 (NewStateDB st) s" and "vet_sound (K_of rt) (rt_db rt) T st"
  shows "vet_sound (K_of rt) (rt_db rt) T (sd_state s)" and "s_trie (sd_state s) = s_trie st"
    and "take (length (smaps st) - 1) (dmaps s) = butlast (smaps st)" and "length (smaps st) \<le> length (dmaps s)"
proof -
  have v: "vet_ok (K_of rt) (rt_db rt) T s" and b: "below_db 0 s = below_db 0 (NewStateDB st)" "0 < snapshots s"
    using assms(1) by (simp_all add: vet_below_def)
  show "vet_sound (K_of rt) (rt_db rt) T (sd_state s)" by (rule vet_ok_sound [OF v])
  have base: "base s = length (smaps st)" using b(1) NewStateDB_vet(3) [OF assms(2)] by (simp add: below_db_def)
  show "s_trie (sd_state s) = s_trie st" using b(1) by (simp add: below_db_def NewStateDB_def)
  show "take (length (smaps st) - 1) (dmaps s) = butlast (smaps st)"
  proof -
    have "dmaps (NewStateDB st) = smaps st" by (simp add: NewStateDB_def)
    moreover have "take (base s + 0 - 1) (dmaps s) = take (base (NewStateDB st) + 0 - 1) (dmaps (NewStateDB st))"
      using b(1) unfolding below_db_def prod.inject by blast
    ultimately show ?thesis unfolding base NewStateDB_vet(3) [OF assms(2)] by (simp add: butlast_conv_take)
  qed
  show "length (smaps st) \<le> length (dmaps s)" using base b(2) db_okD(7) [OF vet_okD(1) [OF v]] unfolding base_def by linarith
qed

lemma with_hooks_body:
  assumes "with_hooks E enter exit gas body e t = Some (e', t', ret, left, err)"
  obtains e1 t1 e2 t2 where "body e1 t1 = Some (e2, t2, ret, left, err)" and "statedb e1 = statedb e" and "bitmaps e1 = bitmaps e"
    and "returnData e1 = returnData e" and "statedb e' = statedb e2"
proof -
  obtain e1 t1 where 1: "traced E enter (e, t) = (e1, t1)" by force
  with assms obtain e2 t2 ret2 left2 err2 where 2: "body e1 t1 = Some (e2, t2, ret2, left2, err2)"
    by (auto simp: with_hooks_def bind_eq_Some_conv)
  obtain e3 t3 where 3: "traced E (exit ret2 (gas - left2) err2) (e2, t2) = (e3, t3)" by force
  from assms 1 2 3 have "e' = e3" "ret2 = ret" "left2 = left" "err2 = err" by (auto simp: with_hooks_def)
  with 2 that traced_statedb [OF 1] traced_statedb [OF 3] show thesis by metis
qed

lemma with_create_hooks_body:
  assumes "with_create_hooks E enter exit gas body e t = Some (e', t', ret, addr, left, err)"
  obtains e1 t1 e2 t2 where "body e1 t1 = Some (e2, t2, ret, addr, left, err)" and "statedb e1 = statedb e" and "bitmaps e1 = bitmaps e"
    and "returnData e1 = returnData e" and "statedb e' = statedb e2"
proof -
  obtain e1 t1 where 1: "traced E enter (e, t) = (e1, t1)" by force
  with assms obtain e2 t2 ret2 addr2 left2 err2 where 2: "body e1 t1 = Some (e2, t2, ret2, addr2, left2, err2)"
    by (auto simp: with_create_hooks_def bind_eq_Some_conv)
  obtain e3 t3 where 3: "traced E (exit ret2 (gas - left2) err2) (e2, t2) = (e3, t3)" by force
  from assms 1 2 3 have "e' = e3" "ret2 = ret" "addr2 = addr" "left2 = left" "err2 = err" by (auto simp: with_create_hooks_def)
  with 2 that traced_statedb [OF 1] traced_statedb [OF 3] show thesis by metis
qed

lemma clause_reverted:
  assumes rt: "runtime_ok rt" "IsHomestead (rt_chainConfig rt) (uint (bc_Number (rt_ctx rt)))"
    and c: "clause_ready rt T cache clause st" and gas: "unat gas < fuel" "gas \<noteq> -1"
    and snap: "StateDB_Snapshot (NewStateDB st) = Some (1, s1)"
    and m: "clause_machine fuel rt cache clause i gas tc st t = Some (e, t', data, caddr, left, Some err)"
  shows "reverted (newEVM rt i tc) (vet_below rt T 1 s1) 1 (NewStateDB st) (statedb e)"
proof -
  let ?E = "newEVM rt i tc" and ?s = "NewStateDB st"
  let ?J = "vet_below rt T 1 s1"
  note closed = vet_below_closed [OF rt(1), where i = i and tc = tc and T = T and r = 1 and ?s0.0 = s1]
  obtain b where b: "runner_safe ?E snapshots b (loop fuel ?E)" "b < 2 ^ 64" "unat gas < b" using runner_loop [OF gas] .
  have ready: "length (cl_Data clause) \<le> max_code" "0 \<le> cl_Value clause" "vet_sound (K_of rt) (rt_db rt) T st"
    "cache_fits (lib ?E) cache" using c by (simp_all add: clause_ready_def)
  note s = NewStateDB_vet [OF ready(3)]
  have J: "?J s1" using vet_snapshot [OF s(1) snap] s(2) by (simp add: vet_below_def)
  have snap': "Snapshot (sdb ?E) ?s = (1, s1)" using snap by (simp add: thor_sdb_def)
  have can: "CanTransfer (ctx ?E) ?s a v \<Longrightarrow> CanTransfer (ctx ?E) s1 a v" for a v
    using closed_rwD(7) [OF vet_closed(4) [OF rt(1)] s(1), of i tc a v] snap' by simp
  have home: "IsHomestead (chainConfig ?E) (blockNumber ?E)" using rt(2) by (simp add: newEVM_def)
  have nonce: "SetNonce (sdb ?E) a n x = x" if "?J x \<or> x = y" for a n x y by (simp add: thor_sdb_def StateDB_SetNonce_def)
  show ?thesis
  proof (cases "cl_To clause")
    case None
    with m have r: "Create (loop fuel ?E) ?E (NewEVM cache ?s) t (tc_Origin tc) (cl_Data clause) gas (cl_Value clause) =
        Some (e, t', data, the caddr, left, Some err)" by (auto simp: clause_machine_def Let_def)
    obtain e1 t1 e2 t2 where b1: "create (loop fuel ?E) ?E (tc_Origin tc) (cl_Data clause) gas (cl_Value clause)
        (NewContractAddress (ctx ?E) (NewEVM cache ?s) (contractCreationCount (NewEVM cache ?s))) e1 t1 = Some (e2, t2, data, the caddr, left, Some err)"
      "statedb e1 = ?s" "bitmaps e1 = cache" "returnData e1 = []" "statedb e = statedb e2"
      by (rule with_create_hooks_body [OF r [unfolded Create_def Let_def]]) (simp add: NewEVM_def)
    have "reverted ?E ?J 1 (statedb e1) (statedb e2)"
      by (rule create_fails [OF closed b(1,2) nonce _ J _ _ _ b(3) ready(1,2) home b1(1)])
        (use b1 snap' can ready(4) in auto)
    with b1 show ?thesis by simp
  next
    case (Some to)
    with m have r: "Call (loop fuel ?E) ?E (NewEVM cache ?s) t (tc_Origin tc) to (cl_Data clause) gas (cl_Value clause) =
        Some (e, t', data, left, Some err)" by (auto simp: clause_machine_def Let_def)
    obtain e1 t1 e2 t2 where b1: "call (loop fuel ?E) ?E (tc_Origin tc) to (cl_Data clause) gas (cl_Value clause) e1 t1 =
        Some (e2, t2, data, left, Some err)" "statedb e1 = ?s" "bitmaps e1 = cache" "returnData e1 = []" "statedb e = statedb e2"
      by (rule with_hooks_body [OF r [unfolded Call_def]]) (simp add: NewEVM_def)
    have "reverted ?E ?J 1 (statedb e1) (statedb e2)"
      by (rule call_fails [OF closed b(1,2) _ J _ _ _ b(3) ready(1,2) b1(1)]) (use b1 snap' can ready(4) in auto)
    with b1 show ?thesis by simp
  qed
qed

lemma clause_fails:
  assumes rt: "runtime_ok rt" "IsHomestead (rt_chainConfig rt) (uint (bc_Number (rt_ctx rt)))"
    and c: "clause_ready rt T cache clause st" and gas: "unat gas < fuel" "gas \<noteq> -1"
    and m: "clause_machine fuel rt cache clause i gas tc st t = Some (e, t', data, caddr, left, Some err)"
  shows "same_contents (rt_db rt) (NewStateDB st) (statedb e)" and "dmaps (statedb e) = smaps st"
    and "s_trie (sd_state (statedb e)) = s_trie st"
proof -
  let ?s = "NewStateDB st"
  note s = NewStateDB_vet [OF c [unfolded clause_ready_def, THEN conjunct1]]
  note db = vet_okD(1) [OF s(1)]
  obtain s1 where snap: "StateDB_Snapshot ?s = Some (1, s1)" by (rule thor_Snapshot [OF db]) (simp add: s(2))
  have "same_contents (rt_db rt) ?s (statedb e) \<and> dmaps (statedb e) = smaps st \<and> s_trie (sd_state (statedb e)) = s_trie st"
    using clause_reverted [OF rt c gas snap m] unfolding reverted_def
  proof (elim disjE exE conjE)
    assume "statedb e = ?s"
    then show ?thesis by (simp add: same_contents_def) (simp add: NewStateDB_def)
  next
    fix s2
    assume s2: "vet_below rt T 1 s1 s2" "statedb e = RevertToSnapshot (sdb (newEVM rt i tc)) 1 s2"
    then have J: "db_ok (rt_db rt) s2" "1 < snapshots s2" "below_db 1 s2 = below_db 1 s1"
      by (auto simp: vet_below_def dest: vet_okD)
    obtain s3 where s3: "StateDB_RevertToSnapshot 1 s2 = Some s3" "same_contents (rt_db rt) ?s s3" "dmaps s3 = dmaps ?s"
      "s_trie (sd_state s3) = s_trie (sd_state ?s)"
      by (rule revert_same_contents [OF db snap J])
    have "statedb e = s3" using s2(2) s3(1) by (simp add: thor_sdb_def)
    with s3 show ?thesis by (simp add: NewStateDB_def)
  qed
  then show "same_contents (rt_db rt) ?s (statedb e)" "dmaps (statedb e) = smaps st" "s_trie (sd_state (statedb e)) = s_trie st"
    by blast+
qed

section \<open>Read-only execution\<close>

text \<open>
  Every level from the current one on shows the same accounts, codes, storage, refund, suicide flags and
  logs as \<open>s0\<close>: nothing but preimages and revisions has been written.
\<close>

definition shown :: "repo_key \<Rightarrow> bool" where
  "shown k \<longleftrightarrow> k = refundKey \<or> (\<exists>a. k = suicideFlagKey a)"

definition level_quiet :: "Thor_StateDB \<Rightarrow> Thor_StateDB \<Rightarrow> nat \<Rightarrow> bool" where
  "level_quiet s0 s n \<longleftrightarrow>
     dmaps s ! (base s0 + n - 2) = last (dmaps s0) \<and>
     (\<forall>k. shown k \<longrightarrow> (rmaps s ! (n - 1)) k = last (rmaps s0) k) \<and>
     events_of (concat (take n (rjournals s))) = events_of (concat (rjournals s0)) \<and>
     transfers_of (concat (take n (rjournals s))) = transfers_of (concat (rjournals s0))"

definition quiet :: "(bytes \<Rightarrow> hash) \<Rightarrow> state_deps \<Rightarrow> int \<Rightarrow> Thor_StateDB \<Rightarrow> Thor_StateDB \<Rightarrow> bool" where
  "quiet K D T s0 s \<longleftrightarrow>
     vet_ok K D T s \<and> s_trie (sd_state s) = s_trie (sd_state s0) \<and> base s = base s0 \<and>
     0 < snapshots s0 \<and> snapshots s0 \<le> snapshots s \<and>
     (\<forall>n. snapshots s0 \<le> n \<longrightarrow> n \<le> snapshots s \<longrightarrow> level_quiet s0 s n)"

lemma db_lengths:
  assumes "db_ok D s"
  shows "length (rjournals s) = snapshots s" and "length (dmaps s) = base s + snapshots s - 1" and "0 < base s" and "0 < snapshots s"
  using stacked.length_journals [OF db_okD(3) [OF assms]] db_okD(6,7,8) [OF assms] by (auto simp: base_def)

lemma quiet_refl:
  assumes "vet_ok K D T s"
  shows "quiet K D T s s"
proof -
  note l = db_lengths [OF vet_okD(1) [OF assms]] and d = db_okD [OF vet_okD(1) [OF assms]]
  have "base s + snapshots s - 2 = length (dmaps s) - 1" using l by simp
  then have "level_quiet s s (snapshots s)" using l d(4,5) by (simp add: level_quiet_def last_conv_nth)
  with assms l(4) show ?thesis by (auto simp: quiet_def dest: le_antisym)
qed

lemma quiet_same:
  assumes "quiet K D T s0 s" and "db_ok D s0"
  shows "same_contents D s0 s"
proof -
  have v: "vet_ok K D T s" and q: "level_quiet s0 s (snapshots s)" and t: "s_trie (sd_state s) = s_trie (sd_state s0)"
    and b: "base s = base s0"
    using assms(1) by (auto simp: quiet_def)
  note l = db_lengths [OF vet_okD(1) [OF v]] and d = db_okD [OF vet_okD(1) [OF v]]
  have i: "base s0 + snapshots s - 2 = length (dmaps s) - 1" using l b by simp
  show ?thesis
    using q i l d(4,5)
    by (intro same_contentsI [OF assms(2) vet_okD(1) [OF v] t]) (auto simp: level_quiet_def last_conv_nth shown_def)
qed

lemma concat_snoc: "js \<noteq> [] \<Longrightarrow> concat (butlast js @ [last js @ xs]) = concat js @ xs"
  by (induction js) auto

lemma quiet_preimage:
  assumes "quiet K D T s0 s" and "StateDB_AddPreimage h p s = Some s'"
  shows "quiet K D T s0 s'"
proof -
  have v: "vet_ok K D T s" and q: "\<And>n. snapshots s0 \<le> n \<Longrightarrow> n \<le> snapshots s \<Longrightarrow> level_quiet s0 s n"
    using assms(1) by (auto simp: quiet_def)
  note db = vet_okD(1) [OF v]
  obtain s1 where s1: "repo_put (preimageKey h) (PreimageVal p) s = Some s1" "local D s s1" "sd_state s1 = sd_state s"
    "rmaps s1 = put_top (preimageKey h) (PreimageVal p) (rmaps s)"
    "rjournals s1 = butlast (rjournals s) @ [last (rjournals s) @ [(preimageKey h, PreimageVal p)]]"
    by (rule repo_put_local [OF db, of "preimageKey h" "PreimageVal p"]) simp
  then have [simp]: "s' = s1" using assms(2) by (simp add: StateDB_AddPreimage_def)
  note l = db_lengths [OF db]
  have steady: "steady D s s1" using preimage_steady [OF db assms(2)] by simp
  have "level_quiet s0 s1 n" if n: "snapshots s0 \<le> n" "n \<le> snapshots s" for n
  proof (cases "n = snapshots s")
    case True
    have "rmaps s ! (n - 1) = last (rmaps s)" using True l(4) by (simp add: last_conv_nth)
    moreover have "rmaps s1 ! (n - 1) = (last (rmaps s))(preimageKey h \<mapsto> PreimageVal p)"
      using s1(4) True l(4) by (simp add: put_top_def nth_append)
    moreover have ne: "rjournals s \<noteq> []" using l(1,4) by auto
    then have "length (rjournals s1) = n" using s1(5) True l(1,4) by simp
    then have "concat (take n (rjournals s1)) = concat (rjournals s) @ [(preimageKey h, PreimageVal p)]"
      using concat_snoc [OF ne] s1(5) by simp
    moreover have "take n (rjournals s) = rjournals s" using True l(1) by simp
    ultimately show ?thesis using q [OF n] s1(3) by (auto simp: level_quiet_def shown_def events_of_def transfers_of_def map_filter_def)
  next
    case False
    then have "n < snapshots s" "n - 1 < snapshots s - 1" using n assms(1) unfolding quiet_def by linarith+
    then have "rmaps s1 ! (n - 1) = rmaps s ! (n - 1)" "take n (rjournals s1) = take n (rjournals s)"
      using s1(4,5) l(1) n by (simp_all add: nth_put_top take_butlast)
    then show ?thesis using q [OF n] s1(3) by (simp add: level_quiet_def)
  qed
  with assms(1) s1 steady show ?thesis
    using vet_steady [OF v steady] local_level [OF s1(2)] by (auto simp: quiet_def base_def)
qed

lemma quiet_snapshot:
  assumes "quiet K D T s0 s" and "StateDB_Snapshot s = Some (m, s')"
  shows "quiet K D T s0 s'"
proof -
  have v: "vet_ok K D T s" and pos: "0 < snapshots s0" and b: "base s = base s0"
    and q: "\<And>n. snapshots s0 \<le> n \<Longrightarrow> n \<le> snapshots s \<Longrightarrow> level_quiet s0 s n"
    using assms(1) by (auto simp: quiet_def)
  note db = vet_okD(1) [OF v]
  note l = db_lengths [OF db] and d = db_okD [OF db]
  obtain s1 where s1: "StateDB_Snapshot s = Some (snapshots s, s1)" "db_ok D s1" "s_trie (sd_state s1) = s_trie (sd_state s)"
    "dmaps s1 = dmaps s @ [last (dmaps s)]"
    "rmaps s1 = put_top stateRevKey (RevVal (length (dmaps s))) (rmaps s) @ [last (put_top stateRevKey (RevVal (length (dmaps s))) (rmaps s))]"
    "rjournals s1 = butlast (rjournals s) @ [last (rjournals s) @ [(stateRevKey, RevVal (length (dmaps s)))], []]"
    by (rule StateDB_Snapshot_ok [OF db])
  then have [simp]: "s' = s1" using assms(2) by simp
  have ne: "rjournals s \<noteq> []" using l(1,4) by auto
  have snaps: "snapshots s1 = Suc (snapshots s)" using s1(5) d(4) by simp
  have base: "base s1 = base s" using snaps s1(4) d(7) by (simp add: base_def)
  have old: "level_quiet s0 s1 n" if n: "snapshots s0 \<le> n" "n \<le> snapshots s" for n
  proof -
    have "base s0 + n - 2 < length (dmaps s)" using n(2) l b pos n(1) by linarith
    then have "dmaps s1 ! (base s0 + n - 2) = dmaps s ! (base s0 + n - 2)" using s1(4) by (simp add: nth_append)
    moreover have "(rmaps s1 ! (n - 1)) k = (rmaps s ! (n - 1)) k" if "shown k" for k
    proof (cases "n = snapshots s")
      case True
      with that show ?thesis using s1(5) d(4) l(4) by (auto simp: nth_append put_top_def last_conv_nth shown_def)
    next
      case False
      then have "n - 1 < snapshots s - 1" "n - 1 < snapshots s" using n pos by linarith+
      then show ?thesis using s1(5) d(4) by (simp add: nth_append nth_put_top)
    qed
    moreover have "events_of (concat (take n (rjournals s1))) = events_of (concat (take n (rjournals s)))"
      "transfers_of (concat (take n (rjournals s1))) = transfers_of (concat (take n (rjournals s)))"
    proof -
      have "concat (take n (rjournals s1)) = concat (take n (rjournals s)) \<or>
          concat (take n (rjournals s1)) = concat (take n (rjournals s)) @ [(stateRevKey, RevVal (length (dmaps s)))]"
      proof (cases "n = snapshots s")
        case True
        then have "n - (n - Suc 0) = 1" using l(4) by linarith
        then have "take n (rjournals s1) = butlast (rjournals s) @ [last (rjournals s) @ [(stateRevKey, RevVal (length (dmaps s)))]]"
          using s1(6) l(1) True by simp
        then show ?thesis using concat_snoc [OF ne] True l(1) by simp
      next
        case False
        then have "take n (rjournals s1) = take n (rjournals s)" using n(2) s1(6) l(1) by (simp add: take_butlast)
        then show ?thesis by simp
      qed
      then show "events_of (concat (take n (rjournals s1))) = events_of (concat (take n (rjournals s)))"
        "transfers_of (concat (take n (rjournals s1))) = transfers_of (concat (take n (rjournals s)))"
        by (auto simp: events_of_def transfers_of_def map_filter_def)
    qed
    ultimately show ?thesis using q [OF n] by (simp add: level_quiet_def)
  qed
  have "snapshots s0 \<le> snapshots s" using assms(1) by (simp add: quiet_def)
  note top = old [OF this le_refl]
  have "level_quiet s0 s1 (Suc (snapshots s))"
  proof -
    have "base s0 + Suc (snapshots s) - 2 = length (dmaps s)" "base s0 + snapshots s - 2 = length (dmaps s) - 1" using l b by linarith+
    then have "dmaps s1 ! (base s0 + Suc (snapshots s) - 2) = dmaps s1 ! (base s0 + snapshots s - 2)"
      using s1(4) d(5) by (simp add: nth_append last_conv_nth)
    moreover have "rmaps s1 ! (Suc (snapshots s) - 1) = rmaps s1 ! (snapshots s - 1)"
      using s1(5) d(4) l(4) by (auto simp: nth_append put_top_def)
    moreover have "Suc (snapshots s) - (snapshots s - Suc 0) = 2" "snapshots s - (snapshots s - Suc 0) = 1" using l(4) by linarith+
    then have "concat (take (Suc (snapshots s)) (rjournals s1)) = concat (take (snapshots s) (rjournals s1))"
      using s1(6) l(1) by simp
    ultimately show ?thesis using top unfolding level_quiet_def by metis
  qed
  with old have "level_quiet s0 s1 n" if "snapshots s0 \<le> n" "n \<le> snapshots s1" for n
    using that snaps by (metis le_Suc_eq)
  with assms(1) vet_snapshot(1) [OF v assms(2)] s1(3) base snaps show ?thesis by (auto simp: quiet_def)
qed

lemma quiet_revert:
  assumes "quiet K D T s0 s" and "snapshots s0 \<le> m" and "m < snapshots s" and "StateDB_RevertToSnapshot m s = Some s'"
  shows "quiet K D T s0 s'"
proof -
  have v: "vet_ok K D T s" and b: "base s = base s0"
    and q: "\<And>n. snapshots s0 \<le> n \<Longrightarrow> n \<le> snapshots s \<Longrightarrow> level_quiet s0 s n"
    using assms(1) by (auto simp: quiet_def)
  have pos: "0 < m" using assms(1,2) unfolding quiet_def by linarith
  note db = vet_okD(1) [OF v]
  obtain s1 where s1: "StateDB_RevertToSnapshot m s = Some s1" "db_ok D s1" "s_trie (sd_state s1) = s_trie (sd_state s)"
    "dmaps s1 = take (base s + m - 1) (dmaps s)" "rmaps s1 = take m (rmaps s)" "rjournals s1 = take m (rjournals s)"
    by (rule StateDB_RevertToSnapshot_ok [OF db pos assms(3)])
  then have [simp]: "s' = s1" using assms(4) by simp
  have snaps: "snapshots s1 = m" using s1(5) assms(3) by simp
  have base: "base s1 = base s" using snaps s1(4) db_lengths(2,3) [OF db] pos assms(3) by (simp add: base_def [of s1])
  have "level_quiet s0 s1 n" if n: "snapshots s0 \<le> n" "n \<le> m" for n
  proof -
    have "level_quiet s0 s n" using q n assms(3) by simp
    moreover have "0 < n" using n(1) assms(1) unfolding quiet_def by linarith
    then have "base s0 + n - 2 < base s + m - 1" "n - 1 < m" using n(2) b db_lengths(3) [OF db] by linarith+
    ultimately show ?thesis using s1(4-6) n(2) by (simp add: level_quiet_def min_absorb2)
  qed
  with assms(1,2) vet_revert(1) [OF v pos assms(3,4)] s1(3) base snaps show ?thesis by (auto simp: quiet_def)
qed

lemma quiet_closed:
  fixes rt :: "'t Runtime" and T :: int and s0
  assumes "runtime_ok rt"
  defines "I \<equiv> quiet (K_of rt) (rt_db rt) T s0"
  shows "env_ok (newEVM rt i tc) I" and "levels_ok (newEVM rt i tc) snapshots I"
    and "0 < snapshots s0 \<Longrightarrow> closed_ro (newEVM rt i tc) snapshots (snapshots s0) I"
proof -
  have vet: "I s \<Longrightarrow> vet_ok (K_of rt) (rt_db rt) T s" for s by (simp add: I_def quiet_def)
  then have db: "I s \<Longrightarrow> db_ok (rt_db rt) s" for s by (rule vet_okD)
  show "env_ok (newEVM rt i tc) I" by (rule runtime_env_ok [OF assms(1) vet])
  show "levels_ok (newEVM rt i tc) snapshots I" by (rule thor_levels [OF runtime_okD(1) [OF assms(1)] db])
  show "closed_ro (newEVM rt i tc) snapshots (snapshots s0) I" if "0 < snapshots s0"
  proof (rule thor_closed_ro [OF runtime_okD(1) [OF assms(1)] db _ that])
    show "snapshots s0 \<le> snapshots s" if "I s" for s using that by (simp add: I_def quiet_def)
    show "I s'" if "I s" "StateDB_AddPreimage h p s = Some s'" for s s' h p
      using quiet_preimage that unfolding I_def .
    show "I s'" if "I s" "StateDB_Snapshot s = Some (snapshots s, s')" for s s'
      using quiet_snapshot that unfolding I_def .
    show "I s'" if "I s" "snapshots s0 \<le> n" "n < snapshots s" "StateDB_RevertToSnapshot n s = Some s'" for s s' n
      using quiet_revert that unfolding I_def .
  qed simp_all
qed

section \<open>Properties of clauses\<close>

definition total_tokens :: "state_deps \<Rightarrow> State \<Rightarrow> int" where
  "total_tokens D st = (\<Sum>a\<in>UNIV. Balance (account_of D st a))"

definition same_reads :: "state_deps \<Rightarrow> State \<Rightarrow> State \<Rightarrow> bool" where
  "same_reads D st st' \<longleftrightarrow>
     (\<forall>a. State_GetBalance D a st' = State_GetBalance D a st \<and> State_GetMaster D a st' = State_GetMaster D a st \<and>
        State_GetCode D a st' = State_GetCode D a st \<and> State_GetCodeHash D a st' = State_GetCodeHash D a st \<and>
        State_Exists D a st' = State_Exists D a st \<and> (\<forall>t. State_GetEnergy D a t st' = State_GetEnergy D a t st) \<and>
        (\<forall>k. State_GetStorage D a k st' = State_GetStorage D a k st))"

lemma same_readsI:
  assumes "state_ok st" and "state_ok st'" and "healthy D (s_trie st)" and "s_trie st' = s_trie st" and "last (smaps st') = last (smaps st)"
  shows "same_reads D st st'"
proof -
  have h: "healthy D (s_trie st')" using assms(3,4) by simp
  have cur: "cur D st' = cur D st" by (simp add: cur_def fun_eq_iff assms(4,5) split: option.split)
  have "account_of D st' a = account_of D st a" "code_of D st' a = code_of D st a" for a
    using assms(4,5) by (simp_all add: account_at_top)
  moreover have "raw_of D st' a k = raw_of D st a k" for a k
    by (simp add: raw_of_def barrier_of_def cur assms(5))
  ultimately show ?thesis
    by (simp add: same_reads_def State_GetBalance_def State_GetMaster_def State_GetCodeHash_def State_Exists_def State_GetEnergy_def
        read_account_of [OF assms(1,3)] read_account_of [OF assms(2) h] State_GetCode_of [OF assms(1,3)] State_GetCode_of [OF assms(2) h]
        State_GetStorage_raw [OF assms(1,3,2) h])
qed

lemma vet_sound_top:
  assumes "vet_sound K D T st"
  shows "0 \<le> Balance (account_of D st a)" and "total_tokens D st \<le> T"
proof -
  have "sound_level K T D (s_trie st) (last (smaps st))"
    by (rule list_all_last [of "sound_level K T D (s_trie st)"]) (use assms in \<open>simp_all add: vet_sound_def state_ok_def\<close>)
  then show "0 \<le> Balance (account_of D st a)" and "total_tokens D st \<le> T"
    by (simp_all add: sound_level_def sound_def total_tokens_def account_at_top)
qed

section \<open>A runtime for the witnesses\<close>

definition demo_rt :: "unit Runtime" where
  "demo_rt =
     \<lparr>rt_lib = demo_lib, rt_db = demo_db,
      rt_deps = \<lparr>GetBlockID = (\<lambda>n. 0), setMasterEvent_ID = 1, setMasterEvent_Encode = (\<lambda>a. []), energyTransferEvent_ID = 2,
        energyTransferEvent_Encode = (\<lambda>e. []), Energy_Address = 9, native_hook = None,
        params_GasTable = GasTable_at (chainConfig demo_env)\<rparr>,
      rt_ctx = \<lparr>bc_Beneficiary = 2, bc_Signer = 3, bc_Number = 1, bc_Time = 10, bc_GasLimit = 1000000, bc_TotalScore = 1\<rparr>,
      rt_chainConfig = currentChainConfig \<lparr>GetBlockID = (\<lambda>n. 0), setMasterEvent_ID = 1, setMasterEvent_Encode = (\<lambda>a. []),
        energyTransferEvent_ID = 2, energyTransferEvent_Encode = (\<lambda>e. []), Energy_Address = 9, native_hook = None,
        params_GasTable = GasTable_at (chainConfig demo_env)\<rparr>
        \<lparr>fc_VIP191 = 0, fc_ETH_CONST = 0, fc_BLOCKLIST = 0, fc_ETH_IST = 0, fc_VIP214 = 0, fc_FINALITY = 0\<rparr> (Some 7),
      rt_Tracer = None, rt_NoRecursion = False, rt_EnablePreimageRecording = False,
      rt_Homestead = Map.empty, rt_Byzantium = Map.empty, rt_Istanbul = Map.empty\<rparr>"

definition demo_tc :: TransactionContext where
  "demo_tc = \<lparr>tc_ID = 5, tc_Origin = 1, tc_GasPayer = 1, tc_GasPrice = 1, tc_ProvedWork = 0, tc_BlockRef = [], tc_Expiration = 100\<rparr>"

lemma demo_rt_fields [simp]:
  "rt_lib demo_rt = demo_lib" "rt_db demo_rt = demo_db" "bc_Number (rt_ctx demo_rt) = 1"
  "native_hook (rt_deps demo_rt) = None" "rt_Homestead demo_rt = Map.empty" "rt_Byzantium demo_rt = Map.empty" "rt_Istanbul demo_rt = Map.empty"
  by (simp_all add: demo_rt_def)

lemma demo_rt_ok: "runtime_ok demo_rt"
proof -
  have e: "safe_math_ok demo_lib" "costs_ok demo_lib (GasTable_at (chainConfig demo_env) n)" for n
    by (simp_all add: safe_math_ok_def demo_lib_def costs_ok_def demo_env_def)
  have "GasTable_at (rt_chainConfig demo_rt) = GasTable_at (chainConfig demo_env)" "ChainID (rt_chainConfig demo_rt) \<noteq> None"
    by (simp_all add: demo_rt_def currentChainConfig_def)
  with e show ?thesis
    by (auto simp: runtime_ok_def native_ok_def demo_lib_def [THEN arg_cong [where f = Keccak256]] demo_lib_def [THEN arg_cong [where f = Add]]
        demo_db_def dest: of_nat_length_inj)
qed

lemma demo_homestead: "IsHomestead (rt_chainConfig demo_rt) (uint (bc_Number (rt_ctx demo_rt)))"
  by (simp add: demo_rt_def currentChainConfig_def isForked_def)

text \<open>A state with 100 tokens on one account.\<close>

lemma demo_funded:
  obtains st where "State_SetBalance demo_db 1 100 (NewState demo_root) = Some (st, None)"
    and "vet_sound (K_of demo_rt) demo_db 100 st"
proof -
  let ?st = "NewState demo_root"
  define x where "x = (account_of demo_db ?st 1)\<lparr>Balance := 100\<rparr>"
  define m where "m = [AccountKey 1 \<mapsto> AccountVal x]"
  obtain st where st: "State_SetBalance demo_db 1 100 ?st = Some (st, None)" and w: "written (AccountKey 1) (AccountVal x) ?st st"
    by (rule write_account_of [OF NewState_ok [of demo_root] demo_db_ok(1), of 1 "\<lambda>a. a\<lparr>Balance := 100\<rparr>"])
      (simp add: State_SetBalance_def x_def)
  have maps: "smaps st = [m]" "s_trie st = demo_root"
    using w by (simp_all add: written_def put_top_def NewState_def NewStackedMap_ok m_def)
  have load: "getter demo_db root (AccountKey a) = Some (Inr (AccountVal emptyAccount))"
    "getter demo_db root (CodeKey a) = Some (Inr (CodeVal []))" for root a
    by (simp_all add: getter_def loadAccount_def demo_db_def object_code_def emptyAccount_def)
  have x: "Balance x = 100" "acc_CodeHash x = []"
    by (simp_all add: x_def account_at_top account_at_def view_def NewState_def NewStackedMap_ok load emptyAccount_def)
  have "account_at demo_db demo_root m b = (if b = 1 then x else emptyAccount)" for b
    by (simp add: account_at_def view_def load m_def)
  with x have a: "Balance (account_at demo_db demo_root m b) = (if b = 1 then 100 else 0)"
    "acc_CodeHash (account_at demo_db demo_root m b) = []" "code_at demo_db demo_root m b = []" for b
    by (simp_all add: emptyAccount_def code_at_def view_def load m_def)
  have "sound_level (K_of demo_rt) 100 demo_db demo_root m"
    by (simp add: sound_level_def a sound_def)
  with st w maps demo_db_ok(1) that show thesis by (simp add: vet_sound_def written_ok)
qed

lemma demo_gas: "unat (50 :: u64) < 51" "(50 :: u64) \<noteq> -1"
  by simp_all

text \<open>A transfer of more tokens than there are fails.\<close>

lemma demo_clause_fails:
  assumes "vet_sound (K_of demo_rt) demo_db 100 st" and "unat gas < fuel" and "gas \<noteq> -1" and "tc_Origin tc = 1"
  shows "\<exists>out st' cache' t'. exec_clause fuel demo_rt Map.empty \<lparr>cl_To = Some 2, cl_Value = 300, cl_Data = []\<rparr> i gas tc st () =
    Some (out, st', cache', t') \<and> out_VMErr out = Some ErrInsufficientBalance"
proof -
  let ?c = "\<lparr>cl_To = Some 2, cl_Value = 300, cl_Data = []\<rparr>"
  have c: "clause_ready demo_rt 100 Map.empty ?c st" using assms(1) by (simp add: clause_ready_def cache_fits_def)
  obtain out e t' data caddr where r: "exec_clause fuel demo_rt Map.empty ?c i gas tc st () = Some (out, sd_state (statedb e), bitmaps e, t')"
    "clause_machine fuel demo_rt Map.empty ?c i gas tc st () = Some (e, t', data, caddr, out_LeftOverGas out, out_VMErr out)"
    by (rule exec_clause_ok [OF demo_rt_ok c assms(2,3), of i tc "()"]) blast
  note s = NewStateDB_vet [OF assms(1)]
  have "balances demo_db (NewStateDB st) a \<le> 100" for a
  proof -
    have "sound (K_of demo_rt) 100 (balances demo_db (NewStateDB st)) (codes demo_db (NewStateDB st))" by (rule vet_okD(2) [OF s(1)])
    then have "(\<Sum>a\<in>UNIV. balances demo_db (NewStateDB st) a) \<le> 100" "\<forall>a. 0 \<le> balances demo_db (NewStateDB st) a"
      by (simp_all add: sound_def)
    moreover from this(2) have "balances demo_db (NewStateDB st) a \<le> (\<Sum>a\<in>UNIV. balances demo_db (NewStateDB st) a)"
      by (intro member_le_sum) simp_all
    ultimately show ?thesis by simp
  qed
  from this [of 1] have "\<not> CanTransfer (ctx (newEVM demo_rt i tc)) (NewStateDB st) 1 300"
    using can_transfer [of demo_rt "NewStateDB st"] vet_okD(1) [OF s(1)] by simp
  then have "out_VMErr out = Some ErrInsufficientBalance"
    using r(2) assms(4) by (simp add: clause_machine_def Call_def with_hooks_def traced_def call_def NewEVM_def Let_def)
      (simp add: newEVM_def demo_rt_def demo_lib_def)
  with r(1) show ?thesis by blast
qed

section \<open>Main theorems\<close>







end
