(* ===== verification/Builtins.thy ===== *)
theory Builtins
  imports States
begin

text \<open>
  The native parts of three built-in contracts: energy (src/builtin/energy), parameters
  (src/builtin/params) and prototype (src/builtin/prototype).

  They keep their data in the storage of the contract, RLP-encoded; the codecs are the record \<open>codecs\<close>,
  and \<open>codecs_ok\<close> is what is needed of them.  An operation returns the new state with a value or an
  error, as \<open>'a op\<close>.  The lemmas give the effect of the energy operations and of credits on the whole
  state.
\<close>

section \<open>Results and codecs\<close>

text \<open>
  An operation that changes the state returns the new state and a value or an error; the state is
  returned with an error, too.  \<open>None\<close> is a panic.
\<close>

type_synonym 'a op = "(State \<times> (db_error + 'a)) option"

definition effect :: "(State \<times> db_error option) option \<Rightarrow> unit op" where
  "effect r = map_option (\<lambda>(st, err). (st, case err of None \<Rightarrow> Inr () | Some e \<Rightarrow> Inl e)) r"

definition query :: "'a res \<Rightarrow> State \<Rightarrow> ('a \<Rightarrow> 'b op) \<Rightarrow> 'b op" where
  "query r st f = (case r of None \<Rightarrow> None | Some (Inl e) \<Rightarrow> Some (st, Inl e) | Some (Inr x) \<Rightarrow> f x)"

definition andthen :: "'a op \<Rightarrow> ('a \<Rightarrow> State \<Rightarrow> 'b op) \<Rightarrow> 'b op" where
  "andthen r f = (case r of None \<Rightarrow> None | Some (st, Inl e) \<Rightarrow> Some (st, Inl e) | Some (st, Inr x) \<Rightarrow> f x st)"

lemma op_simps [simp]:
  "effect (Some (st, None)) = Some (st, Inr ())" "effect (Some (st, Some e)) = Some (st, Inl e)"
  "query (Some (Inr x)) st f = f x" "query (Some (Inl e)) st f = Some (st, Inl e)"
  "andthen (Some (st, Inr x)) g = g x st" "andthen (Some (st, Inl e)) g = Some (st, Inl e)"
  by (simp_all add: effect_def query_def andthen_def)

record totalAddSub =
  TotalAdd :: int
  TotalSub :: int

record initialSupply =
  is_Token :: int
  is_Energy :: int
  is_BlockTime :: u64

record creditPlan =
  cp_Credit :: int
  cp_RecoveryRate :: int

record userObject =
  UsedCredit :: int
  uo_BlockTime :: u64

text \<open>The RLP codecs of the stored values.\<close>

record codecs =
  enc_int :: "int \<Rightarrow> db_error + bytes"
  dec_int :: "bytes \<Rightarrow> db_error + int"
  enc_bool :: "bool \<Rightarrow> db_error + bytes"
  dec_bool :: "bytes \<Rightarrow> db_error + bool"
  enc_totals :: "totalAddSub \<Rightarrow> db_error + bytes"
  dec_totals :: "bytes \<Rightarrow> db_error + totalAddSub"
  enc_supply :: "initialSupply \<Rightarrow> db_error + bytes"
  dec_supply :: "bytes \<Rightarrow> db_error + initialSupply"
  enc_plan :: "creditPlan \<Rightarrow> db_error + bytes"
  dec_plan :: "bytes \<Rightarrow> db_error + creditPlan"
  enc_user :: "userObject \<Rightarrow> db_error + bytes"
  dec_user :: "bytes \<Rightarrow> db_error + userObject"

definition str :: "string \<Rightarrow> bytes" where
  "str s = map of_char s"

definition stored :: "'a \<Rightarrow> (bytes \<Rightarrow> db_error + 'a) \<Rightarrow> bytes \<Rightarrow> db_error + 'a" where
  "stored dflt dec raw = (if raw = [] then Inr dflt else dec raw)"

section \<open>Energy\<close>

record EnergyNative =
  e_addr :: address
  e_blockTime :: u64

definition initialSupplyKey :: "state_deps \<Rightarrow> hash" where
  "initialSupplyKey D = Blake2b D (str ''initial-supply'')"

definition totalAddSubKey :: "state_deps \<Rightarrow> hash" where
  "totalAddSubKey D = Blake2b D (str ''total-add-sub'')"

definition getInitialSupply :: "codecs \<Rightarrow> state_deps \<Rightarrow> EnergyNative \<Rightarrow> State \<Rightarrow> initialSupply res" where
  "getInitialSupply R D e st =
     State_DecodeStorage D (e_addr e) (initialSupplyKey D)
       (stored \<lparr>is_Token = 0, is_Energy = 0, is_BlockTime = 0\<rparr> (dec_supply R)) st"

definition getTotalAddSub :: "codecs \<Rightarrow> state_deps \<Rightarrow> EnergyNative \<Rightarrow> State \<Rightarrow> totalAddSub res" where
  "getTotalAddSub R D e st =
     State_DecodeStorage D (e_addr e) (totalAddSubKey D) (stored \<lparr>TotalAdd = 0, TotalSub = 0\<rparr> (dec_totals R)) st"

definition setTotalAddSub :: "codecs \<Rightarrow> state_deps \<Rightarrow> EnergyNative \<Rightarrow> totalAddSub \<Rightarrow> State \<Rightarrow> unit op" where
  "setTotalAddSub R D e tot st =
     effect (State_EncodeStorage D (e_addr e) (totalAddSubKey D) (enc_totals R tot) st)"

definition SetInitialSupply :: "codecs \<Rightarrow> state_deps \<Rightarrow> EnergyNative \<Rightarrow> int \<Rightarrow> int \<Rightarrow> State \<Rightarrow> unit op" where
  "SetInitialSupply R D e token energy st =
     effect (State_EncodeStorage D (e_addr e) (initialSupplyKey D)
       (enc_supply R \<lparr>is_Token = token, is_Energy = energy, is_BlockTime = e_blockTime e\<rparr>) st)"

definition map_res :: "('a \<Rightarrow> 'b) \<Rightarrow> 'a res \<Rightarrow> 'b res" where
  "map_res f r = map_option (map_sum id f) r"

definition TokenTotalSupply :: "codecs \<Rightarrow> state_deps \<Rightarrow> EnergyNative \<Rightarrow> State \<Rightarrow> int res" where
  "TokenTotalSupply R D e st = map_res is_Token (getInitialSupply R D e st)"

definition TotalSupply :: "codecs \<Rightarrow> state_deps \<Rightarrow> EnergyNative \<Rightarrow> State \<Rightarrow> int res" where
  "TotalSupply R D e st =
     map_res (\<lambda>i. CalcEnergy \<lparr>Balance = is_Token i, Energy = is_Energy i, BlockTime = is_BlockTime i, Master = [],
       acc_CodeHash = [], StorageRoot = []\<rparr> (e_blockTime e)) (getInitialSupply R D e st)"

definition TotalBurned :: "codecs \<Rightarrow> state_deps \<Rightarrow> EnergyNative \<Rightarrow> State \<Rightarrow> int res" where
  "TotalBurned R D e st = map_res (\<lambda>t. TotalSub t - TotalAdd t) (getTotalAddSub R D e st)"

definition Energy_Get :: "state_deps \<Rightarrow> EnergyNative \<Rightarrow> address \<Rightarrow> State \<Rightarrow> int res" where
  "Energy_Get D e addr st = State_GetEnergy D addr (e_blockTime e) st"

definition Energy_Add :: "codecs \<Rightarrow> state_deps \<Rightarrow> EnergyNative \<Rightarrow> address \<Rightarrow> int \<Rightarrow> State \<Rightarrow> unit op" where
  "Energy_Add R D e addr amount st =
     (if amount = 0 then Some (st, Inr ())
      else
        query (State_GetEnergy D addr (e_blockTime e) st) st (\<lambda>eng.
        query (getTotalAddSub R D e st) st (\<lambda>tot.
        andthen (setTotalAddSub R D e (tot\<lparr>TotalAdd := TotalAdd tot + amount\<rparr>) st) (\<lambda>_ st.
        effect (State_SetEnergy D addr (eng + amount) (e_blockTime e) st)))))"

definition Energy_Sub :: "codecs \<Rightarrow> state_deps \<Rightarrow> EnergyNative \<Rightarrow> address \<Rightarrow> int \<Rightarrow> State \<Rightarrow> bool op" where
  "Energy_Sub R D e addr amount st =
     (if amount = 0 then Some (st, Inr True)
      else
        query (State_GetEnergy D addr (e_blockTime e) st) st (\<lambda>eng.
        if eng < amount then Some (st, Inr False)
        else
          query (getTotalAddSub R D e st) st (\<lambda>tot.
          andthen (setTotalAddSub R D e (tot\<lparr>TotalSub := TotalSub tot + amount\<rparr>) st) (\<lambda>_ st.
          andthen (effect (State_SetEnergy D addr (eng - amount) (e_blockTime e) st)) (\<lambda>_ st.
          Some (st, Inr True))))))"

section \<open>Governance parameters\<close>

definition Params_Get :: "codecs \<Rightarrow> state_deps \<Rightarrow> address \<Rightarrow> hash \<Rightarrow> State \<Rightarrow> int res" where
  "Params_Get R D addr key st = State_DecodeStorage D addr key (stored 0 (dec_int R)) st"

definition Params_Set :: "codecs \<Rightarrow> state_deps \<Rightarrow> address \<Rightarrow> hash \<Rightarrow> int \<Rightarrow> State \<Rightarrow> unit op" where
  "Params_Set R D addr key val st =
     effect (State_EncodeStorage D addr key (if val = 0 then Inr [] else enc_int R val) st)"

section \<open>Users and sponsors of a contract\<close>

record Binding =
  b_addr :: address
  b_self :: address

definition userKey :: "state_deps \<Rightarrow> Binding \<Rightarrow> address \<Rightarrow> hash" where
  "userKey D b user = Blake2b D (Address_bytes (b_self b) @ Address_bytes user @ str ''user'')"

definition creditPlanKey :: "state_deps \<Rightarrow> Binding \<Rightarrow> hash" where
  "creditPlanKey D b = Blake2b D (Address_bytes (b_self b) @ str ''credit-plan'')"

definition sponsorKey :: "state_deps \<Rightarrow> Binding \<Rightarrow> address \<Rightarrow> hash" where
  "sponsorKey D b sponsor = Blake2b D (Address_bytes (b_self b) @ Address_bytes sponsor @ str ''sponsor'')"

definition curSponsorKey :: "state_deps \<Rightarrow> Binding \<Rightarrow> hash" where
  "curSponsorKey D b = Blake2b D (Address_bytes (b_self b) @ str ''cur-sponsor'')"

definition plan_IsEmpty :: "creditPlan \<Rightarrow> bool" where
  "plan_IsEmpty u \<longleftrightarrow> cp_Credit u = 0 \<and> cp_RecoveryRate u = 0"

definition user_IsEmpty :: "userObject \<Rightarrow> bool" where
  "user_IsEmpty u \<longleftrightarrow> UsedCredit u = 0 \<and> uo_BlockTime u = 0"

definition Credit :: "creditPlan \<Rightarrow> u64 \<Rightarrow> userObject \<Rightarrow> int" where
  "Credit plan blockTime u =
     (if UsedCredit u = 0 then cp_Credit plan
      else
        let used = (if blockTime \<le> uo_BlockTime u then UsedCredit u
                    else UsedCredit u - uint (blockTime - uo_BlockTime u) * cp_RecoveryRate plan)
        in if used \<le> 0 then cp_Credit plan
           else if used \<ge> cp_Credit plan then 0
           else cp_Credit plan - used)"

definition getUserObject :: "codecs \<Rightarrow> state_deps \<Rightarrow> Binding \<Rightarrow> address \<Rightarrow> State \<Rightarrow> userObject res" where
  "getUserObject R D b user st =
     State_DecodeStorage D (b_addr b) (userKey D b user) (stored \<lparr>UsedCredit = 0, uo_BlockTime = 0\<rparr> (dec_user R)) st"

definition setUserObject :: "codecs \<Rightarrow> state_deps \<Rightarrow> Binding \<Rightarrow> address \<Rightarrow> userObject \<Rightarrow> State \<Rightarrow> unit op" where
  "setUserObject R D b user uo st =
     effect (State_EncodeStorage D (b_addr b) (userKey D b user) (if user_IsEmpty uo then Inr [] else enc_user R uo) st)"

definition getCreditPlan :: "codecs \<Rightarrow> state_deps \<Rightarrow> Binding \<Rightarrow> State \<Rightarrow> creditPlan res" where
  "getCreditPlan R D b st =
     State_DecodeStorage D (b_addr b) (creditPlanKey D b) (stored \<lparr>cp_Credit = 0, cp_RecoveryRate = 0\<rparr> (dec_plan R)) st"

definition setCreditPlan :: "codecs \<Rightarrow> state_deps \<Rightarrow> Binding \<Rightarrow> creditPlan \<Rightarrow> State \<Rightarrow> unit op" where
  "setCreditPlan R D b cp st =
     effect (State_EncodeStorage D (b_addr b) (creditPlanKey D b) (if plan_IsEmpty cp then Inr [] else enc_plan R cp) st)"

definition IsUser :: "codecs \<Rightarrow> state_deps \<Rightarrow> Binding \<Rightarrow> address \<Rightarrow> State \<Rightarrow> bool res" where
  "IsUser R D b user st = map_res (\<lambda>uo. \<not> user_IsEmpty uo) (getUserObject R D b user st)"

definition AddUser :: "codecs \<Rightarrow> state_deps \<Rightarrow> Binding \<Rightarrow> address \<Rightarrow> u64 \<Rightarrow> State \<Rightarrow> unit op" where
  "AddUser R D b user blockTime st = setUserObject R D b user \<lparr>UsedCredit = 0, uo_BlockTime = blockTime\<rparr> st"

definition RemoveUser :: "codecs \<Rightarrow> state_deps \<Rightarrow> Binding \<Rightarrow> address \<Rightarrow> State \<Rightarrow> unit op" where
  "RemoveUser R D b user st = setUserObject R D b user \<lparr>UsedCredit = 0, uo_BlockTime = 0\<rparr> st"

definition UserCredit :: "codecs \<Rightarrow> state_deps \<Rightarrow> Binding \<Rightarrow> address \<Rightarrow> u64 \<Rightarrow> State \<Rightarrow> int res" where
  "UserCredit R D b user blockTime st =
     (case getUserObject R D b user st of
        None \<Rightarrow> None
      | Some (Inl e) \<Rightarrow> Some (Inl e)
      | Some (Inr uo) \<Rightarrow>
          if user_IsEmpty uo then Some (Inr 0)
          else map_res (\<lambda>cp. Credit cp blockTime uo) (getCreditPlan R D b st))"

definition SetUserCredit :: "codecs \<Rightarrow> state_deps \<Rightarrow> Binding \<Rightarrow> address \<Rightarrow> int \<Rightarrow> u64 \<Rightarrow> State \<Rightarrow> unit op" where
  "SetUserCredit R D b user credit blockTime st =
     query (getCreditPlan R D b st) st (\<lambda>up.
       let used = cp_Credit up - credit
       in setUserObject R D b user \<lparr>UsedCredit = (if used < 0 then 0 else used), uo_BlockTime = blockTime\<rparr> st)"

definition CreditPlan :: "codecs \<Rightarrow> state_deps \<Rightarrow> Binding \<Rightarrow> State \<Rightarrow> (int \<times> int) res" where
  "CreditPlan R D b st = map_res (\<lambda>cp. (cp_Credit cp, cp_RecoveryRate cp)) (getCreditPlan R D b st)"

definition SetCreditPlan :: "codecs \<Rightarrow> state_deps \<Rightarrow> Binding \<Rightarrow> int \<Rightarrow> int \<Rightarrow> State \<Rightarrow> unit op" where
  "SetCreditPlan R D b credit recoveryRate st =
     setCreditPlan R D b \<lparr>cp_Credit = credit, cp_RecoveryRate = recoveryRate\<rparr> st"

definition Sponsor :: "codecs \<Rightarrow> state_deps \<Rightarrow> Binding \<Rightarrow> address \<Rightarrow> bool \<Rightarrow> State \<Rightarrow> unit op" where
  "Sponsor R D b sponsor flag st =
     effect (State_EncodeStorage D (b_addr b) (sponsorKey D b sponsor) (if \<not> flag then Inr [] else enc_bool R flag) st)"

definition IsSponsor :: "codecs \<Rightarrow> state_deps \<Rightarrow> Binding \<Rightarrow> address \<Rightarrow> State \<Rightarrow> bool res" where
  "IsSponsor R D b sponsor st = State_DecodeStorage D (b_addr b) (sponsorKey D b sponsor) (stored False (dec_bool R)) st"

definition SelectSponsor :: "state_deps \<Rightarrow> Binding \<Rightarrow> address \<Rightarrow> State \<Rightarrow> State option" where
  "SelectSponsor D b sponsor st = State_SetStorage D (b_addr b) (curSponsorKey D b) (ucast sponsor) st"

definition CurrentSponsor :: "state_deps \<Rightarrow> Binding \<Rightarrow> State \<Rightarrow> address res" where
  "CurrentSponsor D b st = map_res ucast (State_GetStorage D (b_addr b) (curSponsorKey D b) st)"

section \<open>Effects\<close>

text \<open>
  RLP, as far as the stored values need it: non-negative numbers are encoded to non-empty strings and
  read back, and no string is read as a negative number.
\<close>

definition codecs_ok :: "codecs \<Rightarrow> bool" where
  "codecs_ok R \<longleftrightarrow>
     (\<forall>n. 0 \<le> n \<longrightarrow> (\<exists>bs. enc_int R n = Inr bs \<and> bs \<noteq> [] \<and> dec_int R bs = Inr n)) \<and>
     (\<forall>b. \<exists>bs. enc_bool R b = Inr bs \<and> bs \<noteq> [] \<and> dec_bool R bs = Inr b) \<and>
     (\<forall>x. 0 \<le> TotalAdd x \<longrightarrow> 0 \<le> TotalSub x \<longrightarrow> (\<exists>bs. enc_totals R x = Inr bs \<and> bs \<noteq> [] \<and> dec_totals R bs = Inr x)) \<and>
     (\<forall>x. 0 \<le> is_Token x \<longrightarrow> 0 \<le> is_Energy x \<longrightarrow> (\<exists>bs. enc_supply R x = Inr bs \<and> bs \<noteq> [] \<and> dec_supply R bs = Inr x)) \<and>
     (\<forall>x. 0 \<le> cp_Credit x \<longrightarrow> 0 \<le> cp_RecoveryRate x \<longrightarrow> (\<exists>bs. enc_plan R x = Inr bs \<and> bs \<noteq> [] \<and> dec_plan R bs = Inr x)) \<and>
     (\<forall>x. 0 \<le> UsedCredit x \<longrightarrow> (\<exists>bs. enc_user R x = Inr bs \<and> bs \<noteq> [] \<and> dec_user R bs = Inr x)) \<and>
     (\<forall>bs n. dec_int R bs = Inr n \<longrightarrow> 0 \<le> n) \<and>
     (\<forall>bs x. dec_totals R bs = Inr x \<longrightarrow> 0 \<le> TotalAdd x \<and> 0 \<le> TotalSub x) \<and>
     (\<forall>bs x. dec_plan R bs = Inr x \<longrightarrow> 0 \<le> cp_Credit x \<and> 0 \<le> cp_RecoveryRate x)"

lemma codecs_okD:
  assumes "codecs_ok R"
  shows "0 \<le> TotalAdd x \<Longrightarrow> 0 \<le> TotalSub x \<Longrightarrow> \<exists>bs. enc_totals R x = Inr bs \<and> bs \<noteq> [] \<and> dec_totals R bs = Inr x"
    and "0 \<le> UsedCredit u \<Longrightarrow> \<exists>bs. enc_user R u = Inr bs \<and> bs \<noteq> [] \<and> dec_user R bs = Inr u"
    and "stored 0 (dec_int R) bs = Inr n \<Longrightarrow> 0 \<le> n"
    and "stored \<lparr>TotalAdd = 0, TotalSub = 0\<rparr> (dec_totals R) bs = Inr y \<Longrightarrow> 0 \<le> TotalAdd y \<and> 0 \<le> TotalSub y"
    and "stored \<lparr>cp_Credit = 0, cp_RecoveryRate = 0\<rparr> (dec_plan R) bs = Inr p \<Longrightarrow> 0 \<le> cp_Credit p \<and> 0 \<le> cp_RecoveryRate p"
  using assms by (auto simp: codecs_ok_def stored_def split: if_splits)

lemma decode_of:
  assumes "state_ok st" and "healthy D (s_trie st)"
  shows "State_DecodeStorage D a k dec st = Some (map_sum StateError id (dec (raw_of D st a k)))"
  by (simp add: State_DecodeStorage_def State_GetRawStorage_of [OF assms])

lemma reads_nonneg:
  assumes "state_ok st" and "healthy D (s_trie st)" and "codecs_ok R"
  shows "getTotalAddSub R D e st = Some (Inr tot) \<Longrightarrow> 0 \<le> TotalAdd tot \<and> 0 \<le> TotalSub tot"
    and "Params_Get R D a k st = Some (Inr n) \<Longrightarrow> 0 \<le> n"
    and "getCreditPlan R D b st = Some (Inr p) \<Longrightarrow> 0 \<le> cp_Credit p \<and> 0 \<le> cp_RecoveryRate p"
  using codecs_okD(3-5) [OF assms(3)]
  by (auto simp: getTotalAddSub_def Params_Get_def getCreditPlan_def decode_of [OF assms(1,2)] map_sum_Inr)

lemma encode_of:
  assumes "state_ok st"
  obtains st' where "effect (State_EncodeStorage D a k (Inr raw) st) = Some (st', Inr ())"
    and "written (StorageKey a (barrier_of st a) k) (RawVal raw) st st'"
  by (rule State_SetRawStorage_of [OF assms, of D a k raw]) (simp add: State_EncodeStorage_def that)

lemma set_energy_of:
  assumes "state_ok st" and "healthy D (s_trie st)"
  obtains st' where "effect (State_SetEnergy D a v t st) = Some (st', Inr ())"
    and "written (AccountKey a) (AccountVal ((account_of D st a)\<lparr>Energy := v, BlockTime := t\<rparr>)) st st'"
  by (rule write_account_of [OF assms, of a "\<lambda>x. x\<lparr>Energy := v, BlockTime := t\<rparr>"]) (simp add: State_SetEnergy_def that)

lemma get_energy_of:
  "state_ok st \<Longrightarrow> healthy D (s_trie st) \<Longrightarrow> State_GetEnergy D a t st = Some (Inr (CalcEnergy (account_of D st a) t))"
  by (simp add: State_GetEnergy_def read_account_of)

lemma CalcEnergy_now [simp]: "CalcEnergy (x\<lparr>Energy := v, BlockTime := t\<rparr>) t = v"
  by (simp add: CalcEnergy_def)

text \<open>Both changes of an energy balance: the totals are written, then the account.\<close>

definition energy_written :: "state_deps \<Rightarrow> codecs \<Rightarrow> EnergyNative \<Rightarrow> totalAddSub \<Rightarrow> address \<Rightarrow> int \<Rightarrow> State \<Rightarrow> State \<Rightarrow> bool" where
  "energy_written D R e tot a v st st' \<longleftrightarrow>
     state_ok st' \<and> s_trie st' = s_trie st \<and> length (smaps st') = length (smaps st) \<and> butlast (smaps st') = butlast (smaps st) \<and>
     account_of D st' = (account_of D st)(a := (account_of D st a)\<lparr>Energy := v, BlockTime := e_blockTime e\<rparr>) \<and>
     code_of D st' = code_of D st \<and> getTotalAddSub R D e st' = Some (Inr tot) \<and>
     (\<forall>x k. x \<noteq> e_addr e \<longrightarrow> raw_of D st' x k = raw_of D st x k)"

lemma energy_write:
  assumes "state_ok st" and "healthy D (s_trie st)" and "codecs_ok R" and "0 \<le> TotalAdd tot" and "0 \<le> TotalSub tot"
  obtains st1 st' where "setTotalAddSub R D e tot st = Some (st1, Inr ())"
    and "effect (State_SetEnergy D a v (e_blockTime e) st1) = Some (st', Inr ())"
    and "energy_written D R e tot a v st st'"
proof -
  obtain bs where bs: "enc_totals R tot = Inr bs" "bs \<noteq> []" "dec_totals R bs = Inr tot"
    using codecs_okD(1) [OF assms(3-5)] by blast
  obtain st1 where st1: "effect (State_EncodeStorage D (e_addr e) (totalAddSubKey D) (Inr bs) st) = Some (st1, Inr ())"
    and w1: "written (StorageKey (e_addr e) (barrier_of st (e_addr e)) (totalAddSubKey D)) (RawVal bs) st st1"
    by (rule encode_of [OF assms(1)])
  have h1: "healthy D (s_trie st1)" using assms(2) written_ok(2) [OF w1] by simp
  obtain st' where st': "effect (State_SetEnergy D a v (e_blockTime e) st1) = Some (st', Inr ())"
    and w2: "written (AccountKey a) (AccountVal ((account_of D st1 a)\<lparr>Energy := v, BlockTime := e_blockTime e\<rparr>)) st1 st'"
    by (rule set_energy_of [OF written_ok(1) [OF w1] h1])
  have h2: "healthy D (s_trie st')" using h1 written_ok(2) [OF w2] by simp
  note v1 = values_written [OF w1, of D] and v2 = values_written [OF w2, of D]
  have "raw_of D st' (e_addr e) (totalAddSubKey D) = bs" using v1(3) v2(3) barrier_written [OF w1] by simp
  then have "getTotalAddSub R D e st' = Some (Inr tot)"
    using bs by (simp add: getTotalAddSub_def decode_of [OF written_ok(1) [OF w2] h2] stored_def)
  moreover have "account_of D st' = (account_of D st)(a := (account_of D st a)\<lparr>Energy := v, BlockTime := e_blockTime e\<rparr>)"
    "code_of D st' = code_of D st"
    using v1(1,2) v2(1,2) by (simp_all add: fun_eq_iff)
  moreover have "raw_of D st' x k = raw_of D st x k" if "x \<noteq> e_addr e" for x k
    using v1(3) v2(3) that by simp
  moreover have "length (smaps st') = length (smaps st)" "butlast (smaps st') = butlast (smaps st)"
    using w1 w2 assms(1) by (simp_all add: written_def state_ok_def)
  ultimately have "energy_written D R e tot a v st st'"
    using written_ok [OF w1] written_ok [OF w2] by (simp add: energy_written_def)
  with st1 st' bs(1) that show thesis by (simp add: setTotalAddSub_def)
qed

lemma Energy_Sub_of:
  assumes "state_ok st" and "healthy D (s_trie st)" and "codecs_ok R" and "getTotalAddSub R D e st = Some (Inr tot)"
    and "0 \<le> TotalAdd tot" and "0 \<le> TotalSub tot" and "0 < amount" and "amount \<le> CalcEnergy (account_of D st a) (e_blockTime e)"
  obtains st' where "Energy_Sub R D e a amount st = Some (st', Inr True)"
    and "energy_written D R e (tot\<lparr>TotalSub := TotalSub tot + amount\<rparr>) a (CalcEnergy (account_of D st a) (e_blockTime e) - amount) st st'"
  by (rule energy_write [OF assms(1-3), of "tot\<lparr>TotalSub := TotalSub tot + amount\<rparr>" e a "CalcEnergy (account_of D st a) (e_blockTime e) - amount"])
    (use assms(4-8) that in \<open>simp_all add: Energy_Sub_def get_energy_of [OF assms(1,2)]\<close>)

lemma Energy_Add_of:
  assumes "state_ok st" and "healthy D (s_trie st)" and "codecs_ok R" and "getTotalAddSub R D e st = Some (Inr tot)"
    and "0 \<le> TotalAdd tot" and "0 \<le> TotalSub tot" and "0 < amount"
  obtains st' where "Energy_Add R D e a amount st = Some (st', Inr ())"
    and "energy_written D R e (tot\<lparr>TotalAdd := TotalAdd tot + amount\<rparr>) a (CalcEnergy (account_of D st a) (e_blockTime e) + amount) st st'"
  by (rule energy_write [OF assms(1-3), of "tot\<lparr>TotalAdd := TotalAdd tot + amount\<rparr>" e a "CalcEnergy (account_of D st a) (e_blockTime e) + amount"])
    (use assms(4-7) that in \<open>simp_all add: Energy_Add_def get_energy_of [OF assms(1,2)]\<close>)

section \<open>Properties\<close>

text \<open>
  C11: paying energy.  \<open>Sub\<close> of a positive amount fails without any change when the account has less; otherwise
  exactly the amount is taken from the account and recorded as burned, and the energy of every other
  account stays the same.  Adding the amount again in the same block restores the energy and the
  amount burned.
\<close>
theorem energy_sub_add:
  assumes "state_ok st" and "healthy D (s_trie st)" and "codecs_ok R" and "getTotalAddSub R D e st = Some (Inr tot)"
    and "0 < amount" and "Energy_Get D e a st = Some (Inr eng)"
  shows "if eng < amount then Energy_Sub R D e a amount st = Some (st, Inr False)
    else \<exists>st1 st2. Energy_Sub R D e a amount st = Some (st1, Inr True) \<and> Energy_Get D e a st1 = Some (Inr (eng - amount)) \<and>
      TotalBurned R D e st1 = Some (Inr (TotalSub tot - TotalAdd tot + amount)) \<and>
      Energy_Add R D e a amount st1 = Some (st2, Inr ()) \<and> Energy_Get D e a st2 = Some (Inr eng) \<and>
      TotalBurned R D e st2 = TotalBurned R D e st \<and>
      (\<forall>b t. b = a \<or> State_GetEnergy D b t st1 = State_GetEnergy D b t st)"
proof (cases "eng < amount")
  case True
  with assms(5,6) show ?thesis by (simp add: Energy_Sub_def Energy_Get_def)
next
  case False
  have nn: "0 \<le> TotalAdd tot" "0 \<le> TotalSub tot" using reads_nonneg(1) [OF assms(1-4)] by simp_all
  have eng: "eng = CalcEnergy (account_of D st a) (e_blockTime e)" using assms(6) by (simp add: Energy_Get_def get_energy_of [OF assms(1,2)])
  obtain st1 where st1: "Energy_Sub R D e a amount st = Some (st1, Inr True)"
    and w1: "energy_written D R e (tot\<lparr>TotalSub := TotalSub tot + amount\<rparr>) a (eng - amount) st st1"
    by (rule Energy_Sub_of [OF assms(1-4) nn assms(5), of a]) (use False eng in simp_all)
  have ok1: "state_ok st1" "healthy D (s_trie st1)" "getTotalAddSub R D e st1 = Some (Inr (tot\<lparr>TotalSub := TotalSub tot + amount\<rparr>))"
    "account_of D st1 = (account_of D st)(a := (account_of D st a)\<lparr>Energy := eng - amount, BlockTime := e_blockTime e\<rparr>)"
    using w1 assms(2) by (simp_all add: energy_written_def)
  obtain st2 where st2: "Energy_Add R D e a amount st1 = Some (st2, Inr ())"
    and w2: "energy_written D R e (tot\<lparr>TotalSub := TotalSub tot + amount, TotalAdd := TotalAdd tot + amount\<rparr>) a eng st1 st2"
    by (rule Energy_Add_of [OF ok1(1,2) assms(3) ok1(3), of amount a]) (use nn assms(5) ok1(4) in simp_all)
  have ok2: "state_ok st2" "healthy D (s_trie st2)"
    "getTotalAddSub R D e st2 = Some (Inr (tot\<lparr>TotalSub := TotalSub tot + amount, TotalAdd := TotalAdd tot + amount\<rparr>))"
    "account_of D st2 a = (account_of D st1 a)\<lparr>Energy := eng, BlockTime := e_blockTime e\<rparr>"
    using w2 ok1(2) by (simp_all add: energy_written_def)
  show ?thesis
    using False st1 st2 assms(4) ok1 ok2
    by (auto simp: Energy_Get_def get_energy_of assms(1,2) TotalBurned_def map_res_def)
qed

section \<open>Credit of a user\<close>

definition still_used :: "creditPlan \<Rightarrow> u64 \<Rightarrow> userObject \<Rightarrow> int" where
  "still_used p t u =
     (if t \<le> uo_BlockTime u then UsedCredit u else UsedCredit u - (uint t - uint (uo_BlockTime u)) * cp_RecoveryRate p)"

lemma Credit_clamp:
  "0 \<le> cp_Credit p \<Longrightarrow>
   Credit p t u = (if UsedCredit u = 0 then cp_Credit p else max 0 (min (cp_Credit p) (cp_Credit p - still_used p t u)))"
proof -
  have "uint (t - uo_BlockTime u) = uint t - uint (uo_BlockTime u)" if "\<not> t \<le> uo_BlockTime u"
    using that by (simp add: uint_sub_if' word_le_def)
  then show "0 \<le> cp_Credit p \<Longrightarrow> ?thesis" by (auto simp: Credit_def still_used_def Let_def)
qed

lemma still_used_mono:
  assumes "0 \<le> cp_RecoveryRate p" and "t \<le> t'"
  shows "still_used p t' u \<le> still_used p t u"
proof -
  have "uint t \<le> uint t'" using assms(2) by (simp add: word_le_def)
  with assms(1) have "(uint t - uint (uo_BlockTime u)) * cp_RecoveryRate p \<le> (uint t' - uint (uo_BlockTime u)) * cp_RecoveryRate p"
    by (simp add: mult_right_mono)
  moreover have "0 \<le> (uint t' - uint (uo_BlockTime u)) * cp_RecoveryRate p" if "\<not> t' \<le> uo_BlockTime u"
    using that assms(1) by (simp add: word_le_def)
  ultimately show ?thesis using assms(2) by (auto simp: still_used_def)
qed

lemma Credit_now:
  "0 \<le> cp_Credit p \<Longrightarrow>
   Credit p t \<lparr>UsedCredit = (if cp_Credit p - c < 0 then 0 else cp_Credit p - c), uo_BlockTime = t\<rparr> = max 0 (min c (cp_Credit p))"
  by (auto simp: Credit_def Let_def)

lemma set_user_of:
  assumes "state_ok st" and "healthy D (s_trie st)" and "codecs_ok R" and "0 \<le> UsedCredit u"
  obtains st' where "setUserObject R D b user u st = Some (st', Inr ())"
    and "state_ok st'" and "s_trie st' = s_trie st" and "getUserObject R D b user st' = Some (Inr u)"
    and "\<And>key. key \<noteq> userKey D b user \<Longrightarrow> raw_of D st' (b_addr b) key = raw_of D st (b_addr b) key"
    and "account_of D st' = account_of D st" and "code_of D st' = code_of D st" and "length (smaps st') = length (smaps st)" and "butlast (smaps st') = butlast (smaps st)"
proof -
  obtain bs where bs: "(if user_IsEmpty u then Inr [] else enc_user R u) = Inr bs"
    "stored \<lparr>UsedCredit = 0, uo_BlockTime = 0\<rparr> (dec_user R) bs = Inr u"
  proof (cases "user_IsEmpty u")
    case True
    with that [of "[]"] show thesis by (cases u) (simp add: user_IsEmpty_def stored_def)
  next
    case False
    with codecs_okD(2) [OF assms(3,4)] that show thesis by (force simp: stored_def)
  qed
  obtain st' where st': "effect (State_EncodeStorage D (b_addr b) (userKey D b user) (Inr bs) st) = Some (st', Inr ())"
    and w: "written (StorageKey (b_addr b) (barrier_of st (b_addr b)) (userKey D b user)) (RawVal bs) st st'"
    by (rule encode_of [OF assms(1)])
  have "healthy D (s_trie st')" using assms(2) written_ok(2) [OF w] by simp
  note v = values_written [OF w, of D]
  show thesis
  proof (rule that [of st'])
    show "setUserObject R D b user u st = Some (st', Inr ())" using st' bs(1) by (simp add: setUserObject_def)
    show "getUserObject R D b user st' = Some (Inr u)"
      using v(3) barrier_written [OF w] bs(2)
      by (simp add: getUserObject_def decode_of [OF written_ok(1) [OF w] \<open>healthy D (s_trie st')\<close>])
    show "raw_of D st' (b_addr b) key = raw_of D st (b_addr b) key" if "key \<noteq> userKey D b user" for key
      using v(3) barrier_written [OF w] that by simp
    show "account_of D st' = account_of D st" "code_of D st' = code_of D st" using v(1,2) by (simp_all add: fun_eq_iff)
    show "length (smaps st') = length (smaps st)" "butlast (smaps st') = butlast (smaps st)"
      using w assms(1) by (simp_all add: written_def state_ok_def)
  qed (use written_ok [OF w] in simp_all)
qed

text \<open>
  C13: a used credit recovers.  The credit of a user is between zero and the credit of the plan, never
  falls as time passes, and is the full credit of the plan as soon as the recovery since the last use
  covers what was used.
\<close>
theorem user_credit_recovers:
  assumes "0 \<le> cp_Credit plan" and "0 \<le> cp_RecoveryRate plan" and "t \<le> t'"
  shows "0 \<le> Credit plan t u \<and> Credit plan t u \<le> Credit plan t' u \<and> Credit plan t' u \<le> cp_Credit plan \<and>
    (uo_BlockTime u < t' \<and> UsedCredit u \<le> (uint t' - uint (uo_BlockTime u)) * cp_RecoveryRate plan \<longrightarrow> Credit plan t' u = cp_Credit plan)"
proof -
  note le = still_used_mono [OF assms(2,3), of u]
  have "still_used plan t' u \<le> 0"
    if "uo_BlockTime u < t'" "UsedCredit u \<le> (uint t' - uint (uo_BlockTime u)) * cp_RecoveryRate plan"
    using that by (simp add: still_used_def not_le [symmetric])
  with le assms(1) show ?thesis by (auto simp: Credit_clamp)
qed

text \<open>
  C12: the credit of a user is what it was set to.  After \<open>SetUserCredit\<close> the credit read in the same block is
  the new value, cut to the range from zero to the credit of the plan; the entries of other users, the
  accounts and the codes are as before.
\<close>
theorem user_credit_round_trip:
  assumes "state_ok st" and "healthy D (s_trie st)" and "codecs_ok R" and "getCreditPlan R D b st = Some (Inr plan)"
    and "t \<noteq> 0" and "creditPlanKey D b \<noteq> userKey D b user"
  shows "\<exists>st'. SetUserCredit R D b user c t st = Some (st', Inr ()) \<and> state_ok st' \<and>
    UserCredit R D b user t st' = Some (Inr (max 0 (min c (cp_Credit plan)))) \<and>
    getCreditPlan R D b st' = Some (Inr plan) \<and>
    (\<forall>v. userKey D b v = userKey D b user \<or> UserCredit R D b v t st' = UserCredit R D b v t st) \<and>
    (\<forall>a. State_GetBalance D a st' = State_GetBalance D a st \<and> State_GetEnergy D a t st' = State_GetEnergy D a t st \<and>
      State_GetCode D a st' = State_GetCode D a st)"
proof -
  let ?u = "\<lparr>UsedCredit = (if cp_Credit plan - c < 0 then 0 else cp_Credit plan - c), uo_BlockTime = t\<rparr>"
  have "0 \<le> UsedCredit ?u" by simp
  obtain st' where w: "setUserObject R D b user ?u st = Some (st', Inr ())" "state_ok st'" "s_trie st' = s_trie st"
      "getUserObject R D b user st' = Some (Inr ?u)"
      "account_of D st' = account_of D st" "code_of D st' = code_of D st"
    and same: "\<And>key. key \<noteq> userKey D b user \<Longrightarrow> raw_of D st' (b_addr b) key = raw_of D st (b_addr b) key"
    by (rule set_user_of [OF assms(1-3) \<open>0 \<le> UsedCredit ?u\<close>]) blast
  have h: "healthy D (s_trie st')" using assms(2) w(3) by simp
  note dec = decode_of [OF assms(1,2)] decode_of [OF w(2) h]
  have plan: "getCreditPlan R D b st' = getCreditPlan R D b st"
    using same [OF assms(6)] by (simp add: getCreditPlan_def dec)
  have users: "getUserObject R D b v st' = getUserObject R D b v st" if "userKey D b v \<noteq> userKey D b user" for v
    using same [OF that] by (simp add: getUserObject_def dec)
  have "UserCredit R D b user t st' = Some (Inr (max 0 (min c (cp_Credit plan))))"
    using w(4) plan assms(4,5) Credit_now [of plan t c] reads_nonneg(3) [OF assms(1-4)] by (simp add: UserCredit_def user_IsEmpty_def map_res_def)
  moreover have "UserCredit R D b v t st' = UserCredit R D b v t st" if "userKey D b v \<noteq> userKey D b user" for v
    unfolding UserCredit_def users [OF that] plan ..
  moreover have "State_GetBalance D a st' = State_GetBalance D a st" "State_GetEnergy D a t st' = State_GetEnergy D a t st"
    "State_GetCode D a st' = State_GetCode D a st" for a
    using w(5,6) by (simp_all add: State_GetBalance_def State_GetEnergy_def read_account_of assms(1,2) w(2) h State_GetCode_of)
  moreover have "SetUserCredit R D b user c t st = Some (st', Inr ())"
    using w(1) assms(4) by (simp add: SetUserCredit_def Let_def)
  ultimately show ?thesis using w(2) plan assms(4) by metis
qed

section \<open>Concrete instances\<close>

text \<open>A codec for the witnesses: every number is a run of zero bytes, ended by a one.\<close>

definition enc_nats :: "nat list \<Rightarrow> bytes" where
  "enc_nats ns = concat (map (\<lambda>n. replicate n 0 @ [1]) ns)"

fun dec_nats :: "nat \<Rightarrow> bytes \<Rightarrow> nat list" where
  "dec_nats acc [] = []"
| "dec_nats acc (b # bs) = (if b = 0 then dec_nats (Suc acc) bs else acc # dec_nats 0 bs)"

lemma dec_enc_nats: "dec_nats 0 (enc_nats ns) = ns"
proof (induction ns)
  case (Cons n ns)
  have "dec_nats acc (replicate n 0 @ 1 # bs) = (acc + n) # dec_nats 0 bs" for acc and bs :: bytes
    by (induction n arbitrary: acc) simp_all
  with Cons show ?case by (simp add: enc_nats_def)
qed (simp add: enc_nats_def)

lemma enc_nats_nonempty: "ns \<noteq> [] \<Longrightarrow> enc_nats ns \<noteq> []"
  by (cases ns) (simp_all add: enc_nats_def)

definition dec_at :: "nat \<Rightarrow> bytes \<Rightarrow> int" where
  "dec_at i bs = int (dec_nats 0 bs ! i)"

definition demo_codecs :: codecs where
  "demo_codecs =
     \<lparr>enc_int = (\<lambda>n. Inr (enc_nats [nat n])), dec_int = (\<lambda>bs. Inr (dec_at 0 bs)),
      enc_bool = (\<lambda>b. Inr (enc_nats [if b then 1 else 0])), dec_bool = (\<lambda>bs. Inr (dec_at 0 bs = 1)),
      enc_totals = (\<lambda>x. Inr (enc_nats [nat (TotalAdd x), nat (TotalSub x)])),
      dec_totals = (\<lambda>bs. Inr \<lparr>TotalAdd = dec_at 0 bs, TotalSub = dec_at 1 bs\<rparr>),
      enc_supply = (\<lambda>x. Inr (enc_nats [nat (is_Token x), nat (is_Energy x), unat (is_BlockTime x)])),
      dec_supply = (\<lambda>bs. Inr \<lparr>is_Token = dec_at 0 bs, is_Energy = dec_at 1 bs, is_BlockTime = of_int (dec_at 2 bs)\<rparr>),
      enc_plan = (\<lambda>x. Inr (enc_nats [nat (cp_Credit x), nat (cp_RecoveryRate x)])),
      dec_plan = (\<lambda>bs. Inr \<lparr>cp_Credit = dec_at 0 bs, cp_RecoveryRate = dec_at 1 bs\<rparr>),
      enc_user = (\<lambda>x. Inr (enc_nats [nat (UsedCredit x), unat (uo_BlockTime x)])),
      dec_user = (\<lambda>bs. Inr \<lparr>UsedCredit = dec_at 0 bs, uo_BlockTime = of_int (dec_at 1 bs)\<rparr>)\<rparr>"

lemma demo_codecs_ok: "codecs_ok demo_codecs"
  by (auto simp: codecs_ok_def demo_codecs_def dec_at_def dec_enc_nats enc_nats_nonempty numeral_2_eq_2)

lemma user_credit_recovers_witness:
  "Credit \<lparr>cp_Credit = 100, cp_RecoveryRate = 2\<rparr> 20 \<lparr>UsedCredit = 30, uo_BlockTime = 5\<rparr> = 100 \<and>
   Credit \<lparr>cp_Credit = 100, cp_RecoveryRate = 2\<rparr> 10 \<lparr>UsedCredit = 30, uo_BlockTime = 5\<rparr> \<le> 100"
  using user_credit_recovers [of "\<lparr>cp_Credit = 100, cp_RecoveryRate = 2\<rparr>" 10 20 "\<lparr>UsedCredit = 30, uo_BlockTime = 5\<rparr>"] by simp

lemma fresh_state:
  shows "state_ok (NewState demo_root)" and "healthy demo_db (s_trie (NewState demo_root))"
    and "account_of demo_db (NewState demo_root) a = emptyAccount" and "raw_of demo_db (NewState demo_root) a k = []"
  using NewState_ok [of demo_root] demo_db_ok(1)
  subgoal by simp
  subgoal by (simp add: demo_db_ok(1))
  subgoal by (simp add: account_of_def cur_def NewState_def NewStackedMap_ok getter_def loadAccount_def demo_db_def emptyAccount_def)
  subgoal
    by (simp add: raw_of_def cur_def NewState_def NewStackedMap_ok getter_def loadAccount_def demo_db_def emptyAccount_def
        object_storage_def loadStorage_def)
  done

lemma energy_sub_add_witness:
  "\<exists>st st1 st2. effect (State_SetEnergy demo_db 1 100 0 (NewState demo_root)) = Some (st, Inr ()) \<and>
     Energy_Sub demo_codecs demo_db \<lparr>e_addr = 7, e_blockTime = 0\<rparr> 1 30 st = Some (st1, Inr True) \<and>
     Energy_Get demo_db \<lparr>e_addr = 7, e_blockTime = 0\<rparr> 1 st1 = Some (Inr 70) \<and>
     Energy_Add demo_codecs demo_db \<lparr>e_addr = 7, e_blockTime = 0\<rparr> 1 30 st1 = Some (st2, Inr ()) \<and>
     Energy_Get demo_db \<lparr>e_addr = 7, e_blockTime = 0\<rparr> 1 st2 = Some (Inr 100)"
proof (rule set_energy_of [OF fresh_state(1,2), of 1 100 0])
  fix st
  assume st: "effect (State_SetEnergy demo_db 1 100 0 (NewState demo_root)) = Some (st, Inr ())"
    and w: "written (AccountKey 1) (AccountVal ((account_of demo_db (NewState demo_root) 1)\<lparr>Energy := 100, BlockTime := 0\<rparr>)) (NewState demo_root) st"
  let ?e = "\<lparr>e_addr = 7, e_blockTime = 0 :: u64\<rparr>"
  have ok: "state_ok st" "healthy demo_db (s_trie st)" using written_ok [OF w] demo_db_ok(1) by simp_all
  have "getTotalAddSub demo_codecs demo_db ?e st = Some (Inr \<lparr>TotalAdd = 0, TotalSub = 0\<rparr>)"
    using values_written(3) [OF w, of demo_db] fresh_state(4) by (simp add: getTotalAddSub_def decode_of [OF ok] stored_def)
  moreover have "Energy_Get demo_db ?e 1 st = Some (Inr 100)"
    using values_written(1) [OF w, of demo_db] by (simp add: Energy_Get_def get_energy_of [OF ok])
  ultimately show ?thesis
    using energy_sub_add [OF ok demo_codecs_ok, of ?e "\<lparr>TotalAdd = 0, TotalSub = 0\<rparr>" 30 1 100] st by auto
qed

lemma be_word_low: "unat (be_word (zs @ [z]) :: hash) mod 256 = unat z"
proof -
  have "be_nat (zs @ [z]) mod 2 ^ 256 mod 256 = unat z mod 256"
    by (subst mod_mod_cancel) (simp_all add: be_nat_snoc)
  moreover have "unat z mod 256 = unat z" using unat_byte_less [of z] by simp
  ultimately show ?thesis by (simp add: be_word_def unat_of_nat)
qed

lemma be_word_last: "(be_word (xs @ [x]) :: hash) = be_word (ys @ [y]) \<Longrightarrow> x = y"
  using be_word_low [of xs x] be_word_low [of ys y] by (simp add: word_unat_eq_iff)

lemma user_credit_round_trip_witness:
  "\<exists>st'. SetUserCredit demo_codecs demo_db \<lparr>b_addr = 7, b_self = 8\<rparr> 9 (- 5) 10 (NewState demo_root) = Some (st', Inr ()) \<and>
     UserCredit demo_codecs demo_db \<lparr>b_addr = 7, b_self = 8\<rparr> 9 10 st' = Some (Inr 0)"
proof -
  let ?b = "\<lparr>b_addr = 7, b_self = 8 :: address\<rparr>"
  have "getCreditPlan demo_codecs demo_db ?b (NewState demo_root) = Some (Inr \<lparr>cp_Credit = 0, cp_RecoveryRate = 0\<rparr>)"
    by (simp add: getCreditPlan_def decode_of [OF fresh_state(1,2)] fresh_state(4) stored_def)
  moreover have "creditPlanKey demo_db ?b \<noteq> userKey demo_db ?b 9"
  proof
    assume "creditPlanKey demo_db ?b = userKey demo_db ?b 9"
    then have "(be_word ((Address_bytes 8 @ str ''credit-pla'') @ [0x6E]) :: hash) = be_word ((Address_bytes 8 @ Address_bytes 9 @ str ''use'') @ [0x72])"
      by (simp add: creditPlanKey_def userKey_def demo_db_def str_def)
    from be_word_last [OF this] show False by simp
  qed
  ultimately show ?thesis
    using user_credit_round_trip [OF fresh_state(1,2) demo_codecs_ok, of ?b "\<lparr>cp_Credit = 0, cp_RecoveryRate = 0\<rparr>" 10 9 "-5"] by auto
qed

end
