(* ===== verification/Transactions.thy ===== *)
theory Transactions
  imports Clauses Builtins
begin

text \<open>
  Transactions (src/tx) and their execution (src/runtime/resolved_tx.go, src/runtime/runtime.go).

  The first part models a transaction with its block reference, signatures, work, prices and
  intrinsic gas; the second the resolved transaction, which buys gas from the delegator, a sponsor,
  the common recipient or the origin, and the executor with its clauses and its receipt.  The
  functions that the code returns are functions here, too; the variables that they share are the record
  \<open>TransactionExecutor\<close>.  The caches of a transaction are left out.
\<close>

unbundle bit_operations_syntax

section \<open>Transactions\<close>

record Transaction =
  tx_ChainTag :: byte
  tx_BlockRef :: u64
  tx_Expiration :: u32
  tx_Clauses :: "Clause list"
  tx_GasPriceCoef :: byte
  tx_Gas :: u64
  tx_DependsOn :: "hash option"
  tx_Nonce :: u64
  tx_Features :: u32
  tx_Signature :: bytes

text \<open>
  What transactions use of other packages: the address recovered from a signature, two RLP encodings,
  the gas constants of go-ethereum, the blocks of the chain, and the addresses of two built-in
  contracts.
\<close>

record tx_deps =
  SigToAddress :: "hash \<Rightarrow> bytes \<Rightarrow> db_error + address"
  rlp_Unsigned :: "Transaction \<Rightarrow> bytes"
  rlp_WithoutNonce :: "Transaction \<Rightarrow> address \<Rightarrow> bytes"
  params_TxGas :: u64
  params_TxGasContractCreation :: u64
  params_TxDataZeroGas :: u64
  params_TxDataNonZeroGas :: u64
  chain_GetBlockID :: "u32 \<Rightarrow> db_error + hash"
  Params_Address :: address
  Prototype_Address :: address

abbreviation (input) TxGas :: u64 where
  "TxGas \<equiv> 5000"

definition ClauseGas :: "tx_deps \<Rightarrow> u64" where
  "ClauseGas X = params_TxGas X - TxGas"

definition ClauseGasContractCreation :: "tx_deps \<Rightarrow> u64" where
  "ClauseGasContractCreation X = params_TxGasContractCreation X - TxGas"

abbreviation (input) BlockInterval :: u64 where
  "BlockInterval \<equiv> 10"

abbreviation (input) MaxTxWorkDelay :: u32 where
  "MaxTxWorkDelay \<equiv> 30"

definition KeyRewardRatio :: hash where
  "KeyRewardRatio = be_word (str ''reward-ratio'')"

definition KeyBaseGasPrice :: hash where
  "KeyBaseGasPrice = be_word (str ''base-gas-price'')"

definition MaxBig256 :: int where
  "MaxBig256 = 2 ^ 256 - 1"

section \<open>Block references\<close>

definition Number :: "bytes \<Rightarrow> u32" where
  "Number br = be_word (take 4 br)"

definition NewBlockRef :: "u32 \<Rightarrow> bytes" where
  "NewBlockRef blockNum = nat_be 4 (unat blockNum) @ replicate 4 0"

definition NewBlockRefFromID :: "hash \<Rightarrow> bytes" where
  "NewBlockRefFromID blockID = take 8 (Bytes32_of blockID)"

definition BlockRef :: "Transaction \<Rightarrow> bytes" where
  "BlockRef t = nat_be 8 (unat (tx_BlockRef t))"

definition IsExpired :: "Transaction \<Rightarrow> u32 \<Rightarrow> bool" where
  "IsExpired t blockNum \<longleftrightarrow> (ucast (Number (BlockRef t)) :: u64) + ucast (tx_Expiration t) < ucast blockNum"

section \<open>Signatures\<close>

definition IsDelegated :: "u32 \<Rightarrow> bool" where
  "IsDelegated f \<longleftrightarrow> f AND 1 = 1"

definition SetDelegated :: "bool \<Rightarrow> u32 \<Rightarrow> u32" where
  "SetDelegated flag f = (if flag then f OR 1 else f AND NOT 1)"

definition validateSignatureLength :: "Transaction \<Rightarrow> db_error option" where
  "validateSignatureLength t =
     (let expectedSigLen = (if IsDelegated (tx_Features t) then 65 * 2 else 65)
      in if length (tx_Signature t) \<noteq> expectedSigLen then Some (DbError ''invalid signature length'') else None)"

definition SigningHash :: "tx_deps \<Rightarrow> state_deps \<Rightarrow> Transaction \<Rightarrow> hash" where
  "SigningHash X D t = Blake2b D (rlp_Unsigned X t)"

definition Origin_of :: "tx_deps \<Rightarrow> state_deps \<Rightarrow> Transaction \<Rightarrow> db_error + address" where
  "Origin_of X D t =
     (case validateSignatureLength t of
        Some e \<Rightarrow> Inl e
      | None \<Rightarrow> SigToAddress X (SigningHash X D t) (take 65 (tx_Signature t)))"

definition DelegatorSigningHash :: "tx_deps \<Rightarrow> state_deps \<Rightarrow> Transaction \<Rightarrow> address \<Rightarrow> hash" where
  "DelegatorSigningHash X D t origin = Blake2b D (Bytes32_of (SigningHash X D t) @ Address_bytes origin)"

definition Delegator :: "tx_deps \<Rightarrow> state_deps \<Rightarrow> Transaction \<Rightarrow> db_error + address option" where
  "Delegator X D t =
     (case validateSignatureLength t of
        Some e \<Rightarrow> Inl e
      | None \<Rightarrow>
          if \<not> IsDelegated (tx_Features t) then Inr None
          else
            case Origin_of X D t of
              Inl e \<Rightarrow> Inl e
            | Inr origin \<Rightarrow> map_sum id Some (SigToAddress X (DelegatorSigningHash X D t origin) (drop 65 (tx_Signature t))))"

definition ID :: "tx_deps \<Rightarrow> state_deps \<Rightarrow> Transaction \<Rightarrow> hash" where
  "ID X D t =
     (case Origin_of X D t of
        Inl e \<Rightarrow> 0
      | Inr origin \<Rightarrow> Blake2b D (Bytes32_of (SigningHash X D t) @ Address_bytes origin))"

section \<open>Work and prices\<close>

text \<open>A division by zero is a panic.\<close>

definition EvaluateWork :: "tx_deps \<Rightarrow> state_deps \<Rightarrow> Transaction \<Rightarrow> address \<Rightarrow> u64 \<Rightarrow> int option" where
  "EvaluateWork X D t origin nonce =
     (let hashWithoutNonce = Blake2b D (rlp_WithoutNonce X t origin);
          r = uint (Blake2b D (Bytes32_of hashWithoutNonce @ nat_be 8 (unat nonce)))
      in if r = 0 then None else Some (MaxBig256 div r))"

definition UnprovedWork :: "tx_deps \<Rightarrow> state_deps \<Rightarrow> Transaction \<Rightarrow> int option" where
  "UnprovedWork X D t =
     (case Origin_of X D t of
        Inl e \<Rightarrow> Some 0
      | Inr origin \<Rightarrow> EvaluateWork X D t origin (tx_Nonce t))"

definition ProvedWork :: "tx_deps \<Rightarrow> state_deps \<Rightarrow> Transaction \<Rightarrow> u32 \<Rightarrow> int res" where
  "ProvedWork X D t headBlockNum =
     (let ref = BlockRef t; refNum = Number ref
      in if headBlockNum \<le> refNum then Some (Inr 0)
         else if MaxTxWorkDelay < headBlockNum - refNum then Some (Inr 0)
         else
           case chain_GetBlockID X refNum of
             Inl e \<Rightarrow> Some (Inl e)
           | Inr id' \<Rightarrow>
               if take (length ref) (Bytes32_of id') = ref then map_option Inr (UnprovedWork X D t)
               else Some (Inr 0))"

definition workToGas :: "int \<Rightarrow> u32 \<Rightarrow> u64" where
  "workToGas work blockNum =
     (let gas = work div 1000
      in if gas = 0 then 0
         else
           let months = unat ((ucast blockNum * BlockInterval :: u64) div 3600 div 24 div 30);
               gas = (if months \<noteq> 0 then gas * 100 ^ months div 104 ^ months else gas)
           in if 2 ^ 64 \<le> \<bar>gas\<bar> then - 1 else of_int \<bar>gas\<bar>)"

definition GasPrice_of :: "Transaction \<Rightarrow> int \<Rightarrow> int" where
  "GasPrice_of t baseGasPrice = uint (tx_GasPriceCoef t) * baseGasPrice div 255 + baseGasPrice"

definition OverallGasPrice :: "Transaction \<Rightarrow> int \<Rightarrow> int \<Rightarrow> int option" where
  "OverallGasPrice t baseGasPrice provedWork =
     (let gasPrice = GasPrice_of t baseGasPrice
      in if provedWork = 0 then Some gasPrice
         else
           let wgas = workToGas provedWork (Number (BlockRef t))
           in if wgas = 0 then Some gasPrice
              else
                let wgas = (if tx_Gas t < wgas then tx_Gas t else wgas)
                in if tx_Gas t = 0 then None
                   else Some (uint wgas * baseGasPrice div uint (tx_Gas t) + gasPrice))"

section \<open>Intrinsic gas\<close>

definition errIntrinsicGasOverflow :: db_error where
  "errIntrinsicGasOverflow = DbError ''intrinsic gas overflow''"

definition dataGas :: "deps \<Rightarrow> tx_deps \<Rightarrow> bytes \<Rightarrow> db_error + u64" where
  "dataGas d X data =
     (if data = [] then Inr 0
      else
        let (z, nz) = fold (\<lambda>byt (z, nz). if byt = 0 then (z + 1, nz) else (z, nz + 1)) data (0, 0);
            (zgas, overflow) = SafeMul d (params_TxDataZeroGas X) z
        in if overflow then Inl errIntrinsicGasOverflow
           else
             let (nzgas, overflow) = SafeMul d (params_TxDataNonZeroGas X) nz
             in if overflow then Inl errIntrinsicGasOverflow
                else
                  let (gas, overflow) = SafeAdd d zgas nzgas
                  in if overflow then Inl errIntrinsicGasOverflow else Inr gas)"

definition IsCreatingContract :: "Clause \<Rightarrow> bool" where
  "IsCreatingContract c \<longleftrightarrow> cl_To c = None"

fun intrinsic_loop :: "deps \<Rightarrow> tx_deps \<Rightarrow> Clause list \<Rightarrow> u64 \<Rightarrow> db_error + u64" where
  "intrinsic_loop d X [] tot = Inr tot"
| "intrinsic_loop d X (c # cs) tot =
     (case dataGas d X (cl_Data c) of
        Inl e \<Rightarrow> Inl e
      | Inr gas \<Rightarrow>
          let (tot, overflow) = SafeAdd d tot gas
          in if overflow then Inl errIntrinsicGasOverflow
             else
               let cgas = (if IsCreatingContract c then ClauseGasContractCreation X else ClauseGas X);
                   (tot, overflow) = SafeAdd d tot cgas
               in if overflow then Inl errIntrinsicGasOverflow else intrinsic_loop d X cs tot)"

definition IntrinsicGas :: "deps \<Rightarrow> tx_deps \<Rightarrow> Clause list \<Rightarrow> db_error + u64" where
  "IntrinsicGas d X clauses =
     (if clauses = [] then Inr (TxGas + ClauseGas X) else intrinsic_loop d X clauses TxGas)"

section \<open>Resolved transactions\<close>

record 't TxEnv =
  te_rt :: "'t Runtime"
  te_codecs :: codecs
  te_lib :: tx_deps
  te_CaptureClauseStart :: "u64 \<Rightarrow> 't \<Rightarrow> 't"
  te_CaptureClauseEnd :: "u64 \<Rightarrow> 't \<Rightarrow> 't"

abbreviation te_db :: "'t TxEnv \<Rightarrow> state_deps" where
  "te_db E \<equiv> rt_db (te_rt E)"

record ResolvedTransaction =
  rx_tx :: Transaction
  rx_Origin :: address
  rx_Delegator :: "address option"
  rx_IntrinsicGas :: u64
  rx_Clauses :: "Clause list"

fun check_values :: "Clause list \<Rightarrow> int \<Rightarrow> db_error option" where
  "check_values [] sumValue = None"
| "check_values (clause # clauses) sumValue =
     (if cl_Value clause < 0 then Some (DbError ''clause with negative value'')
      else if MaxBig256 < sumValue + cl_Value clause then Some (DbError ''tx value too large'')
      else check_values clauses (sumValue + cl_Value clause))"

definition ResolveTransaction :: "'t TxEnv \<Rightarrow> Transaction \<Rightarrow> db_error + ResolvedTransaction" where
  "ResolveTransaction E tx =
     (case Origin_of (te_lib E) (te_db E) tx of
        Inl e \<Rightarrow> Inl e
      | Inr origin \<Rightarrow>
          case IntrinsicGas (rt_lib (te_rt E)) (te_lib E) (tx_Clauses tx) of
            Inl e \<Rightarrow> Inl e
          | Inr intrinsicGas \<Rightarrow>
              if tx_Gas tx < intrinsicGas then Inl (DbError ''intrinsic gas exceeds provided gas'')
              else
                case Delegator (te_lib E) (te_db E) tx of
                  Inl e \<Rightarrow> Inl e
                | Inr delegator \<Rightarrow>
                    case check_values (tx_Clauses tx) 0 of
                      Some e \<Rightarrow> Inl e
                    | None \<Rightarrow> Inr \<lparr>rx_tx = tx, rx_Origin = origin, rx_Delegator = delegator,
                        rx_IntrinsicGas = intrinsicGas, rx_Clauses = tx_Clauses tx\<rparr>)"

definition CommonTo :: "ResolvedTransaction \<Rightarrow> address option" where
  "CommonTo r =
     (case rx_Clauses r of
        [] \<Rightarrow> None
      | c # cs \<Rightarrow>
          case cl_To c of
            None \<Rightarrow> None
          | Some firstTo \<Rightarrow> if list_all (\<lambda>clause. cl_To clause = Some firstTo) cs then Some firstTo else None)"

section \<open>Buying gas\<close>

text \<open>
  The results are the two prices, the payer, the prepaid energy and the function that returns unused
  gas.
\<close>

type_synonym purchase = "int \<times> int \<times> address \<times> int \<times> (u64 \<Rightarrow> State \<Rightarrow> unit op)"

definition native_energy :: "'t TxEnv \<Rightarrow> u64 \<Rightarrow> EnergyNative" where
  "native_energy E blockTime = \<lparr>e_addr = Energy_Address (rt_deps (te_rt E)), e_blockTime = blockTime\<rparr>"

definition doReturnGas :: "'t TxEnv \<Rightarrow> u64 \<Rightarrow> int \<Rightarrow> address \<Rightarrow> u64 \<Rightarrow> State \<Rightarrow> int op" where
  "doReturnGas E blockTime gasPrice payer rgas st =
     (let returnedEnergy = uint rgas * gasPrice
      in andthen (Energy_Add (te_codecs E) (te_db E) (native_energy E blockTime) payer returnedEnergy st) (\<lambda>_ st.
           Some (st, Inr returnedEnergy)))"

definition returnGas :: "'t TxEnv \<Rightarrow> u64 \<Rightarrow> int \<Rightarrow> address \<Rightarrow> u64 \<Rightarrow> State \<Rightarrow> unit op" where
  "returnGas E blockTime gasPrice payer rgas st =
     andthen (doReturnGas E blockTime gasPrice payer rgas st) (\<lambda>_ st. Some (st, Inr ()))"

definition doReturnGasAndSetCredit ::
    "'t TxEnv \<Rightarrow> u64 \<Rightarrow> int \<Rightarrow> Binding \<Rightarrow> address \<Rightarrow> int \<Rightarrow> int \<Rightarrow> address \<Rightarrow> u64 \<Rightarrow> State \<Rightarrow> unit op" where
  "doReturnGasAndSetCredit E blockTime gasPrice binding origin credit prepaid payer rgas st =
     andthen (doReturnGas E blockTime gasPrice payer rgas st) (\<lambda>returnedEnergy st.
       let usedEnergy = prepaid - returnedEnergy
       in SetUserCredit (te_codecs E) (te_db E) binding origin (credit - usedEnergy) blockTime st)"

definition deduct :: "'t TxEnv \<Rightarrow> u64 \<Rightarrow> address \<Rightarrow> int \<Rightarrow> 'a \<Rightarrow> (State \<Rightarrow> 'a op) \<Rightarrow> State \<Rightarrow> 'a op" where
  "deduct E blockTime who prepaid bought otherwise st =
     andthen (Energy_Sub (te_codecs E) (te_db E) (native_energy E blockTime) who prepaid st) (\<lambda>sufficient st.
       if sufficient then Some (st, Inr bought) else otherwise st)"

definition BuyGas :: "'t TxEnv \<Rightarrow> ResolvedTransaction \<Rightarrow> u64 \<Rightarrow> State \<Rightarrow> purchase op" where
  "BuyGas E r blockTime st =
     query (Params_Get (te_codecs E) (te_db E) (Params_Address (te_lib E)) KeyBaseGasPrice st) st (\<lambda>baseGasPrice.
       let gasPrice = GasPrice_of (rx_tx r) baseGasPrice;
           prepaid = uint (tx_Gas (rx_tx r)) * gasPrice;
           insufficient = (\<lambda>st. Some (st, Inl (DbError ''insufficient energy'')));
           bought = (\<lambda>payer return. (baseGasPrice, gasPrice, payer, prepaid, return));
           from_origin = deduct E blockTime (rx_Origin r) prepaid
             (bought (rx_Origin r) (returnGas E blockTime gasPrice (rx_Origin r))) insufficient
       in case rx_Delegator r of
            Some delegator \<Rightarrow>
              deduct E blockTime delegator prepaid (bought delegator (returnGas E blockTime gasPrice delegator)) insufficient st
          | None \<Rightarrow>
              case CommonTo r of
                None \<Rightarrow> from_origin st
              | Some commonTo \<Rightarrow>
                  let binding = \<lparr>b_addr = Prototype_Address (te_lib E), b_self = commonTo\<rparr>
                  in query (UserCredit (te_codecs E) (te_db E) binding (rx_Origin r) blockTime st) st (\<lambda>credit.
                       if prepaid \<le> credit then
                         let return = doReturnGasAndSetCredit E blockTime gasPrice binding (rx_Origin r) credit prepaid;
                             from_to = deduct E blockTime commonTo prepaid (bought commonTo (return commonTo)) from_origin
                         in query (CurrentSponsor (te_db E) binding st) st (\<lambda>sponsor.
                            query (IsSponsor (te_codecs E) (te_db E) binding sponsor st) st (\<lambda>isSponsor.
                              if isSponsor then deduct E blockTime sponsor prepaid (bought sponsor (return sponsor)) from_to st
                              else from_to st))
                       else from_origin st))"

definition ToContext :: "'t TxEnv \<Rightarrow> ResolvedTransaction \<Rightarrow> int \<Rightarrow> address \<Rightarrow> u32 \<Rightarrow> TransactionContext res" where
  "ToContext E r gasPrice gasPayer blockNum =
     map_res (\<lambda>provedWork.
       \<lparr>tc_ID = ID (te_lib E) (te_db E) (rx_tx r), tc_Origin = rx_Origin r, tc_GasPayer = gasPayer, tc_GasPrice = gasPrice,
        tc_ProvedWork = provedWork, tc_BlockRef = BlockRef (rx_tx r), tc_Expiration = tx_Expiration (rx_tx r)\<rparr>)
       (ProvedWork (te_lib E) (te_db E) (rx_tx r) blockNum)"

section \<open>Executing a transaction\<close>

text \<open>The variables that the functions of a \<open>TransactionExecutor\<close> share.\<close>

record TransactionExecutor =
  ex_resolvedTx :: ResolvedTransaction
  ex_purchase :: purchase
  ex_txCtx :: TransactionContext
  ex_checkpoint :: nat
  ex_leftOverGas :: u64
  ex_txOutputs :: "(event list \<times> transfer_log list) list"
  ex_reverted :: bool
  ex_finalized :: bool

record Receipt =
  rc_GasUsed :: u64
  rc_GasPayer :: address
  rc_Paid :: int
  rc_Reward :: int
  rc_Reverted :: bool
  rc_Outputs :: "(event list \<times> transfer_log list) list"

definition PrepareTransaction :: "'t TxEnv \<Rightarrow> Transaction \<Rightarrow> State \<Rightarrow> TransactionExecutor op" where
  "PrepareTransaction E tx st =
     (case ResolveTransaction E tx of
        Inl e \<Rightarrow> Some (st, Inl e)
      | Inr resolvedTx \<Rightarrow>
          andthen (BuyGas E resolvedTx (bc_Time (rt_ctx (te_rt E))) st) (\<lambda>bought st.
            case bought of (baseGasPrice, gasPrice, payer, prepaid, return) \<Rightarrow>
              query (ToContext E resolvedTx gasPrice payer (bc_Number (rt_ctx (te_rt E)))) st (\<lambda>txCtx.
                let (checkpoint, st) = State_NewCheckpoint st
                in Some (st, Inr \<lparr>ex_resolvedTx = resolvedTx, ex_purchase = bought, ex_txCtx = txCtx, ex_checkpoint = checkpoint,
                     ex_leftOverGas = tx_Gas tx - rx_IntrinsicGas resolvedTx, ex_txOutputs = [], ex_reverted = False,
                     ex_finalized = False\<rparr>))))"

definition HasNextClause :: "TransactionExecutor \<Rightarrow> bool" where
  "HasNextClause ex \<longleftrightarrow> \<not> ex_reverted ex \<and> length (ex_txOutputs ex) < length (rx_Clauses (ex_resolvedTx ex))"

text \<open>
  \<open>PrepareNext\<close> and the function it returns.  \<open>None\<close> is a panic: of the index, of \<open>RevertTo\<close>, or one that the
  clause turns into an error.
\<close>

definition exec_next ::
    "nat \<Rightarrow> 't TxEnv \<Rightarrow> bitmapCache \<Rightarrow> TransactionExecutor \<Rightarrow> State \<Rightarrow> 't \<Rightarrow>
     (u64 \<times> Output \<times> TransactionExecutor \<times> State \<times> bitmapCache \<times> 't) option" where
  "exec_next fuel E cache ex st t =
     (let n = length (ex_txOutputs ex); traced = rt_Tracer (te_rt E) \<noteq> None
      in if length (rx_Clauses (ex_resolvedTx ex)) \<le> n then None
         else do {
           let t = (if traced then te_CaptureClauseStart E (ex_leftOverGas ex) t else t);
           (output, st, cache, t) \<leftarrow>
             exec_clause fuel (te_rt E) cache (rx_Clauses (ex_resolvedTx ex) ! n) (of_nat n) (ex_leftOverGas ex) (ex_txCtx ex) st t;
           let gasUsed = ex_leftOverGas ex - out_LeftOverGas output;
           let refund = min (gasUsed div 2) (out_RefundGas output);
           let leftOverGas = out_LeftOverGas output + refund;
           let t = (if traced then te_CaptureClauseEnd E leftOverGas t else t);
           if out_VMErr output \<noteq> None then do {
             st \<leftarrow> State_RevertTo (ex_checkpoint ex) st;
             Some (gasUsed, output, ex\<lparr>ex_leftOverGas := leftOverGas, ex_reverted := True, ex_txOutputs := []\<rparr>, st, cache, t)
           }
           else
             Some (gasUsed, output,
               ex\<lparr>ex_leftOverGas := leftOverGas, ex_txOutputs := ex_txOutputs ex @ [(out_Events output, out_Transfers output)]\<rparr>,
               st, cache, t)
         })"

definition Finalize :: "'t TxEnv \<Rightarrow> TransactionExecutor \<Rightarrow> State \<Rightarrow> (TransactionExecutor \<times> Receipt op)" where
  "Finalize E ex st =
     (if HasNextClause ex then (ex, Some (st, Inl (DbError ''not all clauses processed'')))
      else if ex_finalized ex then (ex, Some (st, Inl (DbError ''already finalized'')))
      else
        case ex_purchase ex of (baseGasPrice, gasPrice, payer, prepaid, return) \<Rightarrow>
          let tx = rx_tx (ex_resolvedTx ex); gasUsed = tx_Gas tx - ex_leftOverGas ex; paid = uint gasUsed * gasPrice;
              block = rt_ctx (te_rt E)
          in (ex\<lparr>ex_finalized := True\<rparr>,
              andthen (return (ex_leftOverGas ex) st) (\<lambda>_ st.
              query (Params_Get (te_codecs E) (te_db E) (Params_Address (te_lib E)) KeyRewardRatio st) st (\<lambda>rewardRatio.
              query (ProvedWork (te_lib E) (te_db E) tx (bc_Number block - 1)) st (\<lambda>provedWork.
              case OverallGasPrice tx baseGasPrice provedWork of
                None \<Rightarrow> None
              | Some overallGasPrice \<Rightarrow>
                  let reward = uint gasUsed * overallGasPrice * rewardRatio div 1000000000000000000
                  in andthen (Energy_Add (te_codecs E) (te_db E) (native_energy E (bc_Time block)) (bc_Beneficiary block) reward st) (\<lambda>_ st.
                       Some (st, Inr \<lparr>rc_GasUsed = gasUsed, rc_GasPayer = payer, rc_Paid = paid, rc_Reward = reward,
                         rc_Reverted = ex_reverted ex, rc_Outputs = ex_txOutputs ex\<rparr>)))))))"

lemma exec_next_progress:
  assumes "exec_next fuel E cache ex st t = Some (gasUsed, out, ex', st', cache', t')"
  shows "ex_resolvedTx ex' = ex_resolvedTx ex" and "ex_purchase ex' = ex_purchase ex" and "ex_checkpoint ex' = ex_checkpoint ex"
    and "ex_txCtx ex' = ex_txCtx ex" and "ex_finalized ex' = ex_finalized ex"
    and "ex_reverted ex' \<or> length (ex_txOutputs ex') = Suc (length (ex_txOutputs ex)) \<and> ex_reverted ex' = ex_reverted ex"
  using assms by (auto simp: exec_next_def Let_def bind_eq_Some_conv split: if_splits)

text \<open>The loop of \<open>ExecuteTransaction\<close>: every round yields one more output or reverts.\<close>

function exec_clauses ::
    "nat \<Rightarrow> 't TxEnv \<Rightarrow> bitmapCache \<Rightarrow> TransactionExecutor \<Rightarrow> State \<Rightarrow> 't \<Rightarrow>
     (TransactionExecutor \<times> State \<times> bitmapCache \<times> 't) option" where
  "exec_clauses fuel E cache ex st t =
     (if HasNextClause ex then
        case exec_next fuel E cache ex st t of
          None \<Rightarrow> None
        | Some (gasUsed, out, ex', st', cache', t') \<Rightarrow> exec_clauses fuel E cache' ex' st' t'
      else Some (ex, st, cache, t))"
  by pat_completeness auto
termination
proof (relation "measure (\<lambda>(fuel, E, cache, ex, st, t).
    if ex_reverted ex then 0 else length (rx_Clauses (ex_resolvedTx ex)) - length (ex_txOutputs ex))")
  fix fuel cache ex st and t :: 't and E :: "'t TxEnv" and x gasUsed y out z ex' w st' v cache' t'
  assume "HasNextClause ex" "exec_next fuel E cache ex st t = Some x" "(gasUsed, y) = x" "(out, z) = y" "(ex', w) = z"
    "(st', v) = w" "(cache', t') = v"
  then show "((fuel, E, cache', ex', st', t'), fuel, E, cache, ex, st, t) \<in> measure (\<lambda>(fuel, E, cache, ex, st, t).
    if ex_reverted ex then 0 else length (rx_Clauses (ex_resolvedTx ex)) - length (ex_txOutputs ex))"
    using exec_next_progress [of fuel E cache ex st t gasUsed out ex' st' cache' t'] by (auto simp: HasNextClause_def)
qed simp

declare exec_clauses.simps [simp del]

definition ExecuteTransaction ::
    "nat \<Rightarrow> 't TxEnv \<Rightarrow> bitmapCache \<Rightarrow> Transaction \<Rightarrow> State \<Rightarrow> 't \<Rightarrow> (State \<times> (db_error + Receipt) \<times> bitmapCache \<times> 't) option" where
  "ExecuteTransaction fuel E cache tx st t =
     do {
       (st, r) \<leftarrow> PrepareTransaction E tx st;
       case r of
         Inl e \<Rightarrow> Some (st, Inl e, cache, t)
       | Inr ex \<Rightarrow> do {
           (ex, st, cache, t) \<leftarrow> exec_clauses fuel E cache ex st t;
           (st, receipt) \<leftarrow> snd (Finalize E ex st);
           Some (st, receipt, cache, t)
         }
     }"

section \<open>Intrinsic gas and prices\<close>

definition data_cost :: "tx_deps \<Rightarrow> bytes \<Rightarrow> nat" where
  "data_cost X data =
     unat (params_TxDataZeroGas X) * length (filter (\<lambda>b. b = 0) data) +
     unat (params_TxDataNonZeroGas X) * length (filter (\<lambda>b. b \<noteq> 0) data)"

definition clause_cost :: "tx_deps \<Rightarrow> Clause \<Rightarrow> nat" where
  "clause_cost X c =
     data_cost X (cl_Data c) + (if IsCreatingContract c then unat (ClauseGasContractCreation X) else unat (ClauseGas X))"

definition exactly :: "nat \<Rightarrow> db_error + u64" where
  "exactly n = (if n < 2 ^ 64 then Inr (of_nat n) else Inl errIntrinsicGasOverflow)"

lemma count_bytes:
  "fold (\<lambda>byt (z, nz). if byt = 0 then (z + 1, nz) else (z, nz + 1)) data (z, nz) =
     (z + of_nat (length (filter (\<lambda>b. b = 0) data)), nz + of_nat (length (filter (\<lambda>b. b \<noteq> 0) data)) :: u64)"
  by (induction data arbitrary: z nz) (simp_all add: ac_simps)

lemma dataGas_exact:
  assumes "safe_math_ok d" and "length data < 2 ^ 64"
  shows "dataGas d X data = exactly (data_cost X data)"
proof -
  have l: "length (filter P data) < 2 ^ 64" for P using assms(2) le_less_trans length_filter_le by blast
  have u: "unat (of_nat (length (filter P data)) :: u64) = length (filter P data)" for P
    using l [of P] by (simp add: unat_of_nat)
  have m: "unat (x * y) = unat x * unat y" if "\<not> 2 ^ 64 \<le> unat x * unat y" for x y :: u64
    using that by (simp add: unat_mult_lem [THEN iffD1])
  show ?thesis
    using assms(1) by (auto simp: dataGas_def count_bytes safe_math_ok_def Let_def u m exactly_def data_cost_def)
qed

lemma intrinsic_exact:
  assumes "safe_math_ok d" and "\<forall>c\<in>set cs. length (cl_Data c) < 2 ^ 64"
  shows "intrinsic_loop d X cs tot = exactly (unat tot + (\<Sum>c\<leftarrow>cs. clause_cost X c))"
  using assms(2)
proof (induction cs arbitrary: tot)
  case Nil
  show ?case by (simp add: exactly_def unat_u64_less [of tot])
next
  case (Cons c cs)
  have add: "unat (x + y) = unat x + unat y" if "\<not> 2 ^ 64 \<le> unat x + unat y" for x y :: u64
    using that by (simp add: unat_add_lem [THEN iffD1])
  have u: "unat (of_nat n :: u64) = n" if "n < 2 ^ 64" for n using that by (simp add: unat_of_nat)
  have "length (cl_Data c) < 2 ^ 64" "\<forall>c\<in>set cs. length (cl_Data c) < 2 ^ 64" using Cons.prems by simp_all
  note dataGas_exact [OF assms(1) this(1), of X] and IH = Cons.IH [OF this(2)]
  with assms(1) show ?case
    by (auto simp: safe_math_ok_def Let_def exactly_def clause_cost_def u add)
qed

lemma GasPrice_bounds:
  assumes "0 \<le> bgp"
  shows "bgp \<le> GasPrice_of t bgp" and "GasPrice_of t bgp \<le> 2 * bgp"
proof -
  have "uint (tx_GasPriceCoef t) = int (unat (tx_GasPriceCoef t))" by simp
  then have "uint (tx_GasPriceCoef t) \<le> 255" using unat_byte_less [of "tx_GasPriceCoef t"] by linarith
  then have "uint (tx_GasPriceCoef t) * bgp \<le> 255 * bgp" using assms by (rule mult_right_mono)
  then have "uint (tx_GasPriceCoef t) * bgp div 255 \<le> 255 * bgp div 255" by (rule zdiv_mono1) simp
  then show "GasPrice_of t bgp \<le> 2 * bgp" by (simp add: GasPrice_of_def)
  show "bgp \<le> GasPrice_of t bgp" using assms by (simp add: GasPrice_of_def pos_imp_zdiv_nonneg_iff)
qed

lemma OverallGasPrice_bounds:
  assumes "0 \<le> bgp" and "tx_Gas t \<noteq> 0"
  obtains p where "OverallGasPrice t bgp work = Some p" and "GasPrice_of t bgp \<le> p" and "p \<le> GasPrice_of t bgp + bgp"
proof -
  let ?w = "workToGas work (Number (BlockRef t))"
  let ?g = "if tx_Gas t < ?w then tx_Gas t else ?w"
  have g: "0 < uint (tx_Gas t)" using assms(2) by (simp add: word_neq_0_conv word_less_def)
  have "uint ?g \<le> uint (tx_Gas t)" by (auto simp: word_le_def [symmetric])
  then have "uint ?g * bgp \<le> uint (tx_Gas t) * bgp" using assms(1) by (rule mult_right_mono)
  then have "uint ?g * bgp div uint (tx_Gas t) \<le> uint (tx_Gas t) * bgp div uint (tx_Gas t)" using g by (rule zdiv_mono1)
  then have le: "uint ?g * bgp div uint (tx_Gas t) \<le> bgp" using g by simp
  have "0 \<le> uint ?g * bgp div uint (tx_Gas t)" using assms(1) g by (simp add: pos_imp_zdiv_nonneg_iff)
  with le show thesis
    using assms that [unfolded OverallGasPrice_def Let_def] by (cases "work = 0 \<or> ?w = 0") auto
qed

lemma ref_Number: "unat (Number (BlockRef t)) = unat (tx_BlockRef t) div 2 ^ 32"
proof -
  have "nat_be (a + b) n = nat_be a (n div 256 ^ b) @ nat_be b n" for a b n
    by (induction b arbitrary: n) (simp_all add: div_mult2_eq [symmetric])
  from this [of 4 4] have "nat_be 8 n = nat_be 4 (n div 2 ^ 32) @ nat_be 4 n" for n by simp
  then have "take 4 (BlockRef t) = nat_be 4 (unat (tx_BlockRef t) div 2 ^ 32)" by (simp add: BlockRef_def)
  moreover have "unat (tx_BlockRef t) div 2 ^ 32 < 2 ^ 32" using unat_u64_less [of "tx_BlockRef t"] by (simp add: less_mult_imp_div_less)
  ultimately show ?thesis by (simp add: Number_def be_word_def be_nat_nat_be unat_of_nat)
qed

text \<open>
  C14: the intrinsic gas of clauses is the exact sum of their costs when that sum fits into 64 bits, and
  the overflow error otherwise; no intermediate wrap-around is missed.
\<close>
theorem intrinsic_gas_exact:
  assumes "safe_math_ok d" and "\<forall>c\<in>set cs. length (cl_Data c) < 2 ^ 64" and "TxGas \<le> params_TxGas X"
  shows "IntrinsicGas d X cs =
    exactly (unat TxGas + (if cs = [] then unat (ClauseGas X) else (\<Sum>c\<leftarrow>cs. clause_cost X c)))"
proof (cases "cs = []")
  case True
  have "unat TxGas + unat (ClauseGas X) = unat (params_TxGas X)"
    using assms(3) by (simp add: ClauseGas_def unat_sub word_le_nat_alt)
  moreover have "TxGas + ClauseGas X = params_TxGas X" by (simp add: ClauseGas_def)
  ultimately show ?thesis using True unat_u64_less [of "params_TxGas X"] by (simp add: IntrinsicGas_def exactly_def)
next
  case False
  then show ?thesis by (simp add: IntrinsicGas_def intrinsic_exact [OF assms(1,2)])
qed

text \<open>
  C32: prices.  The gas price is between the base price and twice the base price.  With gas in the
  transaction the overall price, which counts the proved work, is defined, at least the gas price, and
  at most three times the base price, whatever the work.
\<close>
theorem gas_price_bounds:
  assumes "0 \<le> bgp" and "tx_Gas t \<noteq> 0"
  shows "\<exists>p. OverallGasPrice t bgp work = Some p \<and> bgp \<le> GasPrice_of t bgp \<and> GasPrice_of t bgp \<le> 2 * bgp \<and>
    GasPrice_of t bgp \<le> p \<and> p \<le> 3 * bgp"
  by (rule OverallGasPrice_bounds [OF assms, of work]) (use GasPrice_bounds [OF assms(1), of t] in force)

text \<open>
  C33: a transaction is expired exactly when the number of the block exceeds the number of the referenced
  block, the upper half of the reference, by more than the expiration; nothing wraps around.
\<close>
theorem expiration_exact:
  "IsExpired t blockNum \<longleftrightarrow> unat (tx_BlockRef t) div 2 ^ 32 + unat (tx_Expiration t) < unat blockNum"
proof -
  have "unat (ucast (Number (BlockRef t)) + ucast (tx_Expiration t) :: u64) = unat (Number (BlockRef t)) + unat (tx_Expiration t)"
    using unat_u32_less [of "Number (BlockRef t)"] unat_u32_less [of "tx_Expiration t"]
    by (simp add: unat_word_ariths unat_widen)
  then show ?thesis by (simp add: IsExpired_def word_less_nat_alt unat_widen ref_Number)
qed

section \<open>A transaction for the witnesses\<close>

definition demo_tx_deps :: tx_deps where
  "demo_tx_deps =
     \<lparr>SigToAddress = (\<lambda>h s. Inr 1), rlp_Unsigned = (\<lambda>t. []), rlp_WithoutNonce = (\<lambda>t a. []), params_TxGas = 21000,
      params_TxGasContractCreation = 53000, params_TxDataZeroGas = 4, params_TxDataNonZeroGas = 68,
      chain_GetBlockID = (\<lambda>n. Inr 0), Params_Address = 5, Prototype_Address = 6\<rparr>"

definition demo_tx :: Transaction where
  "demo_tx =
     \<lparr>tx_ChainTag = 1, tx_BlockRef = 0x500000000, tx_Expiration = 10,
      tx_Clauses = [\<lparr>cl_To = Some 2, cl_Value = 300, cl_Data = []\<rparr>], tx_GasPriceCoef = 0, tx_Gas = 21050, tx_DependsOn = None,
      tx_Nonce = 1, tx_Features = 0, tx_Signature = replicate 65 0\<rparr>"

lemma intrinsic_gas_exact_witness:
  "IntrinsicGas demo_lib demo_tx_deps [\<lparr>cl_To = Some 2, cl_Value = 0, cl_Data = [0, 7]\<rparr>, \<lparr>cl_To = None, cl_Value = 0, cl_Data = []\<rparr>] =
     Inr 69072"
  using intrinsic_gas_exact [of demo_lib "[\<lparr>cl_To = Some 2, cl_Value = 0, cl_Data = [0, 7]\<rparr>, \<lparr>cl_To = None, cl_Value = 0, cl_Data = []\<rparr>]" demo_tx_deps]
  by (simp add: demo_tx_deps_def demo_lib_def safe_math_ok_def exactly_def clause_cost_def data_cost_def IsCreatingContract_def
      ClauseGas_def ClauseGasContractCreation_def)

lemma gas_price_bounds_witness:
  "\<exists>p. OverallGasPrice demo_tx 1000 5000000 = Some p \<and> 1000 \<le> p \<and> p \<le> 3000"
  using gas_price_bounds [of 1000 demo_tx 5000000] by (auto simp: demo_tx_def)

end
