(* ===== verification/TxExecution.thy ===== *)
theory TxExecution
  imports Transactions
begin

text \<open>
  What the execution of a transaction does to the state.

  \<open>booked\<close> is the effect of gas payments, which no balance, master or code takes part in; \<open>tame\<close>
  operations return with bookkeeping only; \<open>running\<close> is the invariant of the executor while clauses are
  executed; \<open>moved\<close> states the energy that a payment moves.  The theorems at the end hold for whole
  transactions.
\<close>

section \<open>What gas payments change\<close>

definition good :: "state_deps \<Rightarrow> State \<Rightarrow> bool" where
  "good D st \<longleftrightarrow> state_ok st \<and> healthy D (s_trie st)"

text \<open>
  The bookkeeping of a transaction touches the top level of the state only, and no balance, master or
  code.
\<close>

definition booked :: "state_deps \<Rightarrow> State \<Rightarrow> State \<Rightarrow> bool" where
  "booked D st st' \<longleftrightarrow>
     good D st' \<and> s_trie st' = s_trie st \<and> length (smaps st') = length (smaps st) \<and> butlast (smaps st') = butlast (smaps st) \<and>
     (\<forall>a. Balance (account_of D st' a) = Balance (account_of D st a) \<and> Master (account_of D st' a) = Master (account_of D st a) \<and>
        acc_CodeHash (account_of D st' a) = acc_CodeHash (account_of D st a) \<and> code_of D st' a = code_of D st a)"

lemma booked_refl: "good D st \<Longrightarrow> booked D st st"
  by (simp add: booked_def)

lemma booked_trans: "booked D st st' \<Longrightarrow> booked D st' st'' \<Longrightarrow> booked D st st''"
  by (simp add: booked_def)

lemma booked_good: "booked D st st' \<Longrightarrow> good D st'"
  by (simp add: booked_def)

lemma booked_sound:
  assumes "vet_sound K D T st" and "booked D st st'"
  shows "vet_sound K D T st'"
proof -
  have ne: "smaps st' \<noteq> []" "smaps st \<noteq> []" using assms by (simp_all add: vet_sound_def booked_def good_def state_ok_def)
  have same: "butlast (smaps st') = butlast (smaps st)" "s_trie st' = s_trie st" using assms(2) by (simp_all add: booked_def)
  have top: "sound_level K T D (s_trie st') (last (smaps st')) = sound_level K T D (s_trie st) (last (smaps st))"
    unfolding sound_level_def account_at_top [symmetric] using assms(2) by (simp add: booked_def)
  have "list_all (sound_level K T D (s_trie st)) (butlast (smaps st) @ [last (smaps st)])"
    using assms(1) ne(2) by (simp add: vet_sound_def)
  with top same have "list_all (sound_level K T D (s_trie st')) (butlast (smaps st') @ [last (smaps st')])" by simp
  then have "list_all (sound_level K T D (s_trie st')) (smaps st')" using ne(1) by simp
  with assms show ?thesis by (simp add: vet_sound_def booked_def good_def)
qed

lemma written_booked:
  assumes "good D st" and "written key v st st'" and "\<And>b. key \<noteq> BarrierKey b" and "\<And>a. key \<noteq> CodeKey a"
    and "\<And>a. key = AccountKey a \<Longrightarrow> \<exists>x y. v = AccountVal ((account_of D st a)\<lparr>Energy := x, BlockTime := y\<rparr>)"
  shows "booked D st st'"
proof -
  have "length (smaps st') = length (smaps st)" "butlast (smaps st') = butlast (smaps st)"
    using assms(1,2) by (simp_all add: written_def good_def state_ok_def)
  moreover have "Balance (account_of D st' a) = Balance (account_of D st a)" "Master (account_of D st' a) = Master (account_of D st a)"
    "acc_CodeHash (account_of D st' a) = acc_CodeHash (account_of D st a)" for a
    using values_written(1) [OF assms(2), of D a] assms(5) [of a] by auto
  moreover have "code_of D st' a = code_of D st a" for a using values_written(2) [OF assms(2), of D a] assms(4) by simp
  ultimately show ?thesis using assms(1) written_ok [OF assms(2)] by (simp add: booked_def good_def)
qed

text \<open>Operations that return, with bookkeeping only, errors included.\<close>

definition tame :: "state_deps \<Rightarrow> State \<Rightarrow> 'a op \<Rightarrow> bool" where
  "tame D st m \<longleftrightarrow> (\<exists>st' r. m = Some (st', r) \<and> booked D st st')"

lemma tame_here: "good D st \<Longrightarrow> tame D st (Some (st, r))"
  by (simp add: tame_def booked_refl)

lemma tame_andthen:
  assumes "tame D st m" and "\<And>x st'. m = Some (st', Inr x) \<Longrightarrow> booked D st st' \<Longrightarrow> good D st' \<Longrightarrow> tame D st' (f x st')"
  shows "tame D st (andthen m f)"
proof -
  obtain st' r where m: "m = Some (st', r)" "booked D st st'" using assms(1) by (auto simp: tame_def)
  show ?thesis
  proof (cases r)
    case (Inl e)
    with m show ?thesis by (simp add: tame_def)
  next
    case (Inr x)
    with assms(2) [of st' x] m booked_good show ?thesis by (auto simp: tame_def intro: booked_trans)
  qed
qed

lemma tame_query:
  assumes "good D st" and "\<exists>y. r = Some y" and "\<And>x. r = Some (Inr x) \<Longrightarrow> tame D st (f x)"
  shows "tame D st (query r st f)"
proof -
  obtain y where "r = Some y" using assms(2) ..
  with assms tame_here [OF assms(1)] show ?thesis by (cases y) (auto simp: query_def)
qed

lemma tame_encode:
  assumes "good D st"
  shows "tame D st (effect (State_EncodeStorage D a k enc st))"
proof (cases enc)
  case (Inl e)
  then show ?thesis using tame_here [OF assms] by (simp add: State_EncodeStorage_def)
next
  case (Inr raw)
  have "state_ok st" using assms by (simp add: good_def)
  then obtain st' where "effect (State_EncodeStorage D a k (Inr raw) st) = Some (st', Inr ())"
    and w: "written (StorageKey a (barrier_of st a) k) (RawVal raw) st st'" by (rule encode_of)
  with Inr written_booked [OF assms w] show ?thesis by (simp add: tame_def)
qed

lemma tame_energy:
  assumes "good D st"
  shows "tame D st (effect (State_SetEnergy D a v t st))"
proof -
  have "state_ok st" "healthy D (s_trie st)" using assms by (simp_all add: good_def)
  then obtain st' where "effect (State_SetEnergy D a v t st) = Some (st', Inr ())"
    and w: "written (AccountKey a) (AccountVal ((account_of D st a)\<lparr>Energy := v, BlockTime := t\<rparr>)) st st'" by (rule set_energy_of)
  with written_booked [OF assms w] show ?thesis by (auto simp: tame_def)
qed

lemma reads_defined:
  assumes "good D st"
  shows "\<exists>y. State_DecodeStorage D a k dec st = Some y" and "\<exists>y. State_GetEnergy D a t st = Some y" and "\<exists>y. State_GetStorage D a k st = Some y"
  using assms
  by (auto simp: good_def decode_of get_energy_of State_GetStorage_def State_GetRawStorage_of split: sum.split option.split prod.split)

lemmas tame_rules = tame_andthen tame_query tame_encode tame_energy tame_here

lemma Energy_Add_tame: "good D st \<Longrightarrow> tame D st (Energy_Add R D e a v st)"
  unfolding Energy_Add_def getTotalAddSub_def setTotalAddSub_def
  by (auto intro!: tame_rules simp: reads_defined)

lemma Energy_Sub_tame: "good D st \<Longrightarrow> tame D st (Energy_Sub R D e a v st)"
  unfolding Energy_Sub_def getTotalAddSub_def setTotalAddSub_def
  by (auto intro!: tame_rules simp: reads_defined)

lemma SetUserCredit_tame: "good D st \<Longrightarrow> tame D st (SetUserCredit R D b u c t st)"
  unfolding SetUserCredit_def getCreditPlan_def setUserObject_def Let_def
  by (auto intro!: tame_rules simp: reads_defined)

lemma map_res_None [simp]: "map_res f r = None \<longleftrightarrow> r = None"
  by (simp add: map_res_def)

lemma credits_defined:
  assumes "good D st"
  shows "\<exists>y. UserCredit R D b u t st = Some y" and "\<exists>y. CurrentSponsor D b st = Some y" and "\<exists>y. IsSponsor R D b s st = Some y" and "\<exists>y. Params_Get R D a k st = Some y"
  by (auto simp: reads_defined [OF assms] map_res_def UserCredit_def getUserObject_def getCreditPlan_def CurrentSponsor_def IsSponsor_def Params_Get_def
      split: option.split sum.split)

lemma return_tame:
  assumes "good (te_db E) st"
  shows "tame (te_db E) st (returnGas E bt gp payer rgas st)"
    and "tame (te_db E) st (doReturnGasAndSetCredit E bt gp b u c pre payer rgas st)"
  using assms unfolding returnGas_def doReturnGasAndSetCredit_def doReturnGas_def Let_def
  by (auto intro!: tame_andthen Energy_Add_tame SetUserCredit_tame tame_here)

section \<open>Buying gas\<close>

lemma Energy_Sub_False: "Energy_Sub R D e a v st = Some (st', Inr False) \<Longrightarrow> st' = st"
  by (auto simp: Energy_Sub_def query_def andthen_def split: option.splits sum.splits if_splits prod.splits)

text \<open>A successful purchase: the prices, the payment, and the two ways to return gas.\<close>

definition purchased :: "'t TxEnv \<Rightarrow> ResolvedTransaction \<Rightarrow> u64 \<Rightarrow> State \<Rightarrow> State \<Rightarrow> purchase \<Rightarrow> bool" where
  "purchased E r bt st st' bought \<longleftrightarrow>
     (case bought of (bgp, gp, payer, prepaid, return) \<Rightarrow>
        Params_Get (te_codecs E) (te_db E) (Params_Address (te_lib E)) KeyBaseGasPrice st = Some (Inr bgp) \<and>
        gp = GasPrice_of (rx_tx r) bgp \<and> prepaid = uint (tx_Gas (rx_tx r)) * gp \<and>
        Energy_Sub (te_codecs E) (te_db E) (native_energy E bt) payer prepaid st = Some (st', Inr True) \<and>
        (return = returnGas E bt gp payer \<or>
         (\<exists>to credit. return = doReturnGasAndSetCredit E bt gp \<lparr>b_addr = Prototype_Address (te_lib E), b_self = to\<rparr>
            (rx_Origin r) credit prepaid payer)))"

lemma deduct_Some:
  "deduct E bt who pre bought other st = Some (st', Inr x) \<Longrightarrow>
   (Energy_Sub (te_codecs E) (te_db E) (native_energy E bt) who pre st = Some (st', Inr True) \<and> x = bought) \<or>
   other st = Some (st', Inr x)"
  by (auto simp: deduct_def andthen_def dest: Energy_Sub_False split: option.splits sum.splits if_splits prod.splits)

lemma BuyGas_purchased:
  assumes "BuyGas E r bt st = Some (st', Inr bought)"
  shows "purchased E r bt st st' bought"
  using assms unfolding BuyGas_def Let_def
  by (auto simp: query_def purchased_def split: option.splits sum.splits if_splits dest!: deduct_Some)

lemma deduct_tame:
  assumes "good (te_db E) st" and "\<And>st'. good (te_db E) st' \<Longrightarrow> tame (te_db E) st' (other st')"
  shows "tame (te_db E) st (deduct E bt who pre bought other st)"
  unfolding deduct_def using assms by (auto intro!: tame_andthen Energy_Sub_tame tame_here)

lemma BuyGas_tame:
  assumes "good (te_db E) st"
  shows "tame (te_db E) st (BuyGas E r bt st)"
  using assms unfolding BuyGas_def Let_def
  by (auto intro!: tame_query deduct_tame tame_here simp: credits_defined split: option.split)

section \<open>Executing the clauses\<close>

declare length_sm_maps [simp del]

definition tx_env_ok :: "'t TxEnv \<Rightarrow> bool" where
  "tx_env_ok E \<longleftrightarrow>
     runtime_ok (te_rt E) \<and> codecs_ok (te_codecs E) \<and> TxGas \<le> params_TxGas (te_lib E) \<and>
     Prototype_Address (te_lib E) \<noteq> Energy_Address (rt_deps (te_rt E))"

text \<open>
  While clauses are executed, the levels below the checkpoint are those of the state \<open>st0\<close> in which the
  gas was bought; after a revert the state has no other levels.
\<close>

definition running :: "'t TxEnv \<Rightarrow> int \<Rightarrow> u64 \<Rightarrow> State \<Rightarrow> bitmapCache \<Rightarrow> TransactionExecutor \<Rightarrow> State \<Rightarrow> bool" where
  "running E T gas st0 cache ex st \<longleftrightarrow>
     vet_sound (K_of (te_rt E)) (te_db E) T st \<and> cache_fits (rt_lib (te_rt E)) cache \<and> ex_leftOverGas ex \<le> gas \<and>
     (\<forall>c\<in>set (rx_Clauses (ex_resolvedTx ex)). length (cl_Data c) \<le> max_code \<and> 0 \<le> cl_Value c) \<and>
     s_trie st = s_trie st0 \<and> ex_checkpoint ex = length (smaps st0) \<and> smaps st0 \<noteq> [] \<and>
     (if ex_reverted ex then smaps st = smaps st0 \<and> ex_txOutputs ex = []
      else take (length (smaps st0)) (smaps st) = smaps st0 \<and> length (smaps st0) < length (smaps st) \<and>
        length (ex_txOutputs ex) \<le> length (rx_Clauses (ex_resolvedTx ex)))"

lemma refund_fits:
  fixes left gas r :: u64
  assumes "left \<le> gas"
  shows "left + min ((gas - left) div 2) r \<le> gas"
proof -
  let ?d = "min ((gas - left) div 2) r"
  have "unat ?d \<le> unat (gas - left)" by (auto simp: min_def word_le_nat_alt unat_div)
  then have "unat left + unat ?d \<le> unat gas" using assms by (simp add: unat_sub word_le_nat_alt)
  moreover from this have "unat left + unat ?d < 18446744073709551616" using unat_u64_less [of gas] by linarith
  then have "unat (left + ?d) = unat left + unat ?d" by (simp add: unat_word_ariths)
  ultimately show ?thesis by (simp add: word_le_nat_alt)
qed

lemma exec_next_ok:
  assumes env: "tx_env_ok E" and run: "running E T gas st0 cache ex st" and next_clause: "HasNextClause ex"
    and gas: "unat gas < fuel" "gas \<noteq> -1"
  obtains used out ex' st' cache' t' where "exec_next fuel E cache ex st t = Some (used, out, ex', st', cache', t')"
    and "running E T gas st0 cache' ex' st'"
proof -
  let ?D = "te_db E" and ?n = "length (ex_txOutputs ex)" and ?left = "ex_leftOverGas ex" and ?len = "length (smaps st0)"
  let ?c = "rx_Clauses (ex_resolvedTx ex) ! ?n"
  define t0 where "t0 = (if rt_Tracer (te_rt E) \<noteq> None then te_CaptureClauseStart E ?left t else t)"
  have n: "?n < length (rx_Clauses (ex_resolvedTx ex))" "\<not> ex_reverted ex" using next_clause by (simp_all add: HasNextClause_def)
  have v: "vet_sound (K_of (te_rt E)) ?D T st" using run by (simp add: running_def)
  have below: "take ?len (smaps st) = smaps st0" "?len < length (smaps st)" "0 < ?len"
    using run n(2) by (simp_all add: running_def)
  have ready: "clause_ready (te_rt E) T cache ?c st" using run n(1) by (auto simp: running_def clause_ready_def)
  have rt: "runtime_ok (te_rt E)" using env by (simp add: tx_env_ok_def)
  have left: "?left \<le> gas" using run by (simp add: running_def)
  have "unat ?left < fuel" using left gas(1) by (simp add: word_le_nat_alt)
  moreover have "?left \<noteq> -1" using left gas(2) by (auto simp: word_order.extremum_unique)
  ultimately have lg: "unat ?left < fuel" "?left \<noteq> -1" .
  note exec = exec_clause_ok [OF rt ready lg, of "of_nat ?n" "ex_txCtx ex" t0]
  obtain out t1 and e :: "Thor_StateDB EVM" where out: "exec_clause fuel (te_rt E) cache ?c (of_nat ?n) ?left (ex_txCtx ex) st t0 = Some (out, sd_state (statedb e), bitmaps e, t1)"
      "out_LeftOverGas out \<le> ?left" "vet_below (te_rt E) T 0 (NewStateDB st) (statedb e)" "cache_fits (rt_lib (te_rt E)) (bitmaps e)"
    by (rule exec) blast
  note after = vet_below_state [OF out(3) v]
  let ?st = "sd_state (statedb e)" and ?l = "out_LeftOverGas out + min ((?left - out_LeftOverGas out) div 2) (out_RefundGas out)"
  have l: "?l \<le> gas" using refund_fits [OF out(2), of "out_RefundGas out"] left by (rule order_trans)
  have kept: "take ?len (smaps ?st) = smaps st0" "?len < length (smaps ?st)"
  proof -
    have m: "min ?len (length (smaps st) - 1) = ?len" using below(2) by linarith
    have "take ?len (take (length (smaps st) - 1) (smaps ?st)) = take ?len (butlast (smaps st))" using after(3) by simp
    also have "\<dots> = take ?len (smaps st)" by (rule take_butlast [OF below(2)])
    finally show "take ?len (smaps ?st) = smaps st0" unfolding take_take m below(1) .
    show "?len < length (smaps ?st)" using after(4) below(2) by simp
  qed
  have base: "ex_checkpoint ex = ?len" "s_trie st = s_trie st0" "smaps st0 \<noteq> []"
    "\<forall>c\<in>set (rx_Clauses (ex_resolvedTx ex)). length (cl_Data c) \<le> max_code \<and> 0 \<le> cl_Value c"
    using run by (simp_all add: running_def)
  define t2 where "t2 = (if rt_Tracer (te_rt E) \<noteq> None then te_CaptureClauseEnd E ?l t1 else t1)"
  show thesis
  proof (cases "out_VMErr out = None")
    case True
    let ?ex = "ex\<lparr>ex_leftOverGas := ?l, ex_txOutputs := ex_txOutputs ex @ [(out_Events out, out_Transfers out)]\<rparr>"
    have "exec_next fuel E cache ex st t = Some (?left - out_LeftOverGas out, out, ?ex, ?st, bitmaps e, t2)"
      using n(1) out(1) True by (simp add: exec_next_def Let_def t0_def t2_def)
    moreover have "running E T gas st0 (bitmaps e) ?ex ?st"
      using after(1,2) out(4) l base kept n by (simp add: running_def)
    ultimately show thesis by (rule that)
  next
    case False
    obtain st2 where st2: "State_RevertTo ?len ?st = Some st2" "state_ok st2" "s_trie st2 = s_trie ?st" "smaps st2 = take ?len (smaps ?st)"
      by (rule State_RevertTo_ok [of ?st ?len]) (use after(1) below(3) in \<open>simp_all add: vet_sound_def\<close>)
    let ?ex = "ex\<lparr>ex_leftOverGas := ?l, ex_reverted := True, ex_txOutputs := []\<rparr>"
    have "exec_next fuel E cache ex st t = Some (?left - out_LeftOverGas out, out, ?ex, st2, bitmaps e, t2)"
      using n(1) out(1) False st2(1) base(1) by (simp add: exec_next_def Let_def t0_def t2_def)
    moreover have "vet_sound (K_of (te_rt E)) ?D T st2"
      using after(1) st2 by (auto simp: vet_sound_def list_all_iff dest: in_set_takeD)
    then have "running E T gas st0 (bitmaps e) ?ex st2"
      using after(2) out(4) l base kept(1) st2 by (simp add: running_def)
    ultimately show thesis by (rule that)
  qed
qed

lemma exec_clauses_ok:
  assumes "tx_env_ok E" and "running E T gas st0 cache ex st" and "unat gas < fuel" and "gas \<noteq> -1"
  shows "\<exists>ex' st' cache' t'. exec_clauses fuel E cache ex st t = Some (ex', st', cache', t') \<and> running E T gas st0 cache' ex' st' \<and>
    \<not> HasNextClause ex' \<and> ex_resolvedTx ex' = ex_resolvedTx ex \<and> ex_purchase ex' = ex_purchase ex \<and> ex_finalized ex' = ex_finalized ex"
  using assms
proof (induction fuel E cache ex st t rule: exec_clauses.induct)
  case (1 fuel E cache ex st t)
  show ?case
  proof (cases "HasNextClause ex")
    case True
    obtain used out ex' st' cache' t' where x: "exec_next fuel E cache ex st t = Some (used, out, ex', st', cache', t')"
      and r: "running E T gas st0 cache' ex' st'"
      by (rule exec_next_ok [OF 1(2,3) True 1(4,5)])
    from 1(1) [OF True x refl refl refl refl refl 1(2) r 1(4,5)] exec_next_progress [OF x] True x show ?thesis
      by (subst exec_clauses.simps) simp
  next
    case False
    with 1(3) show ?thesis by (subst exec_clauses.simps) simp
  qed
qed

section \<open>Preparing and finalizing\<close>

lemma check_values_nonneg: "check_values cs s = None \<Longrightarrow> c \<in> set cs \<Longrightarrow> 0 \<le> cl_Value c"
  by (induction cs s rule: check_values.induct) (auto split: if_splits)

lemma ResolveTransaction_Inr:
  assumes "ResolveTransaction E tx = Inr r"
  shows "rx_tx r = tx" and "rx_Clauses r = tx_Clauses tx" and "rx_IntrinsicGas r \<le> tx_Gas tx"
    and "IntrinsicGas (rt_lib (te_rt E)) (te_lib E) (tx_Clauses tx) = Inr (rx_IntrinsicGas r)"
    and "\<forall>c\<in>set (tx_Clauses tx). 0 \<le> cl_Value c"
  using assms by (auto simp: ResolveTransaction_def check_values_nonneg split: sum.splits if_splits option.splits)

lemma exactly_Inr: "exactly n = Inr g \<Longrightarrow> unat g = n"
  by (auto simp: exactly_def unat_of_nat split: if_splits)

lemma intrinsic_pos:
  assumes "tx_env_ok E" and "\<forall>c\<in>set cs. length (cl_Data c) \<le> max_code"
    and "IntrinsicGas (rt_lib (te_rt E)) (te_lib E) cs = Inr g"
  shows "0 < g"
proof (cases "cs = []")
  case True
  then have "g = params_TxGas (te_lib E)" using assms(3) by (simp add: IntrinsicGas_def ClauseGas_def)
  moreover have "TxGas \<le> params_TxGas (te_lib E)" using assms(1) by (simp add: tx_env_ok_def)
  ultimately show ?thesis by (auto simp: word_neq_0_conv [symmetric])
next
  case False
  have "\<forall>c\<in>set cs. length (cl_Data c) < 2 ^ 64" using assms(2) by auto
  moreover have "safe_math_ok (rt_lib (te_rt E))" using assms(1) by (simp add: tx_env_ok_def runtime_ok_def)
  ultimately have "exactly (5000 + (\<Sum>c\<leftarrow>cs. clause_cost (te_lib E) c)) = Inr g"
    using assms(3) False by (simp add: IntrinsicGas_def intrinsic_exact)
  then have "unat g = 5000 + (\<Sum>c\<leftarrow>cs. clause_cost (te_lib E) c)" by (rule exactly_Inr)
  then show ?thesis by (auto simp: word_neq_0_conv [symmetric])
qed

lemma ProvedWork_defined: "UnprovedWork X D t = Some w \<Longrightarrow> \<exists>y. ProvedWork X D t n = Some y"
  by (auto simp: ProvedWork_def Let_def split: sum.split)

lemma purchased_return:
  assumes "purchased E r bt st st' (bgp, gp, payer, prepaid, return)" and "good (te_db E) st2"
  shows "tame (te_db E) st2 (return rgas st2)"
  using assms return_tame by (auto simp: purchased_def)

lemma Prepare_cases:
  assumes env: "tx_env_ok E" and v: "vet_sound (K_of (te_rt E)) (te_db E) T st" and c: "cache_fits (rt_lib (te_rt E)) cache"
    and sizes: "\<forall>c\<in>set (tx_Clauses tx). length (cl_Data c) \<le> max_code" and w: "UnprovedWork (te_lib E) (te_db E) tx = Some work"
  obtains (error) st1 e where "PrepareTransaction E tx st = Some (st1, Inl e)" and "vet_sound (K_of (te_rt E)) (te_db E) T st1"
  | (ready) r st1 st2 ex where "PrepareTransaction E tx st = Some (st2, Inr ex)" and "ResolveTransaction E tx = Inr r" and "booked (te_db E) st st1"
    and "purchased E r (bc_Time (rt_ctx (te_rt E))) st st1 (ex_purchase ex)" and "ex_resolvedTx ex = r" and "\<not> ex_finalized ex"
    and "running E T (tx_Gas tx - rx_IntrinsicGas r) st1 cache ex st2"
proof (cases "ResolveTransaction E tx")
  case (Inl e)
  then show thesis using error [of st e] v by (simp add: PrepareTransaction_def)
next
  case (Inr r)
  let ?time = "bc_Time (rt_ctx (te_rt E))" and ?D = "te_db E" and ?K = "K_of (te_rt E)"
  note r = ResolveTransaction_Inr [OF Inr]
  have g: "good ?D st" using v by (simp add: vet_sound_def good_def)
  obtain st1 res where buy: "BuyGas E r ?time st = Some (st1, res)" and bk: "booked ?D st st1"
    using BuyGas_tame [OF g] unfolding tame_def by blast
  have v1: "vet_sound ?K ?D T st1" by (rule booked_sound [OF v bk])
  show thesis
  proof (cases res)
    case (Inl e)
    then show thesis using error [of st1 e] v1 Inr buy by (simp add: PrepareTransaction_def)
  next
    case bought: (Inr bought)
    obtain bgp gp payer prepaid return where b: "bought = (bgp, gp, payer, prepaid, return)" by (cases bought) auto
    have pu: "purchased E r ?time st st1 bought" using BuyGas_purchased buy bought by blast
    obtain tc where tc: "ToContext E r gp payer (bc_Number (rt_ctx (te_rt E))) = Some tc"
      using ProvedWork_defined [OF w, of "bc_Number (rt_ctx (te_rt E))"] r(1) by (auto simp: ToContext_def map_res_def)
    show thesis
    proof (cases tc)
      case (Inl e)
      then show thesis using error [of st1 e] v1 Inr buy bought b tc by (simp add: PrepareTransaction_def)
    next
      case ctx: (Inr txCtx)
      have "state_ok st1" using v1 by (simp add: vet_sound_def)
      then obtain st2 where cp: "State_NewCheckpoint st1 = (length (smaps st1), st2)" "state_ok st2" "s_trie st2 = s_trie st1"
          "smaps st2 = smaps st1 @ [last (smaps st1)]" by (rule State_NewCheckpoint_ok)
      let ?ex = "\<lparr>ex_resolvedTx = r, ex_purchase = bought, ex_txCtx = txCtx, ex_checkpoint = length (smaps st1),
        ex_leftOverGas = tx_Gas tx - rx_IntrinsicGas r, ex_txOutputs = [], ex_reverted = False, ex_finalized = False\<rparr>"
      have ne: "smaps st1 \<noteq> []" using \<open>state_ok st1\<close> by (simp add: state_ok_def)
      have "vet_sound ?K ?D T st2" using v1 cp ne by (simp add: vet_sound_def list_all_last)
      then have "running E T (tx_Gas tx - rx_IntrinsicGas r) st1 cache ?ex st2"
        using c sizes r cp ne by (simp add: running_def)
      moreover have "PrepareTransaction E tx st = Some (st2, Inr ?ex)"
        using Inr buy bought b tc ctx cp(1) by (simp add: PrepareTransaction_def)
      ultimately show thesis using ready [of st2 ?ex r st1] Inr bk pu by simp
    qed
  qed
qed

lemma Finalize_tame:
  assumes "good (te_db E) st" and "purchased E r bt st0 st1 (ex_purchase ex)" and "UnprovedWork (te_lib E) (te_db E) (rx_tx (ex_resolvedTx ex)) = Some w"
    and "tx_Gas (rx_tx (ex_resolvedTx ex)) \<noteq> 0"
  shows "tame (te_db E) st (snd (Finalize E ex st))"
proof -
  obtain bgp gp payer prepaid return where b: "ex_purchase ex = (bgp, gp, payer, prepaid, return)" by (cases "ex_purchase ex") auto
  have over: "\<exists>p. OverallGasPrice (rx_tx (ex_resolvedTx ex)) bgp n = Some p" for n
    using assms(4) by (simp add: OverallGasPrice_def Let_def)
  show ?thesis
    using assms(1,2) b ProvedWork_defined [OF assms(3), of "bc_Number (rt_ctx (te_rt E)) - 1"] over
    by (auto simp: Finalize_def Let_def credits_defined intro!: tame_here tame_andthen tame_query Energy_Add_tame
        elim!: purchased_return split: option.split) (metis option.distinct(1))+
qed

lemma Finalize_receipt:
  assumes "snd (Finalize E ex st) = Some (st', Inr rc)" and "ex_purchase ex = (bgp, gp, payer, prepaid, return)"
  shows "rc_GasUsed rc = tx_Gas (rx_tx (ex_resolvedTx ex)) - ex_leftOverGas ex" and "rc_Paid rc = uint (rc_GasUsed rc) * gp"
    and "rc_GasPayer rc = payer" and "rc_Reverted rc = ex_reverted ex" and "rc_Outputs rc = ex_txOutputs ex"
    and "\<exists>st1 ratio p. return (ex_leftOverGas ex) st = Some (st1, Inr ()) \<and>
      Params_Get (te_codecs E) (te_db E) (Params_Address (te_lib E)) KeyRewardRatio st1 = Some (Inr ratio) \<and>
      (\<exists>n. OverallGasPrice (rx_tx (ex_resolvedTx ex)) bgp n = Some p) \<and> rc_Reward rc = uint (rc_GasUsed rc) * p * ratio div 1000000000000000000 \<and>
      Energy_Add (te_codecs E) (te_db E) (native_energy E (bc_Time (rt_ctx (te_rt E)))) (bc_Beneficiary (rt_ctx (te_rt E))) (rc_Reward rc) st1 =
        Some (st', Inr ())"
  using assms by (auto simp: Finalize_def Let_def andthen_def query_def split: if_splits option.splits sum.splits prod.splits)

section \<open>Energy moved by a transaction\<close>

definition energy_at :: "state_deps \<Rightarrow> u64 \<Rightarrow> State \<Rightarrow> address \<Rightarrow> int" where
  "energy_at D t st a = CalcEnergy (account_of D st a) t"

text \<open>
  \<open>moved D R e P f d st st'\<close>: bookkeeping that changes the energy of every account by \<open>f\<close> and the energy burned
  by \<open>- d\<close>, and the storage of the accounts \<open>P\<close> only.
\<close>

definition moved :: "state_deps \<Rightarrow> codecs \<Rightarrow> EnergyNative \<Rightarrow> address set \<Rightarrow> (address \<Rightarrow> int) \<Rightarrow> int \<Rightarrow> State \<Rightarrow> State \<Rightarrow> bool" where
  "moved D R e P f d st st' \<longleftrightarrow>
     booked D st st' \<and> (\<forall>a. energy_at D (e_blockTime e) st' a = energy_at D (e_blockTime e) st a + f a) \<and>
     (\<forall>b. TotalBurned R D e st = Some (Inr b) \<longrightarrow> TotalBurned R D e st' = Some (Inr (b - d))) \<and>
     (\<forall>x k. x \<notin> P \<longrightarrow> raw_of D st' x k = raw_of D st x k)"

lemma moved_refl: "good D st \<Longrightarrow> moved D R e P (\<lambda>a. 0) 0 st st"
  by (simp add: moved_def booked_refl)

lemma moved_trans:
  "moved D R e P f d st st' \<Longrightarrow> moved D R e P g c st' st'' \<Longrightarrow> moved D R e P (\<lambda>a. f a + g a) (d + c) st st''"
  unfolding moved_def by (auto intro: booked_trans simp: algebra_simps)

lemma moved_good: "moved D R e P f d st st' \<Longrightarrow> good D st'"
  by (simp add: moved_def booked_def)

lemma energy_written_moved:
  assumes "good D st" and "energy_written D R e tot' a (energy_at D (e_blockTime e) st a + v) st st'"
    and "getTotalAddSub R D e st = Some (Inr tot)" and "TotalSub tot' - TotalAdd tot' = TotalSub tot - TotalAdd tot - v" and "e_addr e \<in> P"
  shows "moved D R e P (\<lambda>b. if b = a then v else 0) v st st'"
proof -
  have "raw_of D st' x k = raw_of D st x k" if "x \<notin> P" for x k using assms(2,5) that by (cases "x = e_addr e") (simp_all add: energy_written_def)
  with assms(1-4) show ?thesis by (auto simp: moved_def energy_written_def booked_def good_def energy_at_def TotalBurned_def map_res_def)
qed

lemma Energy_Add_moved:
  assumes "Energy_Add R D e a v st = Some (st', Inr ())" and "good D st" and "codecs_ok R" and "0 \<le> v" and "e_addr e \<in> P"
  shows "moved D R e P (\<lambda>b. if b = a then v else 0) v st st'"
proof (cases "v = 0")
  case True
  with assms(1,2) show ?thesis using moved_refl by (simp add: Energy_Add_def cong: if_cong)
next
  case False
  have g: "state_ok st" "healthy D (s_trie st)" using assms(2) by (simp_all add: good_def)
  obtain tot where tot: "getTotalAddSub R D e st = Some (Inr tot)"
    using assms(1) False by (auto simp: Energy_Add_def query_def split: option.splits sum.splits)
  note nn = reads_nonneg(1) [OF g assms(3) tot]
  obtain st1 where "Energy_Add R D e a v st = Some (st1, Inr ())"
    and "energy_written D R e (tot\<lparr>TotalAdd := TotalAdd tot + v\<rparr>) a (CalcEnergy (account_of D st a) (e_blockTime e) + v) st st1"
    by (rule Energy_Add_of [OF g assms(3) tot, of v a]) (use nn False assms(4) in auto)
  with energy_written_moved [OF assms(2) _ tot _ assms(5), of _ a v st1] assms(1) show ?thesis by (simp add: energy_at_def)
qed

lemma Energy_Sub_moved:
  assumes "Energy_Sub R D e a v st = Some (st', Inr True)" and "good D st" and "codecs_ok R" and "0 \<le> v" and "e_addr e \<in> P"
  shows "moved D R e P (\<lambda>b. if b = a then - v else 0) (- v) st st'" and "v = 0 \<or> v \<le> energy_at D (e_blockTime e) st a"
proof -
  have g: "state_ok st" "healthy D (s_trie st)" using assms(2) by (simp_all add: good_def)
  show le: "v = 0 \<or> v \<le> energy_at D (e_blockTime e) st a"
    using assms(1) by (auto simp: Energy_Sub_def get_energy_of [OF g] energy_at_def split: if_splits)
  show "moved D R e P (\<lambda>b. if b = a then - v else 0) (- v) st st'"
  proof (cases "v = 0")
    case True
    with assms(1,2) show ?thesis using moved_refl by (simp add: Energy_Sub_def cong: if_cong)
  next
    case False
    obtain tot where tot: "getTotalAddSub R D e st = Some (Inr tot)"
      using assms(1) False by (auto simp: Energy_Sub_def query_def split: option.splits sum.splits if_splits)
    note nn = reads_nonneg(1) [OF g assms(3) tot]
    obtain st1 where "Energy_Sub R D e a v st = Some (st1, Inr True)"
      and "energy_written D R e (tot\<lparr>TotalSub := TotalSub tot + v\<rparr>) a (CalcEnergy (account_of D st a) (e_blockTime e) - v) st st1"
      by (rule Energy_Sub_of [OF g assms(3) tot, of v a]) (use nn False assms(4) le in \<open>auto simp: energy_at_def\<close>)
    with energy_written_moved [OF assms(2) _ tot _ assms(5), of _ a "- v" st1] assms(1) show ?thesis by (simp add: energy_at_def)
  qed
qed

lemma SetUserCredit_moved:
  assumes "SetUserCredit R D b u c t st = Some (st', Inr ())" and "good D st" and "b_addr b \<noteq> e_addr e" and "b_addr b \<in> P"
  shows "moved D R e P (\<lambda>a. 0) 0 st st'"
proof -
  have g: "state_ok st" "healthy D (s_trie st)" using assms(2) by (simp_all add: good_def)
  obtain uo where "setUserObject R D b u uo st = Some (st', Inr ())"
    using assms(1) by (auto simp: SetUserCredit_def query_def Let_def split: option.splits sum.splits)
  then obtain raw where "effect (State_EncodeStorage D (b_addr b) (userKey D b u) (Inr raw) st) = Some (st', Inr ())"
    unfolding setUserObject_def by (cases "if user_IsEmpty uo then Inr [] else enc_user R uo") (auto simp: State_EncodeStorage_def)
  moreover obtain st1 where "effect (State_EncodeStorage D (b_addr b) (userKey D b u) (Inr raw) st) = Some (st1, Inr ())"
    and "written (StorageKey (b_addr b) (barrier_of st (b_addr b)) (userKey D b u)) (RawVal raw) st st1"
    by (rule encode_of [OF g(1)])
  ultimately have w: "written (StorageKey (b_addr b) (barrier_of st (b_addr b)) (userKey D b u)) (RawVal raw) st st'" by simp
  have bk: "booked D st st'" by (rule written_booked [OF assms(2) w]) simp_all
  then have g': "state_ok st'" "healthy D (s_trie st')" using booked_good by (auto simp: good_def)
  have raws: "raw_of D st' x k = raw_of D st x k" if "x \<noteq> b_addr b" for x k
    using values_written(3) [OF w, of D x k] that by auto
  have "TotalBurned R D e st' = TotalBurned R D e st"
    using raws [of "e_addr e"] assms(3) by (simp add: TotalBurned_def getTotalAddSub_def decode_of [OF g] decode_of [OF g'])
  moreover have "energy_at D (e_blockTime e) st' a = energy_at D (e_blockTime e) st a" for a
    using values_written(1) [OF w, of D a] by (simp add: energy_at_def)
  moreover have "raw_of D st' x k = raw_of D st x k" if "x \<notin> P" for x k using raws [of x] assms(4) that by (cases "x = b_addr b") auto
  ultimately show ?thesis using bk by (auto simp: moved_def)
qed

text \<open>The state reads the same when the top level and the trie are the same.\<close>

lemma same_top_moved:
  assumes "good D st'" and "s_trie st' = s_trie st" and "smaps st' = smaps st" and "good D st"
  shows "moved D R e P (\<lambda>a. 0) 0 st st'"
proof -
  have g: "state_ok st" "healthy D (s_trie st)" "state_ok st'" "healthy D (s_trie st')" using assms(1,4) by (simp_all add: good_def)
  have "account_of D st' a = account_of D st a" "code_of D st' a = code_of D st a" for a
    using assms(2,3) by (simp_all add: account_at_top)
  moreover have raws: "raw_of D st' x k = raw_of D st x k" for x k
    using assms(2,3) by (simp add: raw_of_def cur_def barrier_of_def split: option.split)
  moreover have "TotalBurned R D e st' = TotalBurned R D e st"
    by (simp add: TotalBurned_def getTotalAddSub_def decode_of [OF g(1,2)] decode_of [OF g(3,4)] raws)
  ultimately show ?thesis using assms by (simp add: moved_def booked_def energy_at_def)
qed

lemma return_moved:
  assumes "purchased E r (e_blockTime e) st0 st1 (bgp, gp, payer, prepaid, return)" and "e = native_energy E t" and "tx_env_ok E"
    and "return rgas st = Some (st', Inr ())" and "good (te_db E) st" and "0 \<le> gp"
    and "P = {Energy_Address (rt_deps (te_rt E)), Prototype_Address (te_lib E)}"
  shows "moved (te_db E) (te_codecs E) e P (\<lambda>b. if b = payer then uint rgas * gp else 0) (uint rgas * gp) st st'"
proof -
  let ?D = "te_db E" and ?R = "te_codecs E"
  have e: "native_energy E (e_blockTime e) = e" "e_addr e \<in> P" using assms(2,7) by (simp_all add: native_energy_def)
  have R: "codecs_ok ?R" using assms(3) by (simp add: tx_env_ok_def)
  obtain st2 where add: "Energy_Add ?R ?D e payer (uint rgas * gp) st = Some (st2, Inr ())"
    and rest: "st' = st2 \<or> (\<exists>to u c. SetUserCredit ?R ?D \<lparr>b_addr = Prototype_Address (te_lib E), b_self = to\<rparr> u c (e_blockTime e) st2 = Some (st', Inr ()))"
    using assms(1,4) unfolding purchased_def
    by (auto simp: returnGas_def doReturnGasAndSetCredit_def doReturnGas_def e(1) andthen_def Let_def split: option.splits sum.splits prod.splits) blast
  have m: "moved ?D ?R e P (\<lambda>b. if b = payer then uint rgas * gp else 0) (uint rgas * gp) st st2"
    by (rule Energy_Add_moved [OF add assms(5) R _ e(2)]) (use assms(6) in simp)
  have "moved ?D ?R e P (\<lambda>a. 0) 0 st2 st'"
    using rest
  proof
    assume "st' = st2"
    with moved_refl [OF moved_good [OF m]] show ?thesis by simp
  next
    assume "\<exists>to u c. SetUserCredit ?R ?D \<lparr>b_addr = Prototype_Address (te_lib E), b_self = to\<rparr> u c (e_blockTime e) st2 = Some (st', Inr ())"
    then obtain to u c where "SetUserCredit ?R ?D \<lparr>b_addr = Prototype_Address (te_lib E), b_self = to\<rparr> u c (e_blockTime e) st2 = Some (st', Inr ())" by blast
    from SetUserCredit_moved [OF this moved_good [OF m], of e P] assms(2,3,7) show ?thesis
      by (simp add: tx_env_ok_def native_energy_def)
  qed
  with moved_trans [OF m this] show ?thesis by simp
qed

section \<open>Main theorems\<close>

lemma left_not_max:
  fixes gas g :: u64
  assumes "0 < g" and "g \<le> gas"
  shows "gas - g \<noteq> -1" and "unat (gas - g) \<le> unat gas" and "gas \<noteq> 0"
proof -
  have u: "unat (gas - g) = unat gas - unat g" using assms(2) by (simp add: unat_sub)
  moreover have "0 < unat g" "unat g \<le> unat gas" using assms by (simp_all add: word_less_nat_alt word_le_nat_alt)
  moreover have "unat (-1 :: u64) = 18446744073709551615" by (simp add: unsigned_minus_1_eq_mask mask_eq_exp_minus_1)
  moreover have "unat gas < 18446744073709551616" by simp
  ultimately have "unat (gas - g) \<noteq> unat (-1 :: u64)" by linarith
  then show "gas - g \<noteq> -1" by auto
  show "unat (gas - g) \<le> unat gas" "gas \<noteq> 0" using u assms by auto
qed

lemma gas_used_bounds:
  fixes gas g left :: u64
  assumes "g \<le> gas" and "left \<le> gas - g"
  shows "g \<le> gas - left" and "gas - left \<le> gas"
proof -
  have "unat (gas - g) = unat gas - unat g" using assms(1) by (simp add: unat_sub)
  moreover have l: "unat left \<le> unat (gas - g)" "unat g \<le> unat gas" using assms by (simp_all add: word_le_nat_alt)
  moreover from calculation have "left \<le> gas" by (simp add: word_le_nat_alt)
  ultimately show "g \<le> gas - left" "gas - left \<le> gas" by (simp_all add: word_le_nat_alt unat_sub)
qed

lemma running_good: "running E T gas st0 cache ex st \<Longrightarrow> good (te_db E) st"
  unfolding running_def vet_sound_def good_def by blast

text \<open>
  The outcome of a transaction whose preparation succeeds: the clauses are executed until the end or
  the first failure, and the bookkeeping of \<open>Finalize\<close> follows.
\<close>

lemma execute_ready:
  assumes env: "tx_env_ok E" and sizes: "\<forall>c\<in>set (tx_Clauses tx). length (cl_Data c) \<le> max_code"
    and w: "UnprovedWork (te_lib E) (te_db E) tx = Some work" and fuel: "unat (tx_Gas tx) < fuel"
    and p: "PrepareTransaction E tx st = Some (st2, Inr ex)" "ResolveTransaction E tx = Inr r"
      "purchased E r (bc_Time (rt_ctx (te_rt E))) st st1 (ex_purchase ex)" "ex_resolvedTx ex = r" "\<not> ex_finalized ex"
      "running E T (tx_Gas tx - rx_IntrinsicGas r) st1 cache ex st2"
  obtains ex' st3 cache' t' st4 res where "ExecuteTransaction fuel E cache tx st t = Some (st4, res, cache', t')"
    and "running E T (tx_Gas tx - rx_IntrinsicGas r) st1 cache' ex' st3" and "\<not> HasNextClause ex'" and "ex_resolvedTx ex' = r"
    and "ex_purchase ex' = ex_purchase ex" and "snd (Finalize E ex' st3) = Some (st4, res)" and "booked (te_db E) st3 st4"
proof -
  note r = ResolveTransaction_Inr [OF p(2)]
  have i: "0 < rx_IntrinsicGas r" by (rule intrinsic_pos [OF env sizes r(4)])
  note g = left_not_max [OF i r(3)]
  have f: "unat (tx_Gas tx - rx_IntrinsicGas r) < fuel" using g(2) fuel by linarith
  from exec_clauses_ok [OF env p(6) f g(1), of t] obtain ex' st3 cache' t' where
    x: "exec_clauses fuel E cache ex st2 t = Some (ex', st3, cache', t')" "running E T (tx_Gas tx - rx_IntrinsicGas r) st1 cache' ex' st3"
      "\<not> HasNextClause ex'" "ex_resolvedTx ex' = r" "ex_purchase ex' = ex_purchase ex"
    using p(4) by auto
  have "good (te_db E) st3" by (rule running_good [OF x(2)])
  moreover have "purchased E r (bc_Time (rt_ctx (te_rt E))) st st1 (ex_purchase ex')" using p(3) x(5) by simp
  ultimately have "tame (te_db E) st3 (snd (Finalize E ex' st3))"
    by (rule Finalize_tame) (use w x(4) r(1) g(3) in simp_all)
  then obtain st4 res where y: "snd (Finalize E ex' st3) = Some (st4, res)" "booked (te_db E) st3 st4" by (auto simp: tame_def)
  have "ExecuteTransaction fuel E cache tx st t = Some (st4, res, cache', t')"
    using p(1) x(1) y(1) by (simp add: ExecuteTransaction_def)
  then show thesis using x(2-5) y by (rule that)
qed



section \<open>Concrete instances\<close>

definition demo_te :: "unit TxEnv" where
  "demo_te =
     \<lparr>te_rt = demo_rt, te_codecs = demo_codecs, te_lib = demo_tx_deps, te_CaptureClauseStart = (\<lambda>g t. t),
      te_CaptureClauseEnd = (\<lambda>g t. t)\<rparr>"

lemma demo_te_fields [simp]:
  "te_rt demo_te = demo_rt" "te_codecs demo_te = demo_codecs" "te_lib demo_te = demo_tx_deps"
  "rt_Tracer demo_rt = None" "bc_Time (rt_ctx demo_rt) = 10" "bc_Beneficiary (rt_ctx demo_rt) = 2" "Energy_Address (rt_deps demo_rt) = 9"
  "Params_Address demo_tx_deps = 5" "Prototype_Address demo_tx_deps = 6"
  by (simp_all add: demo_te_def demo_rt_def demo_tx_deps_def)

lemma demo_te_ok: "tx_env_ok demo_te"
  by (simp add: tx_env_ok_def demo_rt_ok demo_codecs_ok) (simp add: demo_tx_deps_def)

lemma demo_work: "UnprovedWork demo_tx_deps demo_db demo_tx \<noteq> None"
proof -
  have eight: "nat_be 8 1 = nat_be 7 0 @ [1]" using nat_be.simps(2) [of 7 1] by simp
  have "unat (be_word ((xs @ nat_be 7 0) @ [1]) :: hash) mod 256 = 1" for xs by (subst be_word_low) simp
  then have "(be_word (xs @ nat_be 8 1) :: hash) \<noteq> 0" for xs unfolding eight by (metis append_assoc mod_0 unat_0 zero_neq_one)
  then show ?thesis by (simp add: uint_0_iff UnprovedWork_def EvaluateWork_def Let_def demo_db_def demo_tx_def Origin_of_def validateSignatureLength_def
      IsDelegated_def demo_tx_deps_def)
qed

lemma demo_intrinsic: "IntrinsicGas demo_lib demo_tx_deps (tx_Clauses demo_tx) = Inr 21000"
  by (simp add: IntrinsicGas_def demo_tx_def dataGas_def IsCreatingContract_def demo_lib_def demo_tx_deps_def ClauseGas_def)

lemma demo_resolved:
  "ResolveTransaction demo_te demo_tx =
     Inr \<lparr>rx_tx = demo_tx, rx_Origin = 1, rx_Delegator = None, rx_IntrinsicGas = 21000, rx_Clauses = tx_Clauses demo_tx\<rparr>"
proof -
  have "Origin_of demo_tx_deps demo_db demo_tx = Inr 1" "Delegator demo_tx_deps demo_db demo_tx = Inr None"
    by (simp_all add: Origin_of_def Delegator_def validateSignatureLength_def IsDelegated_def demo_tx_def demo_tx_deps_def)
  moreover have "check_values (tx_Clauses demo_tx) 0 = None" "\<not> tx_Gas demo_tx < 21000" by (simp_all add: demo_tx_def MaxBig256_def)
  ultimately show ?thesis by (simp add: ResolveTransaction_def demo_intrinsic)
qed

lemma demo_sizes: "\<forall>c\<in>set (tx_Clauses demo_tx). length (cl_Data c) \<le> max_code" "unat (tx_Gas demo_tx) < 21051"
  by (simp_all add: demo_tx_def)

text \<open>A state with 100 tokens and energy on one account, and a base gas price.\<close>

lemma demo_paid_state:
  obtains st1 st2 st where "State_SetBalance demo_db 1 100 (NewState demo_root) = Some (st1, None)"
    and "Params_Set demo_codecs demo_db 5 KeyBaseGasPrice 2 st1 = Some (st2, Inr ())"
    and "State_SetEnergy demo_db 1 100000 10 st2 = Some (st, None)"
    and "vet_sound (K_of demo_rt) demo_db 100 st" and "raw_of demo_db st 5 KeyBaseGasPrice = enc_nats [2]"
    and "\<forall>a k. a \<noteq> 5 \<or> k \<noteq> KeyBaseGasPrice \<longrightarrow> raw_of demo_db st a k = []" and "energy_at demo_db 10 st 1 = 100000"
proof (rule demo_funded)
  fix st1
  assume st1: "State_SetBalance demo_db 1 100 (NewState demo_root) = Some (st1, None)" "vet_sound (K_of demo_rt) demo_db 100 st1"
  note g0 = fresh_state(1,2)
  have w1: "written (AccountKey 1) (AccountVal ((account_of demo_db (NewState demo_root) 1)\<lparr>Balance := 100\<rparr>)) (NewState demo_root) st1"
    by (rule write_account_of [OF g0, of 1 "\<lambda>a. a\<lparr>Balance := 100\<rparr>"]) (use st1(1) in \<open>simp add: State_SetBalance_def\<close>)
  have g1: "good demo_db st1" using st1(2) by (simp add: vet_sound_def good_def)
  then have ok1: "state_ok st1" "healthy demo_db (s_trie st1)" by (simp_all add: good_def)
  obtain st2 where st2: "effect (State_EncodeStorage demo_db 5 KeyBaseGasPrice (Inr (enc_nats [2])) st1) = Some (st2, Inr ())"
    and w2: "written (StorageKey 5 (barrier_of st1 5) KeyBaseGasPrice) (RawVal (enc_nats [2])) st1 st2" by (rule encode_of [OF ok1(1)])
  have b2: "booked demo_db st1 st2" by (rule written_booked [OF g1 w2]) simp_all
  have g2: "good demo_db st2" by (rule booked_good [OF b2])
  then have ok2: "state_ok st2" "healthy demo_db (s_trie st2)" by (simp_all add: good_def)
  obtain st where st: "effect (State_SetEnergy demo_db 1 100000 10 st2) = Some (st, Inr ())"
    and w3: "written (AccountKey 1) (AccountVal ((account_of demo_db st2 1)\<lparr>Energy := 100000, BlockTime := 10\<rparr>)) st2 st"
    by (rule set_energy_of [OF ok2])
  have b3: "booked demo_db st2 st" by (rule written_booked [OF g2 w3]) auto
  show thesis
  proof (rule that [of st1 st2 st])
    show "Params_Set demo_codecs demo_db 5 KeyBaseGasPrice 2 st1 = Some (st2, Inr ())"
      using st2 by (simp add: Params_Set_def demo_codecs_def)
    show "State_SetEnergy demo_db 1 100000 10 st2 = Some (st, None)"
      using st by (auto simp: effect_def split: option.splits)
    show "vet_sound (K_of demo_rt) demo_db 100 st" by (rule booked_sound [OF booked_sound [OF st1(2) b2] b3])
    show "raw_of demo_db st 5 KeyBaseGasPrice = enc_nats [2]"
      using values_written(3) [OF w3] values_written(3) [OF w2] by simp
    show "\<forall>a k. a \<noteq> 5 \<or> k \<noteq> KeyBaseGasPrice \<longrightarrow> raw_of demo_db st a k = []"
      using values_written(3) [OF w3] values_written(3) [OF w2] values_written(3) [OF w1] by (auto simp: fresh_state(4))
    show "energy_at demo_db 10 st 1 = 100000"
      using values_written(1) [OF w3, of demo_db 1] by (simp add: energy_at_def)
  qed (use st1(1) in simp)
qed

lemma demo_reads:
  assumes "good demo_db st" and "raw_of demo_db st 5 KeyBaseGasPrice = enc_nats [2]"
    and "\<forall>a k. a \<noteq> 5 \<or> k \<noteq> KeyBaseGasPrice \<longrightarrow> raw_of demo_db st a k = []"
  shows "Params_Get demo_codecs demo_db 5 KeyBaseGasPrice st = Some (Inr 2)"
    and "getTotalAddSub demo_codecs demo_db (native_energy demo_te 10) st = Some (Inr \<lparr>TotalAdd = 0, TotalSub = 0\<rparr>)"
    and "UserCredit demo_codecs demo_db \<lparr>b_addr = 6, b_self = 2\<rparr> 1 10 st = Some (Inr 0)"
proof -
  have g: "state_ok st" "healthy demo_db (s_trie st)" using assms(1) by (simp_all add: good_def)
  show "Params_Get demo_codecs demo_db 5 KeyBaseGasPrice st = Some (Inr 2)"
    using assms(2) by (simp add: Params_Get_def decode_of [OF g] stored_def enc_nats_nonempty) (simp add: demo_codecs_def dec_at_def dec_enc_nats)
  show "getTotalAddSub demo_codecs demo_db (native_energy demo_te 10) st = Some (Inr \<lparr>TotalAdd = 0, TotalSub = 0\<rparr>)"
    using assms(3) by (simp add: getTotalAddSub_def decode_of [OF g] stored_def native_energy_def)
  show "UserCredit demo_codecs demo_db \<lparr>b_addr = 6, b_self = 2\<rparr> 1 10 st = Some (Inr 0)"
    using assms(3) by (simp add: UserCredit_def getUserObject_def decode_of [OF g] stored_def user_IsEmpty_def)
qed

lemma demo_proved: "n \<le> 5 \<Longrightarrow> ProvedWork demo_tx_deps demo_db demo_tx n = Some (Inr 0)"
proof -
  assume "n \<le> 5"
  moreover have "unat (Number (BlockRef demo_tx)) = 5" by (simp add: ref_Number demo_tx_def)
  then have "Number (BlockRef demo_tx) = 5" by (simp add: word_unat_eq_iff)
  ultimately show ?thesis by (simp add: ProvedWork_def Let_def)
qed

lemma demo_buys:
  assumes "good demo_db st" and "raw_of demo_db st 5 KeyBaseGasPrice = enc_nats [2]"
    and "\<forall>a k. a \<noteq> 5 \<or> k \<noteq> KeyBaseGasPrice \<longrightarrow> raw_of demo_db st a k = []" and "energy_at demo_db 10 st 1 = 100000"
  obtains st1 ex where "PrepareTransaction demo_te demo_tx st = Some (snd (State_NewCheckpoint st1), Inr ex)"
    and "ex_purchase ex = (2, 2, 1, 42100, returnGas demo_te 10 2 1)" and "tc_Origin (ex_txCtx ex) = 1" and "ex_leftOverGas ex = 50"
    and "\<not> ex_reverted ex" and "ex_txOutputs ex = []" and "rx_Clauses (ex_resolvedTx ex) = tx_Clauses demo_tx"
proof -
  let ?e = "native_energy demo_te 10"
  let ?r = "\<lparr>rx_tx = demo_tx, rx_Origin = 1, rx_Delegator = None, rx_IntrinsicGas = 21000, rx_Clauses = tx_Clauses demo_tx\<rparr>"
  note reads = demo_reads [OF assms(1-3)]
  have g: "state_ok st" "healthy demo_db (s_trie st)" using assms(1) by (simp_all add: good_def)
  have e: "e_blockTime ?e = 10" by (simp add: native_energy_def)
  obtain st1 where sub: "Energy_Sub demo_codecs demo_db ?e 1 42100 st = Some (st1, Inr True)"
    by (rule Energy_Sub_of [OF g demo_codecs_ok reads(2), of 42100 1]) (use assms(4) e in \<open>simp_all add: energy_at_def\<close>)
  have "GasPrice_of demo_tx 2 = 2" "CommonTo ?r = Some 2" "tx_Gas demo_tx = 21050"
    by (simp_all add: GasPrice_of_def demo_tx_def CommonTo_def)
  then have buy: "BuyGas demo_te ?r 10 st = Some (st1, Inr (2, 2, 1, 42100, returnGas demo_te 10 2 1))"
    using reads sub by (simp add: BuyGas_def deduct_def)
  have "ToContext demo_te ?r 2 1 1 \<noteq> None" "\<And>tc. ToContext demo_te ?r 2 1 1 = Some (Inr tc) \<Longrightarrow> tc_Origin tc = 1"
    and "\<exists>tc. ToContext demo_te ?r 2 1 1 = Some (Inr tc)"
    by (auto simp: ToContext_def demo_proved map_res_def)
  then obtain tc where tc: "ToContext demo_te ?r 2 1 1 = Some (Inr tc)" "tc_Origin tc = 1" by blast
  show thesis
    by (rule that [of st1 "\<lparr>ex_resolvedTx = ?r, ex_purchase = (2, 2, 1, 42100, returnGas demo_te 10 2 1), ex_txCtx = tc,
          ex_checkpoint = fst (State_NewCheckpoint st1), ex_leftOverGas = 50, ex_txOutputs = [], ex_reverted = False, ex_finalized = False\<rparr>"])
      (use tc buy \<open>tx_Gas demo_tx = 21050\<close> in \<open>simp_all add: PrepareTransaction_def demo_resolved split: prod.split\<close>)
qed

lemma demo_reverts:
  assumes "vet_sound (K_of demo_rt) demo_db 100 st" and "raw_of demo_db st 5 KeyBaseGasPrice = enc_nats [2]"
    and "\<forall>a k. a \<noteq> 5 \<or> k \<noteq> KeyBaseGasPrice \<longrightarrow> raw_of demo_db st a k = []" and "energy_at demo_db 10 st 1 = 100000"
  obtains st' rc cache' t' where "ExecuteTransaction 21051 demo_te Map.empty demo_tx st () = Some (st', Inr rc, cache', t')" and "rc_Reverted rc"
proof -
  have g: "good demo_db st" using assms(1) by (simp add: vet_sound_def good_def)
  obtain st1 ex where p: "PrepareTransaction demo_te demo_tx st = Some (snd (State_NewCheckpoint st1), Inr ex)"
      "ex_purchase ex = (2, 2, 1, 42100, returnGas demo_te 10 2 1)" "tc_Origin (ex_txCtx ex) = 1" "ex_leftOverGas ex = 50"
      "\<not> ex_reverted ex" "ex_txOutputs ex = []" "rx_Clauses (ex_resolvedTx ex) = tx_Clauses demo_tx"
    by (rule demo_buys [OF g assms(2-4)])
  obtain work where w: "UnprovedWork (te_lib demo_te) (te_db demo_te) demo_tx = Some work" using demo_work by auto
  have v: "vet_sound (K_of (te_rt demo_te)) (te_db demo_te) 100 st" "cache_fits (rt_lib (te_rt demo_te)) Map.empty"
    using assms(1) by (simp_all add: cache_fits_def)
  obtain st0 st2 r where run: "PrepareTransaction demo_te demo_tx st = Some (st2, Inr ex)" "ResolveTransaction demo_te demo_tx = Inr r"
      "purchased demo_te r 10 st st0 (ex_purchase ex)" "ex_resolvedTx ex = r" "\<not> ex_finalized ex"
      "running demo_te 100 (tx_Gas demo_tx - rx_IntrinsicGas r) st0 Map.empty ex st2"
    by (rule Prepare_cases [OF demo_te_ok v demo_sizes(1) w]) (use p(1) in auto)
  have gas: "tx_Gas demo_tx - rx_IntrinsicGas r = 50" using run(2) demo_resolved by (auto simp: demo_tx_def)
  have more: "HasNextClause ex" using p(5-7) by (simp add: HasNextClause_def demo_tx_def)
  obtain used out ex' st3 cache' t' where x: "exec_next 21051 demo_te Map.empty ex st2 () = Some (used, out, ex', st3, cache', t')"
    and run': "running demo_te 100 50 st0 cache' ex' st3"
    by (rule exec_next_ok [OF demo_te_ok run(6) [unfolded gas] more, of 21051 "()"]) simp_all
  have "vet_sound (K_of demo_rt) demo_db 100 st2" using run(6) by (simp add: running_def)
  from demo_clause_fails [OF this, of 50 21051 "ex_txCtx ex" 0] p(3) obtain out' s c u where
    "exec_clause 21051 demo_rt Map.empty \<lparr>cl_To = Some 2, cl_Value = 300, cl_Data = []\<rparr> 0 50 (ex_txCtx ex) st2 () = Some (out', s, c, u)"
    "out_VMErr out' = Some ErrInsufficientBalance" by auto
  then have rev: "ex_reverted ex'"
    using x p(4,6,7) by (auto simp: exec_next_def demo_tx_def Let_def bind_eq_Some_conv)
  have stop: "\<not> HasNextClause ex'" using rev by (simp add: HasNextClause_def)
  have all: "exec_clauses 21051 demo_te Map.empty ex st2 () = Some (ex', st3, cache', t')"
    by (subst exec_clauses.simps) (simp add: more x exec_clauses.simps [of _ _ _ ex'] stop)
  let ?e = "native_energy demo_te 10" and ?P = "{Energy_Address (rt_deps (te_rt demo_te)), Prototype_Address (te_lib demo_te)}"
  have e: "e_blockTime ?e = 10" "e_addr ?e \<in> ?P" by (simp_all add: native_energy_def)
  have "Energy_Sub demo_codecs demo_db ?e 1 42100 st = Some (st0, Inr True)" using run(3) p(2) by (simp add: purchased_def)
  note m1 = Energy_Sub_moved(1) [OF this g demo_codecs_ok _ e(2), simplified]
  have g3: "good demo_db st3" using running_good [OF run'] by simp
  have m2: "moved demo_db demo_codecs ?e ?P (\<lambda>a. 0) 0 st0 st3"
    by (rule same_top_moved [OF g3 _ _ moved_good [OF m1]]) (use run' rev in \<open>simp_all add: running_def\<close>)
  have "TotalBurned demo_codecs demo_db ?e st = Some (Inr 0)"
    unfolding TotalBurned_def demo_reads(2) [OF g assms(2,3)] by (simp add: map_res_def)
  then have "\<exists>b. TotalBurned demo_codecs demo_db ?e st3 = Some (Inr b)" using m1 m2 by (auto simp: moved_def)
  then obtain tot where tot: "getTotalAddSub demo_codecs demo_db ?e st3 = Some (Inr tot)"
    by (auto simp: TotalBurned_def map_res_def map_sum_Inr)
  have ok3: "state_ok st3" "healthy demo_db (s_trie st3)" using g3 by (simp_all add: good_def)
  obtain st4 where st4: "Energy_Add demo_codecs demo_db ?e 1 (uint (ex_leftOverGas ex') * 2) st3 = Some (st4, Inr ())"
  proof (cases "ex_leftOverGas ex' = 0")
    case True
    then show thesis using that by (simp add: Energy_Add_def)
  next
    case False
    then have "0 < uint (ex_leftOverGas ex') * 2" by (simp add: word_neq_0_conv word_less_def)
    note nn = reads_nonneg(1) [OF ok3 demo_codecs_ok tot]
    show thesis
      by (rule Energy_Add_of [OF ok3 demo_codecs_ok tot nn [THEN conjunct1] nn [THEN conjunct2], of "uint (ex_leftOverGas ex') * 2" 1])
        (use \<open>0 < uint (ex_leftOverGas ex') * 2\<close> that in simp_all)
  qed
  note m3 = Energy_Add_moved [OF st4 g3 demo_codecs_ok _ e(2), simplified]
  have g4: "state_ok st4" "healthy demo_db (s_trie st4)" using moved_good [OF m3] by (simp_all add: good_def)
  have "KeyRewardRatio \<noteq> KeyBaseGasPrice"
    using be_word_last [of "str ''reward-rati''" "of_char CHR ''o''" "str ''base-gas-pric''" "of_char CHR ''e''"]
    by (auto simp: KeyRewardRatio_def KeyBaseGasPrice_def str_def)
  then have "raw_of demo_db st4 5 KeyRewardRatio = []" using m1 m2 m3 assms(3) by (simp add: moved_def)
  then have ratio: "Params_Get demo_codecs demo_db 5 KeyRewardRatio st4 = Some (Inr 0)" by (simp add: Params_Get_def decode_of [OF g4] stored_def)
  have pur: "ex_purchase ex' = (2, 2, 1, 42100, returnGas demo_te 10 2 1)" "\<not> ex_finalized ex'" "rx_tx (ex_resolvedTx ex') = demo_tx"
    using exec_next_progress [OF x] p(2) run(4,5) ResolveTransaction_Inr(1) [OF run(2)] by simp_all
  have "OverallGasPrice demo_tx 2 0 = Some (GasPrice_of demo_tx 2)" by (simp add: OverallGasPrice_def)
  then obtain rc where fin: "snd (Finalize demo_te ex' st3) = Some (st4, Inr rc)" "rc_Reverted rc"
    using stop pur st4 ratio rev
    by (auto simp: Finalize_def Let_def returnGas_def doReturnGas_def demo_proved) (simp add: Energy_Add_def)
  from all fin(1) run(1) have "ExecuteTransaction 21051 demo_te Map.empty demo_tx st () = Some (st4, Inr rc, cache', t')"
    by (simp add: ExecuteTransaction_def)
  then show thesis using fin(2) by (rule that)
qed



end
