(* ===== verification/Encodings.thy ===== *)
theory Encodings
  imports Prelude "HOL-Library.Monad_Syntax"
begin

text \<open>
  Three small encodings: the keys of trie nodes (src/trie/encoding.go), the gas limit of a block
  (src/block/gas_limit.go), and the sequence numbers of logs (src/logdb/sequence.go).
\<close>

unbundle bit_operations_syntax

section \<open>Keys of the trie\<close>

definition hasTerm :: "bytes \<Rightarrow> bool" where
  "hasTerm s \<longleftrightarrow> s \<noteq> [] \<and> last s = 16"

text \<open>The second argument is the slice that is written; an index out of its range or of the nibbles is a panic.\<close>

fun decodeNibbles :: "bytes \<Rightarrow> bytes \<Rightarrow> bytes option" where
  "decodeNibbles [] bs = Some bs"
| "decodeNibbles (x # y # nibbles) (b # bs) = map_option (Cons (push_bit 4 x OR y)) (decodeNibbles nibbles bs)"
| "decodeNibbles _ _ = None"

definition hexToCompact :: "bytes \<Rightarrow> bytes option" where
  "hexToCompact hex =
     (let (terminator, hex) = (if hasTerm hex then (1, butlast hex) else (0 :: byte, hex));
          buf = replicate (length hex div 2 + 1) 0;
          (flag, hex) = (if odd (length hex) then (push_bit 5 terminator OR 0x10 OR hd hex, tl hex) else (push_bit 5 terminator, hex))
      in map_option (Cons flag) (decodeNibbles hex (tl buf)))"

definition compactLen :: "bytes \<Rightarrow> nat" where
  "compactLen hex = (if hasTerm hex then length hex - 1 else length hex) div 2 + 1"

fun append_pairs :: "bytes \<Rightarrow> bytes \<Rightarrow> bytes option" where
  "append_pairs buf [] = Some buf"
| "append_pairs buf [x] = None"
| "append_pairs buf (x # y # hex) = append_pairs (buf @ [push_bit 4 x OR y]) hex"

definition appendHexToCompact :: "bytes \<Rightarrow> bytes \<Rightarrow> bytes option" where
  "appendHexToCompact buf hex =
     (let (terminator, hex) = (if hasTerm hex then (1, butlast hex) else (0 :: byte, hex));
          (b0, hex) = (if odd (length hex) then (push_bit 5 terminator OR 0x10 OR hd hex, tl hex) else (push_bit 5 terminator, hex))
      in append_pairs (buf @ [b0]) hex)"

definition keybytesToHex :: "bytes \<Rightarrow> bytes" where
  "keybytesToHex str = concat (map (\<lambda>b. [b div 16, b mod 16]) str) @ [16]"

definition hexToKeybytes :: "bytes \<Rightarrow> bytes option" where
  "hexToKeybytes hex =
     (let hex = (if hasTerm hex then butlast hex else hex)
      in if odd (length hex) then None else decodeNibbles hex (replicate (length hex div 2) 0))"

definition compactToHex :: "bytes \<Rightarrow> bytes" where
  "compactToHex compact =
     (if compact = [] then compact
      else
        let base = keybytesToHex compact;
            base = (if hd base < 2 then butlast base else base);
            chop = 2 - (hd base AND 1)
        in drop (unat chop) base)"

definition prefixLen :: "bytes \<Rightarrow> bytes \<Rightarrow> nat" where
  "prefixLen a b = length (takeWhile (\<lambda>(x, y). x = y) (zip a b))"

text \<open>The keys that the trie uses: nibbles, with or without the terminator.\<close>

definition hex_key :: "bytes \<Rightarrow> bool" where
  "hex_key hex \<longleftrightarrow> (\<exists>ns. (\<forall>n\<in>set ns. n < 16) \<and> (hex = ns \<or> hex = ns @ [16]))"

lemma pair_nibbles:
  fixes x y :: byte
  assumes "x < 16" and "y < 16"
  shows "(push_bit 4 x OR y) div 16 = x" and "(push_bit 4 x OR y) mod 16 = y"
proof -
  have t: "take_bit 4 x = x" "take_bit 4 y = y" using assms by (simp_all add: take_bit_eq_mod mod_word_less)
  have "drop_bit 4 (push_bit 4 (take_bit 4 x) OR take_bit 4 y) = take_bit 4 x"
    by (rule bit_word_eqI) (auto simp: bit_simps)
  then show "(push_bit 4 x OR y) div 16 = x" by (simp add: t drop_bit_eq_div)
  have "take_bit 4 (push_bit 4 x OR take_bit 4 y) = take_bit 4 y"
    by (rule bit_word_eqI) (auto simp: bit_simps)
  then show "(push_bit 4 x OR y) mod 16 = y" using assms(2) by (simp add: take_bit_eq_mod mod_word_less)
qed

definition nibbles_of :: "bytes \<Rightarrow> bytes" where
  "nibbles_of bs = concat (map (\<lambda>b. [b div 16, b mod 16]) bs)"

lemma decode_ok:
  assumes "\<forall>n\<in>set ns. n < 16" and "length ns = 2 * k"
  shows "\<exists>bs. decodeNibbles ns (replicate k 0) = Some bs \<and> nibbles_of bs = ns \<and> length bs = k \<and> append_pairs buf ns = Some (buf @ bs)"
  using assms
proof (induction k arbitrary: ns buf)
  case 0
  then show ?case by (simp add: nibbles_of_def)
next
  case (Suc k)
  then obtain x y ns' where ns: "ns = x # y # ns'" by (cases ns; cases "tl ns") auto
  with Suc.prems have "\<forall>n\<in>set ns'. n < 16" "length ns' = 2 * k" by simp_all
  from Suc.IH [OF this, of "buf @ [push_bit 4 x OR y]"] obtain bs where
    bs: "decodeNibbles ns' (replicate k 0) = Some bs" "nibbles_of bs = ns'" "length bs = k"
      "append_pairs (buf @ [push_bit 4 x OR y]) ns' = Some ((buf @ [push_bit 4 x OR y]) @ bs)" by blast
  moreover have "nibbles_of ((push_bit 4 x OR y) # bs) = ns"
    using pair_nibbles [of x y] Suc.prems(1) bs(2) by (simp add: nibbles_of_def ns)
  ultimately show ?case by (simp add: ns)
qed

lemma no_term: "\<forall>n\<in>set ns. n < (16 :: byte) \<Longrightarrow> \<not> hasTerm ns"
  by (auto simp: hasTerm_def dest!: last_in_set)

text \<open>The flag byte carries the terminator, the parity, and the first nibble of a key of odd length.\<close>

definition flag_byte :: "bool \<Rightarrow> bytes \<Rightarrow> byte" where
  "flag_byte trm ns = (if odd (length ns) then push_bit 4 (if trm then 3 else 1) OR hd ns else push_bit 4 (if trm then 2 else 0))"

lemma flag_byte_eq:
  "flag_byte trm ns = (if odd (length ns) then push_bit 5 (if trm then 1 else 0) OR 0x10 OR hd ns else push_bit 5 (if trm then 1 else 0))"
  by (simp add: flag_byte_def flip: or.assoc)

lemma flag_nibbles:
  assumes "\<forall>n\<in>set ns. n < 16"
  shows "nibbles_of [flag_byte trm ns] =
    (if odd (length ns) then [if trm then 3 else 1, hd ns] else [if trm then 2 else 0, 0])"
proof (cases "odd (length ns)")
  case True
  then have "hd ns < 16" using assms by (cases ns) auto
  with True show ?thesis using pair_nibbles [of 3 "hd ns"] pair_nibbles [of 1 "hd ns"] by (simp add: nibbles_of_def flag_byte_def)
next
  case False
  then show ?thesis by (simp add: nibbles_of_def flag_byte_def)
qed

lemma compact_ok:
  assumes "\<forall>n\<in>set ns. n < 16" and "hex = (if trm then ns @ [16] else ns)"
  shows "\<exists>bs. hexToCompact hex = Some (flag_byte trm ns # bs) \<and> length bs = length ns div 2 \<and>
    nibbles_of bs = (if odd (length ns) then tl ns else ns) \<and> appendHexToCompact buf hex = Some (buf @ flag_byte trm ns # bs)"
proof -
  let ?ns = "if odd (length ns) then tl ns else ns"
  have "\<forall>n\<in>set ?ns. n < 16" "length ?ns = 2 * (length ns div 2)"
    using assms(1) by (cases ns; auto)+
  from decode_ok [OF this, of "buf @ [flag_byte trm ns]"] obtain bs where
    bs: "decodeNibbles ?ns (replicate (length ns div 2) 0) = Some bs" "nibbles_of bs = ?ns" "length bs = length ns div 2"
      "append_pairs (buf @ [flag_byte trm ns]) ?ns = Some ((buf @ [flag_byte trm ns]) @ bs)" by blast
  have t: "hasTerm hex \<longleftrightarrow> trm" using no_term [OF assms(1)] assms(2) by (simp add: hasTerm_def)
  have b: "butlast hex = ns" if trm using that assms(2) by simp
  show ?thesis
    using bs t b assms(2) by (cases trm) (auto simp: hexToCompact_def appendHexToCompact_def Let_def flag_byte_eq split: if_splits)
qed

lemma keybytes_nibbles: "keybytesToHex bs = nibbles_of bs @ [16]"
  by (simp add: keybytesToHex_def nibbles_of_def)

lemma compactToHex_ok:
  assumes "\<forall>n\<in>set ns. n < 16" and "nibbles_of bs = (if odd (length ns) then tl ns else ns)"
  shows "compactToHex (flag_byte trm ns # bs) = (if trm then ns @ [16] else ns)"
proof -
  have "nibbles_of (flag_byte trm ns # bs) = nibbles_of [flag_byte trm ns] @ nibbles_of bs" by (simp add: nibbles_of_def)
  then have n: "nibbles_of (flag_byte trm ns # bs) =
      (if odd (length ns) then (if trm then 3 else 1) # ns else [if trm then 2 else 0, 0] @ ns)"
    using flag_nibbles [OF assms(1), of trm] assms(2) by (cases ns) auto
  show ?thesis unfolding compactToHex_def keybytes_nibbles n Let_def by (cases trm; cases "odd (length ns)") simp_all
qed

lemma keybytes_decode: "decodeNibbles (nibbles_of key) (replicate (length key) 0) = Some key"
proof (induction key)
  case (Cons b key)
  have "push_bit 4 (drop_bit 4 b) OR take_bit 4 b = b" by (rule bit_word_eqI) (auto simp: bit_simps)
  with Cons show ?case by (simp add: nibbles_of_def drop_bit_eq_div take_bit_eq_mod)
qed (simp add: nibbles_of_def)

lemma hexToKeybytes_inverse: "hexToKeybytes (keybytesToHex key) = Some key"
proof -
  have "length (nibbles_of key) = 2 * length key" by (induction key) (simp_all add: nibbles_of_def)
  then show ?thesis using keybytes_decode [of key] by (simp add: hexToKeybytes_def keybytes_nibbles hasTerm_def Let_def)
qed

text \<open>
  C36: keys of trie nodes.  The compact encoding of a key, nibbles with or without the terminator, is
  defined, has the length that \<open>compactLen\<close> announces, is what \<open>appendHexToCompact\<close> appends, and is decoded to
  the key again; and the nibbles of a byte string are decoded to the byte string.
\<close>
theorem compact_round_trip:
  assumes "hex_key hex"
  shows "\<exists>c. hexToCompact hex = Some c \<and> compactToHex c = hex \<and> length c = compactLen hex \<and>
    appendHexToCompact buf hex = Some (buf @ c) \<and> hexToKeybytes (keybytesToHex key) = Some key"
proof -
  obtain ns trm where ns: "\<forall>n\<in>set ns. n < 16" "hex = (if trm then ns @ [16] else ns)"
    using assms unfolding hex_key_def by (metis (full_types))
  obtain bs where bs: "hexToCompact hex = Some (flag_byte trm ns # bs)" "length bs = length ns div 2"
    "nibbles_of bs = (if odd (length ns) then tl ns else ns)" "appendHexToCompact buf hex = Some (buf @ flag_byte trm ns # bs)"
    using compact_ok [OF ns] by blast
  have "compactLen hex = length ns div 2 + 1"
    using no_term [OF ns(1)] ns(2) by (auto simp: compactLen_def hasTerm_def)
  then show ?thesis using hexToKeybytes_inverse bs compactToHex_ok [OF ns(1) bs(3), of trm] ns(2) by simp
qed

lemma compact_round_trip_witness:
  "\<exists>c. hexToCompact [1, 2, 3, 16] = Some c \<and> compactToHex c = [1, 2, 3, 16] \<and> length c = 2"
proof -
  have "hex_key [1, 2, 3, 16]" unfolding hex_key_def by (rule exI [of _ "[1, 2, 3]"]) simp
  from compact_round_trip [OF this, of "[]" "[]"] show ?thesis by (auto simp: compactLen_def hasTerm_def)
qed

section \<open>Gas limits of blocks\<close>

abbreviation (input) MinGasLimit :: u64 where
  "MinGasLimit \<equiv> 1000000"

abbreviation (input) GasLimitBoundDivisor :: u64 where
  "GasLimitBoundDivisor \<equiv> 1024"

definition min64 :: "u64 \<Rightarrow> u64 \<Rightarrow> u64" where
  "min64 a b = (if b < a then b else a)"

definition GasLimit_IsValid :: "u64 \<Rightarrow> u64 \<Rightarrow> bool" where
  "GasLimit_IsValid gasLimit parentGasLimit \<longleftrightarrow>
     (if gasLimit < MinGasLimit then False
      else
        let diff = (if parentGasLimit < gasLimit then gasLimit - parentGasLimit else parentGasLimit - gasLimit)
        in diff \<le> parentGasLimit div GasLimitBoundDivisor)"

text \<open>The argument is an \<open>int64\<close>.\<close>

definition Adjust :: "u64 \<Rightarrow> u64 \<Rightarrow> u64" where
  "Adjust gasLimit delta =
     (let maxDiff = gasLimit div GasLimitBoundDivisor
      in if 0 < sint delta then
           let diff = min64 delta maxDiff
           in if - 1 - diff < gasLimit then - 1 else gasLimit + diff
         else
           let diff = min64 (- delta) maxDiff
           in if gasLimit < MinGasLimit + diff then MinGasLimit else gasLimit - diff)"

definition Qualify :: "u64 \<Rightarrow> u64 \<Rightarrow> u64" where
  "Qualify gasLimit parentGasLimit =
     (let maxDiff = parentGasLimit div GasLimitBoundDivisor
      in if parentGasLimit < gasLimit then Adjust parentGasLimit (min64 (gasLimit - parentGasLimit) maxDiff)
         else Adjust parentGasLimit (- min64 (parentGasLimit - gasLimit) maxDiff))"

text \<open>The same over natural numbers.\<close>

definition near :: "nat \<Rightarrow> nat \<Rightarrow> nat" where
  "near g p = (if p < g then min g (p + p div 1024) else max (max g (p - p div 1024)) 1000000)"

lemma unat_min64: "unat (min64 a b) = min (unat a) (unat b)"
  by (auto simp: min64_def word_less_nat_alt)

lemma sint_pos: "unat (d :: u64) < 2 ^ 63 \<Longrightarrow> 0 < sint d \<longleftrightarrow> d \<noteq> 0"
  by (simp add: sint_u64 del: of_nat_unat) (simp add: unat_gt_0)

lemma sint_neg:
  fixes d :: u64
  assumes "unat d < 2 ^ 63"
  shows "sint (- d) = - int (unat d)"
proof -
  have "int (unat d) < 2 ^ 63" using assms by (metis of_nat_less_iff of_nat_numeral of_nat_power)
  moreover have "0 \<le> int (unat d)" by (rule of_nat_0_le_iff)
  ultimately have "signed_take_bit 63 (- int (unat d)) = - int (unat d)"
    by (intro signed_take_bit_int_eq_self) linarith+
  then show ?thesis using sint_word_minus [of d] sint_u64 [OF assms] by simp
qed

lemma small_diff: "unat (d :: u64) \<le> unat (p :: u64) div 1024 \<Longrightarrow> unat d < 2 ^ 63"
proof -
  assume "unat d \<le> unat p div 1024"
  moreover have "unat p div 1024 < 18014398509481984" using unat_u64_less [of p] by (rule less_mult_imp_div_less [OF order_less_le_trans]) simp
  ultimately show ?thesis by simp
qed

lemma unat_bound: "unat (p div 1024 :: u64) = unat p div 1024"
  by (simp add: unat_div)

lemma Adjust_up:
  assumes "d \<noteq> 0" and "unat d \<le> unat p div 1024"
  shows "unat (Adjust p d) = min (unat p + unat d) 18446744073709551615"
proof -
  have pos: "0 < sint d" using assms(1) sint_pos [OF small_diff [OF assms(2)]] by simp
  have "min64 d (p div 1024) = d" using assms(2) by (auto simp: min64_def word_less_nat_alt unat_bound)
  with pos have "Adjust p d = (if - 1 - d < p then - 1 else p + d)" by (simp add: Adjust_def Let_def)
  moreover have "unat (- 1 - d) = 18446744073709551615 - unat d"
  proof -
    have "unat (- 1 - d) = unat (- 1 :: u64) - unat d" by (rule unat_sub) simp
    then show ?thesis by (simp add: unsigned_minus_1_eq_mask mask_eq_exp_minus_1)
  qed
  moreover have "unat (- 1 :: u64) = 18446744073709551615" by (simp add: unsigned_minus_1_eq_mask mask_eq_exp_minus_1)
  moreover have "unat (p + d) = unat p + unat d" if "unat p + unat d < 18446744073709551616" using that by (simp add: unat_word_ariths)
  moreover have "unat d < 18446744073709551616" "unat p < 18446744073709551616" by simp_all
  moreover have "unat p + unat d < 18446744073709551616 \<longleftrightarrow> \<not> 18446744073709551615 - unat d < unat p"
    using unat_u64_less [of d] by linarith
  ultimately show ?thesis unfolding word_less_nat_alt by (cases "18446744073709551615 - unat d < unat p") simp_all
qed

lemma Adjust_down:
  assumes "unat d \<le> unat p div 1024"
  shows "unat (Adjust p (- d)) = max (unat p - unat d) 1000000"
proof -
  have "\<not> 0 < sint (- d)" using sint_neg [OF small_diff [OF assms]] by simp
  moreover have "min64 d (p div 1024) = d" using assms by (auto simp: min64_def word_less_nat_alt unat_bound)
  ultimately have "Adjust p (- d) = (if p < 1000000 + d then 1000000 else p - d)" by (simp add: Adjust_def Let_def)
  moreover have "unat (1000000 + d) = 1000000 + unat d" using small_diff [OF assms] by (simp add: unat_word_ariths)
  moreover have "unat (p - d) = unat p - unat d" if "\<not> unat p < 1000000 + unat d"
    using that by (intro unat_sub) (simp add: word_le_nat_alt)
  ultimately show ?thesis by (auto simp: word_less_nat_alt)
qed

lemma near_simps:
  fixes g p m M :: nat
  shows "p < g \<Longrightarrow> g \<le> M \<Longrightarrow> min (p + min (g - p) m) M = min g (p + m)"
    and "g \<le> p \<Longrightarrow> p - min (p - g) m = max g (p - m)"
  by auto

lemma near_nearest:
  fixes g p x :: nat
  assumes "1000000 \<le> p" and "1000000 \<le> g" and "g \<le> p + p div 1024" and "p - p div 1024 \<le> g"
  shows "\<bar>int (near x p) - int x\<bar> \<le> \<bar>int g - int x\<bar>"
proof -
  have le: "g \<le> x \<or> x \<le> g" "g \<le> near x p \<and> near x p \<le> x \<or> x \<le> near x p \<and> near x p \<le> g \<or> near x p = x"
    using assms unfolding near_def by (auto simp: min_def max_def)
  then show ?thesis by linarith
qed

lemma Qualify_near:
  assumes "MinGasLimit \<le> p"
  shows "unat (Qualify g p) = near (unat g) (unat p)"
proof (cases "p < g")
  case True
  let ?d = "min64 (g - p) (p div 1024)"
  have "unat (g - p) = unat g - unat p" using True by (intro unat_sub) simp
  then have d: "unat ?d = min (unat g - unat p) (unat p div 1024)" by (simp add: unat_min64 unat_bound)
  have lt: "unat p < unat g" "1000000 \<le> unat p" using True assms by (simp_all add: word_less_nat_alt word_le_nat_alt)
  then have "0 < unat ?d" using d by simp
  then have "?d \<noteq> 0" by (metis unat_0 less_irrefl)
  moreover have "unat ?d \<le> unat p div 1024" using d by simp
  ultimately have "unat (Adjust p ?d) = min (unat p + unat ?d) 18446744073709551615" by (rule Adjust_up)
  moreover have "unat g \<le> 18446744073709551615" using unat_u64_less [of g] by linarith
  ultimately have "unat (Adjust p ?d) = min (unat g) (unat p + unat p div 1024)" using near_simps(1) [OF lt(1)] d by simp
  then show ?thesis using True lt by (simp add: Qualify_def near_def Let_def)
next
  case False
  let ?d = "min64 (p - g) (p div 1024)"
  have "unat (p - g) = unat p - unat g" using False by (intro unat_sub) simp
  then have d: "unat ?d = min (unat p - unat g) (unat p div 1024)" by (simp add: unat_min64 unat_bound)
  then have "unat (Adjust p (- ?d)) = max (unat p - unat ?d) 1000000" by (intro Adjust_down) simp
  moreover have "unat g \<le> unat p" using False by (simp add: word_less_nat_alt)
  ultimately have "unat (Adjust p (- ?d)) = max (max (unat g) (unat p - unat p div 1024)) 1000000" using near_simps(2) d by simp
  then show ?thesis using False by (simp add: Qualify_def near_def Let_def word_less_nat_alt)
qed

text \<open>
  C34: gas limits.  With a parent limit of at least the minimum, \<open>Qualify\<close> gives a limit that is valid for a child
  block, it leaves a limit that is valid already as it is, and it is the valid limit nearest to the one
  asked for: every other valid limit is at least as far away.
\<close>
theorem qualified_gas_limit_valid:
  assumes "MinGasLimit \<le> parent"
  shows "GasLimit_IsValid (Qualify gl parent) parent \<and> (GasLimit_IsValid gl parent \<longrightarrow> Qualify gl parent = gl) \<and>
    (\<forall>g. GasLimit_IsValid g parent \<longrightarrow> \<bar>uint (Qualify gl parent) - uint gl\<bar> \<le> \<bar>uint g - uint gl\<bar>)"
proof -
  let ?p = "unat parent"
  have p: "1000000 \<le> ?p" using assms by (simp add: word_le_nat_alt)
  have valid: "GasLimit_IsValid g parent \<longleftrightarrow> 1000000 \<le> unat g \<and> unat g \<le> ?p + ?p div 1024 \<and> ?p - ?p div 1024 \<le> unat g" for g
  proof -
    have "unat (g - parent) = unat g - ?p" if "parent < g" using that by (intro unat_sub) simp
    moreover have "unat (parent - g) = ?p - unat g" if "\<not> parent < g" using that by (intro unat_sub) simp
    ultimately show ?thesis
      by (auto simp: GasLimit_IsValid_def Let_def word_less_nat_alt word_le_nat_alt unat_bound not_less)
  qed
  note q = Qualify_near [OF assms, of gl]
  have n: "1000000 \<le> near (unat gl) ?p" "near (unat gl) ?p \<le> ?p + ?p div 1024" "?p - ?p div 1024 \<le> near (unat gl) ?p"
    using p by (auto simp: near_def)
  have same: "near (unat gl) ?p = unat gl" if "GasLimit_IsValid gl parent" using that by (auto simp: valid near_def)
  have "\<bar>int (near (unat gl) ?p) - int (unat gl)\<bar> \<le> \<bar>int (unat g) - int (unat gl)\<bar>" if "GasLimit_IsValid g parent" for g
    using near_nearest [OF p] that unfolding valid by blast
  moreover have "uint (Qualify gl parent) = int (near (unat gl) ?p)" unfolding q [symmetric] by simp
  ultimately have "\<bar>uint (Qualify gl parent) - uint gl\<bar> \<le> \<bar>uint g - uint gl\<bar>" if "GasLimit_IsValid g parent" for g
    using that by simp
  moreover have "GasLimit_IsValid (Qualify gl parent) parent" unfolding valid q using n by simp
  moreover have "Qualify gl parent = gl" if "GasLimit_IsValid gl parent" using q same [OF that] by (simp add: word_unat_eq_iff)
  ultimately show ?thesis by blast
qed

theorem qualified_gas_limit_valid_witness:
  "GasLimit_IsValid (Qualify 20000000 10000000) 10000000"
  using qualified_gas_limit_valid [of 10000000 20000000] by simp

section \<open>Sequence numbers of logs\<close>

abbreviation (input) blockNumBits :: nat where "blockNumBits \<equiv> 28"
abbreviation (input) txIndexBits :: nat where "txIndexBits \<equiv> 15"
abbreviation (input) logIndexBits :: nat where "logIndexBits \<equiv> 20"

datatype seq_error = BlockNumberRange | TxIndexRange | LogIndexRange

text \<open>A sequence is an \<open>int64\<close>; its right shift is arithmetic.\<close>

definition newSequence :: "u32 \<Rightarrow> u32 \<Rightarrow> u32 \<Rightarrow> seq_error + u64" where
  "newSequence blockNum txIndex logIndex =
     (if 2 ^ blockNumBits - 1 < blockNum then Inl BlockNumberRange
      else if 2 ^ txIndexBits - 1 < txIndex then Inl TxIndexRange
      else if 2 ^ logIndexBits - 1 < logIndex then Inl LogIndexRange
      else Inr (push_bit (txIndexBits + logIndexBits) (ucast blockNum) OR push_bit logIndexBits (ucast txIndex) OR ucast logIndex))"

definition seq_BlockNumber :: "u64 \<Rightarrow> u32" where
  "seq_BlockNumber s = ucast (signed_drop_bit (txIndexBits + logIndexBits) s) AND 2 ^ blockNumBits - 1"

definition seq_TxIndex :: "u64 \<Rightarrow> u32" where
  "seq_TxIndex s = ucast (signed_drop_bit logIndexBits s AND 2 ^ txIndexBits - 1)"

definition seq_LogIndex :: "u64 \<Rightarrow> u32" where
  "seq_LogIndex s = ucast (s AND 2 ^ logIndexBits - 1)"

lemma unat_narrow: "unat (ucast (x :: u64) :: u32) = unat x mod 2 ^ 32"
  by (simp add: unsigned_ucast_eq take_bit_eq_mod)

lemma and_masks:
  "(x :: u32) AND 2 ^ 28 - 1 = take_bit 28 x" "(y :: u64) AND 2 ^ 15 - 1 = take_bit 15 y" "y AND 2 ^ 20 - 1 = take_bit 20 y"
  unfolding take_bit_eq_mask mask_eq_exp_minus_1 by (rule refl)+

lemma newSequence_value:
  assumes "newSequence b t l = Inr s"
  shows "unat s = unat b * 2 ^ 35 + unat t * 2 ^ 20 + unat l" and "unat b < 2 ^ 28" and "unat t < 2 ^ 15" and "unat l < 2 ^ 20"
proof -
  have r: "\<not> 268435455 < b" "\<not> 32767 < t" "\<not> 1048575 < l"
    and s: "s = push_bit 35 (ucast b) OR push_bit 20 (ucast t) OR ucast l"
    using assms by (auto simp: newSequence_def split: if_splits)
  show bounds: "unat b < 2 ^ 28" "unat t < 2 ^ 15" "unat l < 2 ^ 20" using r by (simp_all add: word_less_nat_alt)
  let ?b = "ucast b :: u64" and ?t = "ucast t :: u64" and ?l = "ucast l :: u64"
  have u: "unat ?b = unat b" "unat ?t = unat t" "unat ?l = unat l" by (simp_all add: unat_widen)
  have tt: "take_bit 15 ?t = ?t" "take_bit 20 ?l = ?l"
    using bounds u by (simp_all add: word_unat_eq_iff unsigned_take_bit_eq take_bit_nat_eq_self)
  have "s = push_bit 35 ?b OR push_bit 20 (take_bit 15 ?t) OR take_bit 20 ?l" by (simp add: s tt)
  also have "\<dots> = push_bit 35 ?b + (push_bit 20 (take_bit 15 ?t) OR take_bit 20 ?l)"
    by (rule disjunctive_add [symmetric]) (auto simp: bit_simps)
  also have "push_bit 20 (take_bit 15 ?t) OR take_bit 20 ?l = push_bit 20 (take_bit 15 ?t) + take_bit 20 ?l"
    by (rule disjunctive_add [symmetric]) (auto simp: bit_simps)
  finally have "s = push_bit 35 ?b + (push_bit 20 ?t + ?l)" by (simp add: tt)
  moreover have "unat (push_bit 35 ?b) = unat b * 2 ^ 35" "unat (push_bit 20 ?t) = unat t * 2 ^ 20"
    using bounds u by (simp_all add: push_bit_eq_mult unat_word_ariths)
  ultimately show "unat s = unat b * 2 ^ 35 + unat t * 2 ^ 20 + unat l" using bounds u by (simp add: unat_word_ariths)
qed

lemma seq_parts:
  fixes s :: u64
  assumes "unat s = x * 2 ^ 35 + y * 2 ^ 20 + z" and "x < 2 ^ 28" and "y < 2 ^ 15" and "z < 2 ^ 20"
  shows "unat (seq_BlockNumber s) = x" and "unat (seq_TxIndex s) = y" and "unat (seq_LogIndex s) = z" and "sint s = int (unat s)"
proof -
  show i: "sint s = int (unat s)" by (rule sint_u64) (use assms in simp)
  have d: "signed_drop_bit k s = of_nat (unat s div 2 ^ k)" for k
  proof -
    have "sint (signed_drop_bit k s) = int (unat s div 2 ^ k)" by (simp add: sint_signed_drop_bit_eq i drop_bit_eq_div zdiv_int del: of_nat_unat)
    moreover have "signed_drop_bit k s = of_int (sint (signed_drop_bit k s))" by simp
    ultimately show ?thesis by (simp only: of_int_of_nat_eq)
  qed
  have h: "unat s = (x * 32768 + y) * 1048576 + z" using assms(1) by simp
  have "unat s div 1048576 = x * 32768 + y" unfolding h using assms(4) by simp
  moreover have "unat s mod 1048576 = z" unfolding h mod_mult_self3 using assms(4) by simp
  ultimately have "unat s div 2 ^ (15 + 20) = x" "unat s div 2 ^ 20 mod 2 ^ 15 = y" "unat s mod 2 ^ 20 = z" using assms by simp_all
  then have *: "seq_BlockNumber s = take_bit 28 (ucast (of_nat x :: u64))" "unat s div 2 ^ 20 mod 2 ^ 15 = y" "unat s mod 2 ^ 20 = z"
    unfolding seq_BlockNumber_def and_masks d by simp_all
  show "unat (seq_BlockNumber s) = x"
    using assms(2) unfolding *(1) unsigned_take_bit_eq unat_narrow by (simp add: unat_of_nat take_bit_nat_eq_self)
  have "unat s div 1048576 < 18446744073709551616" using unat_u64_less [of s] by (rule order_le_less_trans [OF div_le_dividend])
  then have "unat (seq_TxIndex s) = take_bit 15 (unat s div 2 ^ 20)"
    unfolding seq_TxIndex_def and_masks d unat_narrow unsigned_take_bit_eq by (simp add: unat_of_nat take_bit_eq_mod mod_mod_cancel)
  then show "unat (seq_TxIndex s) = y" using *(2) by (simp add: take_bit_eq_mod)
  have "unat (seq_LogIndex s) = take_bit 20 (unat s)"
    unfolding seq_LogIndex_def and_masks unat_narrow unsigned_take_bit_eq by (simp add: take_bit_eq_mod mod_mod_cancel)
  then show "unat (seq_LogIndex s) = z" using *(3) by (simp add: take_bit_eq_mod)
qed

text \<open>
  C35: sequence numbers of logs.  \<open>newSequence\<close> succeeds exactly when the three parts fit into their fields;
  the parts are read back from the sequence; and the order of sequences, as the signed integers that
  the database compares, is the lexicographic order of block, transaction and log.
\<close>
theorem sequence_round_trip:
  assumes "newSequence b t l = Inr s" and "newSequence b' t' l' = Inr s'"
  shows "seq_BlockNumber s = b \<and> seq_TxIndex s = t \<and> seq_LogIndex s = l \<and> 0 \<le> sint s \<and>
    (sint s < sint s' \<longleftrightarrow> b < b' \<or> b = b' \<and> (t < t' \<or> t = t' \<and> l < l')) \<and>
    ((\<exists>r. newSequence x y z = Inr r) \<longleftrightarrow> x < 2 ^ 28 \<and> y < 2 ^ 15 \<and> z < 2 ^ 20)"
proof -
  note v = newSequence_value [OF assms(1)] and v' = newSequence_value [OF assms(2)]
  note p = seq_parts [OF v] and p' = seq_parts [OF v']
  have "unat s < unat s' \<longleftrightarrow> unat b < unat b' \<or> unat b = unat b' \<and> (unat t < unat t' \<or> unat t = unat t' \<and> unat l < unat l')"
    unfolding v(1) v'(1) using v(2-4) v'(2-4) by simp linarith
  then have "sint s < sint s' \<longleftrightarrow> b < b' \<or> b = b' \<and> (t < t' \<or> t = t' \<and> l < l')"
    unfolding p(4) p'(4) of_nat_less_iff word_less_nat_alt word_unat_eq_iff .
  moreover have "(\<exists>r. newSequence x y z = Inr r) \<longleftrightarrow> x < 2 ^ 28 \<and> y < 2 ^ 15 \<and> z < 2 ^ 20"
    by (auto simp: newSequence_def mask_eq_exp_minus_1 word_less_nat_alt not_less)
  moreover have "0 \<le> sint s" using p(4) by simp
  ultimately show ?thesis using p(1-3) by (simp add: word_unat_eq_iff)
qed

lemma sequence_round_trip_witness:
  "\<exists>s s'. newSequence 7 3 5 = Inr s \<and> newSequence 7 4 0 = Inr s' \<and> seq_TxIndex s = 3 \<and> sint s < sint s'"
proof -
  obtain s s' where "newSequence 7 3 5 = Inr s" "newSequence 7 4 0 = Inr s'" by (simp add: newSequence_def)
  with sequence_round_trip [OF this] show ?thesis by auto
qed

end
