(* ===== verification/JsHost.thy ===== *)
theory JsHost
  imports VmEvm
begin

text \<open>
  The Go side of the JavaScript tracers: the tracer directory and the padded memory reads of
  src/tracers/tracers.go, the loader's name conversion of src/tracers/js/internal/tracers, and
  the host objects and hooks of src/tracers/js/goja.go.

  The JavaScript engine (goja) is a parameter.  A tracer object is a state \<open>'o\<close> with a record of
  the functions it exposes; a call of such a function returns the new state and the error that
  interrupted it, if any.  A host function that calls \<open>vm.Interrupt\<close> makes the running script
  stop with that error: it is an \<open>Inl\<close>.
\<close>

section \<open>Errors and numbers\<close>

datatype js_error =
    NegativeOffsetOrSize
  | PaddingLimit int
  | MemoryOutOfBound int int
  | MemoryOutOfBoundSize nat int int
  | StackOutOfBound nat int
  | InvalidBufferType
  | TypeError
  | EngineError string
  | MissingResult
  | MissingFault
  | EnterExitMismatch
  | UnsupportedTracer
  | CustomTracer js_error

text \<open>Wrap-around of Go's 64-bit \<open>int\<close>.\<close>

definition wrap64 :: "int \<Rightarrow> int" where
  "wrap64 x = (x + 2 ^ 63) mod 2 ^ 64 - 2 ^ 63"

lemma wrap64_id: "- (2 ^ 63) \<le> x \<Longrightarrow> x < 2 ^ 63 \<Longrightarrow> wrap64 x = x"
  using mod_pos_pos_trivial [of "x + 2 ^ 63" "2 ^ 64"] by (simp add: wrap64_def)

section \<open>Reading memory\<close>

abbreviation (input) memoryPadLimit :: int where "memoryPadLimit \<equiv> 1024 * 1024"

text \<open>The outer \<open>None\<close> is a panic (a slice expression out of range).\<close>

definition GetMemoryCopyPadded :: "Memory \<Rightarrow> int \<Rightarrow> int \<Rightarrow> (js_error + bytes) option" where
  "GetMemoryCopyPadded m offset sz =
     (if offset < 0 \<or> sz < 0 then Some (Inl NegativeOffsetOrSize)
      else if wrap64 (offset + sz) < int (Len m) then map_option Inr (GetCopy offset sz m)
      else
        let paddingNeeded = wrap64 (offset + sz) - int (Len m)
        in if paddingNeeded > memoryPadLimit then Some (Inl (PaddingLimit paddingNeeded))
           else
             let cpy = replicate (nat sz) 0; overlap = int (Len m) - offset
             in if overlap > 0 then do {
                  p \<leftarrow> GetPtr offset overlap m;
                  Some (Inr (copy_at 0 (length cpy) cpy p))
                } else Some (Inr cpy))"

definition memoryObj_slice :: "Memory \<Rightarrow> int \<Rightarrow> int \<Rightarrow> (js_error + bytes) option" where
  "memoryObj_slice m start stop =
     (if stop = start then Some (Inr [])
      else if stop < start \<or> start < 0 then Some (Inl (MemoryOutOfBound start stop))
      else GetMemoryCopyPadded m start (stop - start))"

definition memoryObj_getUint :: "Memory \<Rightarrow> int \<Rightarrow> (js_error + nat) option" where
  "memoryObj_getUint m addr =
     (if int (Len m) < wrap64 (addr + 32) \<or> addr < 0
      then Some (Inl (MemoryOutOfBoundSize (Len m) addr 32))
      else map_option (\<lambda>bs. Inr (be_nat bs)) (GetPtr addr 32 m))"

definition stackObj_peek :: "Stack \<Rightarrow> int \<Rightarrow> (js_error + nat) option" where
  "stackObj_peek st idx =
     (if int (length st) \<le> idx \<or> idx < 0 then Some (Inl (StackOutOfBound (length st) idx))
      else map_option (\<lambda>x. Inr (unat x)) (Back (nat idx) st))"

section \<open>The directory of tracers\<close>

text \<open>A constructor takes the configuration \<open>'c\<close> and gives a tracer \<open>'t\<close> or an error.\<close>

type_synonym ('c, 't) ctorFn = "'c \<Rightarrow> js_error + 't"

record ('c, 't) elem =
  ctor :: "('c, 't) ctorFn"
  isJS :: bool

record ('c, 't) directory =
  elems :: "string \<rightharpoonup> ('c, 't) elem"
  jsEval :: "string \<Rightarrow> ('c, 't) ctorFn"

definition Register ::
    "string \<Rightarrow> ('c, 't) ctorFn \<Rightarrow> bool \<Rightarrow> ('c, 't) directory \<Rightarrow> ('c, 't) directory" where
  "Register name f js d = d\<lparr>elems := (elems d)(name \<mapsto> \<lparr>ctor = f, isJS = js\<rparr>)\<rparr>"

definition RegisterJSEval ::
    "(string \<Rightarrow> ('c, 't) ctorFn) \<Rightarrow> ('c, 't) directory \<Rightarrow> ('c, 't) directory" where
  "RegisterJSEval f d = d\<lparr>jsEval := f\<rparr>"

definition Lookup :: "string \<Rightarrow> ('c, 't) directory \<Rightarrow> bool" where
  "Lookup name d =
     (case elems d name of
        Some _ \<Rightarrow> True
      | None \<Rightarrow> (case elems d (name @ ''Tracer'') of Some _ \<Rightarrow> True | None \<Rightarrow> False))"

definition New :: "string \<Rightarrow> 'c \<Rightarrow> bool \<Rightarrow> ('c, 't) directory \<Rightarrow> js_error + 't" where
  "New name cfg allowCustom d =
     (case elems d name of
        Some e \<Rightarrow> ctor e cfg
      | None \<Rightarrow>
          (case elems d (name @ ''Tracer'') of
             Some e \<Rightarrow> ctor e cfg
           | None \<Rightarrow>
               if allowCustom then
                 (case jsEval d name cfg of
                    Inl e \<Rightarrow> Inl (CustomTracer e)
                  | Inr t \<Rightarrow> Inr t)
               else Inl UnsupportedTracer))"

definition IsJS :: "string \<Rightarrow> ('c, 't) directory \<Rightarrow> bool" where
  "IsJS name d = (case elems d name of Some e \<Rightarrow> isJS e | None \<Rightarrow> True)"

section \<open>Names of the built-in tracers\<close>

text \<open>\<open>strings.Split\<close> at one character, and the upper case of an ASCII letter.\<close>

fun split_at :: "char \<Rightarrow> string \<Rightarrow> string list" where
  "split_at c [] = [[]]"
| "split_at c (x # xs) =
     (if x = c then [] # split_at c xs
      else case split_at c xs of p # ps \<Rightarrow> (x # p) # ps | [] \<Rightarrow> [[x]])"

definition ToUpper :: "char \<Rightarrow> char" where
  "ToUpper c = (let n = of_char c :: nat in if 97 \<le> n \<and> n \<le> 122 then char_of (n - 32) else c)"

text \<open>\<open>pieces[i][0]\<close> panics on an empty piece.\<close>

fun camel_pieces :: "string list \<Rightarrow> string option" where
  "camel_pieces [] = Some []"
| "camel_pieces ([] # ps) = None"
| "camel_pieces ((c # cs) # ps) = do { r \<leftarrow> camel_pieces ps; Some (ToUpper c # cs @ r) }"

definition camel :: "string \<Rightarrow> string option" where
  "camel str = (case split_at CHR ''_'' str of
      [] \<Rightarrow> Some []
    | p # ps \<Rightarrow> map_option (\<lambda>r. p @ r) (camel_pieces ps))"

text \<open>
  \<open>Load\<close> walks the embedded files (a list of path and content) and keys each by its camel-cased
  name without the suffix \<open>.js\<close>.
\<close>

definition TrimSuffix :: "string \<Rightarrow> string \<Rightarrow> string" where
  "TrimSuffix s suf =
     (if length suf \<le> length s \<and> drop (length s - length suf) s = suf
      then take (length s - length suf) s else s)"

fun Load :: "(string \<times> string) list \<Rightarrow> (string \<rightharpoonup> string) \<Rightarrow> (string \<rightharpoonup> string) option" where
  "Load [] assetTracers = Some assetTracers"
| "Load ((path, b) # fs) assetTracers = do {
     name \<leftarrow> camel (TrimSuffix path ''.js'');
     Load fs (assetTracers(name \<mapsto> b))
   }"

section \<open>Objects passed to the scripts\<close>

text \<open>
  The fields of \<open>steplog\<close>, with those of the \<open>opObj\<close>, \<open>memoryObj\<close>, \<open>stackObj\<close> and \<open>contractObj\<close> it
  holds.  An error is kept as the message that \<open>GetError\<close> hands to the script.
\<close>

record steplog =
  sl_op :: OpCode
  sl_memory :: Memory
  sl_stack :: Stack
  sl_contract :: Contract
  sl_pc :: u64
  sl_gas :: u64
  sl_cost :: u64
  sl_depth :: nat
  sl_refund :: u64
  sl_err :: "string option"

record callframe =
  cf_typ :: string
  cf_from :: address
  cf_to :: address
  cf_input :: bytes
  cf_gas :: u64
  cf_value :: "int option"

record callframeResult =
  cr_gasUsed :: u64
  cr_output :: bytes
  cr_err :: "string option"

text \<open>The values of the bag \<open>ctx\<close> that \<open>result\<close> receives.\<close>

datatype ctxval = CtxString string | CtxBytes bytes | CtxNumber nat | CtxBig int

section \<open>The tracer object\<close>

text \<open>
  The functions that a tracer object exposes; an absent one is \<open>None\<close>.  \<open>'s\<close> is the state database
  that the object \<open>db\<close> reads, \<open>'r\<close> the value that \<open>result\<close> returns.
\<close>

record ('s, 'o, 'r) jsMethods =
  js_result :: "((string \<rightharpoonup> ctxval) \<Rightarrow> 'o \<Rightarrow> js_error + 'r) option"
  js_fault :: "(steplog \<Rightarrow> 's \<Rightarrow> 'o \<Rightarrow> 'o \<times> js_error option) option"
  js_step :: "(steplog \<Rightarrow> 's \<Rightarrow> 'o \<Rightarrow> 'o \<times> js_error option) option"
  js_enter :: "(callframe \<Rightarrow> 'o \<Rightarrow> 'o \<times> js_error option) option"
  js_exit :: "(callframeResult \<Rightarrow> 'o \<Rightarrow> 'o \<times> js_error option) option"
  js_setup :: "(string \<Rightarrow> 'o \<Rightarrow> 'o \<times> js_error option) option"

text \<open>\<open>t_err\<close> holds the error with the name of the function it came from (\<open>wrapError\<close>).\<close>

record ('s, 'o, 'r) jsTracer =
  t_methods :: "('s, 'o, 'r) jsMethods"
  t_ctx :: "string \<rightharpoonup> ctxval"
  activePrecompiles :: "address set"
  traceStep :: bool
  traceFrame :: bool
  t_gasLimit :: u64
  t_err :: "(string \<times> js_error) option"
  t_obj :: 'o
  t_log :: steplog
  t_frame :: callframe
  t_frameResult :: callframeResult

text \<open>
  What the host takes from the engine and from the machine: evaluation of a script, the
  conversion of a decimal string to a big integer, and the message of an error.
\<close>

record ('s, 'o, 'r) engine =
  RunString :: "string \<Rightarrow> js_error + ('s, 'o, 'r) jsMethods \<times> 'o"
  toBig :: "int \<Rightarrow> js_error option"
  Error :: "error \<Rightarrow> string"

definition zero_contract :: Contract where
  "zero_contract = NewContract 0 0 None 0"

definition zero_log :: steplog where
  "zero_log = \<lparr>sl_op = 0, sl_memory = NewMemory, sl_stack = [], sl_contract = zero_contract,
     sl_pc = 0, sl_gas = 0, sl_cost = 0, sl_depth = 0, sl_refund = 0, sl_err = None\<rparr>"

definition zero_frame :: callframe where
  "zero_frame = \<lparr>cf_typ = [], cf_from = 0, cf_to = 0, cf_input = [], cf_gas = 0, cf_value = None\<rparr>"

definition zero_frameResult :: callframeResult where
  "zero_frameResult = \<lparr>cr_gasUsed = 0, cr_output = [], cr_err = None\<rparr>"

definition newJsTracer ::
    "('s, 'o, 'r) engine \<Rightarrow> string \<Rightarrow> string option \<Rightarrow> js_error + ('s, 'o, 'r) jsTracer" where
  "newJsTracer E code cfg =
     (case RunString E (''('' @ code @ '')'') of
        Inl err \<Rightarrow> Inl err
      | Inr (ms, obj) \<Rightarrow>
          if js_result ms = None then Inl MissingResult
          else if js_fault ms = None then Inl MissingFault
          else
            let hasEnter = (js_enter ms \<noteq> None); hasExit = (js_exit ms \<noteq> None)
            in if hasEnter \<noteq> hasExit then Inl EnterExitMismatch
               else
                 let (obj, err) =
                   (case js_setup ms of
                      Some setup \<Rightarrow>
                        setup (case cfg of Some c \<Rightarrow> c | None \<Rightarrow> ''{}'') obj
                    | None \<Rightarrow> (obj, None))
                 in case err of
                      Some e \<Rightarrow> Inl e
                    | None \<Rightarrow>
                        Inr \<lparr>t_methods = ms, t_ctx = Map.empty, activePrecompiles = {},
                             traceStep = (js_step ms \<noteq> None), traceFrame = hasEnter,
                             t_gasLimit = 0, t_err = None, t_obj = obj, t_log = zero_log,
                             t_frame = zero_frame, t_frameResult = zero_frameResult\<rparr>)"

section \<open>Hooks\<close>

text \<open>
  The hooks of the \<open>Logger\<close> interface.  The boolean result says that \<open>onError\<close> ran, which cancels
  the machine.
\<close>

definition onError ::
    "string \<Rightarrow> js_error \<Rightarrow> ('s, 'o, 'r) jsTracer \<Rightarrow> ('s, 'o, 'r) jsTracer \<times> bool" where
  "onError c err t = (t\<lparr>t_err := Some (c, err)\<rparr>, True)"

text \<open>The end of a hook: store the script's state, and report its error.\<close>

definition finish ::
    "string \<Rightarrow> 'o \<times> js_error option \<Rightarrow> ('s, 'o, 'r) jsTracer \<Rightarrow> ('s, 'o, 'r) jsTracer \<times> bool" where
  "finish c r t =
     (let t = t\<lparr>t_obj := fst r\<rparr>
      in case snd r of None \<Rightarrow> (t, False) | Some err \<Rightarrow> onError c err t)"

definition js_CaptureClauseStart :: "u64 \<Rightarrow> ('s, 'o, 'r) jsTracer \<Rightarrow> ('s, 'o, 'r) jsTracer" where
  "js_CaptureClauseStart gasLimit t = t\<lparr>t_gasLimit := gasLimit\<rparr>"

definition js_CaptureClauseEnd :: "u64 \<Rightarrow> ('s, 'o, 'r) jsTracer \<Rightarrow> ('s, 'o, 'r) jsTracer" where
  "js_CaptureClauseEnd restGas t =
     t\<lparr>t_ctx := (t_ctx t)(''gasUsed'' \<mapsto> CtxNumber (js_round (unat (t_gasLimit t - restGas))))\<rparr>"

definition ActivePrecompiles :: "('s, 't) Env \<Rightarrow> Rules \<Rightarrow> address set" where
  "ActivePrecompiles V rules =
     (if rules_IsIstanbul rules then dom (PrecompiledContractsIstanbul V)
      else dom (PrecompiledContractsByzantium V))"

definition js_CaptureStart ::
    "('s, 'o, 'r) engine \<Rightarrow> ('s, 't) Env \<Rightarrow> address \<Rightarrow> address \<Rightarrow> bool \<Rightarrow> bytes \<Rightarrow> int \<Rightarrow>
     ('s, 'o, 'r) jsTracer \<Rightarrow> ('s, 'o, 'r) jsTracer" where
  "js_CaptureStart E V from to create input val t =
     (let t = t\<lparr>t_ctx := (t_ctx t)
            (''type'' \<mapsto> CtxString (if create then ''CREATE'' else ''CALL''),
             ''from'' \<mapsto> CtxBytes (address_bytes from),
             ''to'' \<mapsto> CtxBytes (address_bytes to),
             ''input'' \<mapsto> CtxBytes input,
             ''gas'' \<mapsto> CtxNumber (js_round (unat (t_gasLimit t))),
             ''gasPrice'' \<mapsto> CtxBig (GasPrice (ctx V)))\<rparr>
      in case toBig E val of
           Some err \<Rightarrow> t\<lparr>t_err := Some ([], err)\<rparr>
         | None \<Rightarrow>
             t\<lparr>t_ctx := (t_ctx t)
                 (''value'' \<mapsto> CtxBig val,
                  ''block'' \<mapsto> CtxNumber (js_round (unat (of_int (blockNumber V) :: u64)))),
               activePrecompiles := ActivePrecompiles V (Rules_of (chainConfig V) (blockNumber V))\<rparr>)"

definition js_CaptureState ::
    "('s, 'o, 'r) engine \<Rightarrow> 's StateDB \<Rightarrow> 's EVM \<Rightarrow> StepInfo \<Rightarrow>
     ('s, 'o, 'r) jsTracer \<Rightarrow> ('s, 'o, 'r) jsTracer \<times> bool" where
  "js_CaptureState E S e info t =
     (if \<not> traceStep t then (t, False)
      else if t_err t \<noteq> None then (t, False)
      else
        let log = \<lparr>sl_op = si_op info, sl_memory = si_memory info, sl_stack = si_stack info,
              sl_contract = si_contract info, sl_pc = si_pc info, sl_gas = si_gas info,
              sl_cost = si_cost info, sl_depth = si_depth info,
              sl_refund = GetRefund S (statedb e),
              sl_err = map_option (Error E) (si_err info)\<rparr>;
            t = t\<lparr>t_log := log\<rparr>
        in case js_step (t_methods t) of
             Some step \<Rightarrow> finish ''step'' (step (t_log t) (statedb e) (t_obj t)) t
           | None \<Rightarrow> (t, False))"

definition js_CaptureFault ::
    "('s, 'o, 'r) engine \<Rightarrow> 's EVM \<Rightarrow> StepInfo \<Rightarrow>
     ('s, 'o, 'r) jsTracer \<Rightarrow> ('s, 'o, 'r) jsTracer \<times> bool" where
  "js_CaptureFault E e info t =
     (if t_err t \<noteq> None then (t, False)
      else
        let t = t\<lparr>t_log := (t_log t)\<lparr>sl_err := map_option (Error E) (si_err info)\<rparr>\<rparr>
        in case js_fault (t_methods t) of
             Some fault \<Rightarrow> finish ''fault'' (fault (t_log t) (statedb e) (t_obj t)) t
           | None \<Rightarrow> (t, False))"

definition js_CaptureEnd ::
    "('s, 'o, 'r) engine \<Rightarrow> bytes \<Rightarrow> error option \<Rightarrow> ('s, 'o, 'r) jsTracer \<Rightarrow> ('s, 'o, 'r) jsTracer" where
  "js_CaptureEnd E output err t =
     (let c = (t_ctx t)(''output'' \<mapsto> CtxBytes output)
      in t\<lparr>t_ctx := (case err of Some e \<Rightarrow> c(''error'' \<mapsto> CtxString (Error E e)) | None \<Rightarrow> c)\<rparr>)"

definition js_CaptureEnter ::
    "OpCode \<Rightarrow> address \<Rightarrow> address \<Rightarrow> bytes \<Rightarrow> u64 \<Rightarrow> int option \<Rightarrow>
     ('s, 'o, 'r) jsTracer \<Rightarrow> ('s, 'o, 'r) jsTracer \<times> bool" where
  "js_CaptureEnter typ from to input gas val t =
     (if \<not> traceFrame t then (t, False)
      else if t_err t \<noteq> None then (t, False)
      else
        let t = t\<lparr>t_frame := \<lparr>cf_typ = String typ, cf_from = from, cf_to = to, cf_input = input,
              cf_gas = gas, cf_value = map_option abs val\<rparr>\<rparr>
        in case js_enter (t_methods t) of
             Some enter \<Rightarrow> finish ''enter'' (enter (t_frame t) (t_obj t)) t
           | None \<Rightarrow> (t, False))"

definition js_CaptureExit ::
    "('s, 'o, 'r) engine \<Rightarrow> bytes \<Rightarrow> u64 \<Rightarrow> error option \<Rightarrow>
     ('s, 'o, 'r) jsTracer \<Rightarrow> ('s, 'o, 'r) jsTracer \<times> bool" where
  "js_CaptureExit E output gasUsed err t =
     (if \<not> traceFrame t then (t, False)
      else
        let t = t\<lparr>t_frameResult := \<lparr>cr_gasUsed = gasUsed, cr_output = output,
              cr_err = map_option (Error E) err\<rparr>\<rparr>
        in case js_exit (t_methods t) of
             Some exit \<Rightarrow> finish ''exit'' (exit (t_frameResult t) (t_obj t)) t
           | None \<Rightarrow> (t, False))"

text \<open>The tracer context of \<open>SetContext\<close>; \<open>None\<close> is a nil context.\<close>

record TracerContext =
  BlockID :: hash
  TxID :: hash
  TxIndex :: u64

definition SetContext :: "TracerContext option \<Rightarrow> ('s, 'o, 'r) jsTracer \<Rightarrow> ('s, 'o, 'r) jsTracer" where
  "SetContext c t =
     (let c = (case c of Some c \<Rightarrow> c | None \<Rightarrow> \<lparr>BlockID = 0, TxID = 0, TxIndex = 0\<rparr>)
      in if BlockID c \<noteq> 0 then
           (let m = (t_ctx t)(''blockHash'' \<mapsto> CtxBytes (Bytes32 (BlockID c)))
            in t\<lparr>t_ctx := (if TxID c \<noteq> 0
                  then m(''txIndex'' \<mapsto> CtxNumber (js_round (unat (TxIndex c))),
                         ''txHash'' \<mapsto> CtxBytes (Bytes32 (TxID c)))
                  else m)\<rparr>)
         else t)"

text \<open>The value of \<open>result\<close> with the accumulated error, or the error of \<open>result\<close> itself.\<close>

definition GetResult ::
    "('s, 'o, 'r) jsTracer \<Rightarrow> (string \<times> js_error) + 'r \<times> (string \<times> js_error) option" where
  "GetResult t =
     (case js_result (t_methods t) of
        Some result \<Rightarrow>
          (case result (t_ctx t) (t_obj t) of
             Inl err \<Rightarrow> Inl (''result'', err)
           | Inr r \<Rightarrow> Inr (r, t_err t))
      | None \<Rightarrow> Inl (''result'', TypeError))"

text \<open>The tracer as a value of the machine's interface.\<close>

definition jsLogger ::
    "('s, 'o, 'r) engine \<Rightarrow> ('s, 't) Env \<Rightarrow> ('s, ('s, 'o, 'r) jsTracer) Logger" where
  "jsLogger E V =
     \<lparr>CaptureStart = (\<lambda>e from to create input gas val t. js_CaptureStart E V from to create input val t),
      CaptureEnd = (\<lambda>output gasUsed err t. js_CaptureEnd E output err t),
      CaptureEnter = js_CaptureEnter,
      CaptureExit = js_CaptureExit E,
      CaptureState = js_CaptureState E (sdb V),
      CaptureFault = js_CaptureFault E\<rparr>"

section \<open>Functions offered to the scripts\<close>

text \<open>
  A value passed from a script to a host function.  What the conversions of go-ethereum and of the
  engine do is a parameter.
\<close>

datatype jsval = JsString string | JsArray "int list" | JsUint8Array bytes | JsOther

record conv =
  FromHex :: "string \<Rightarrow> bytes"
  ExportBytes :: "int list \<Rightarrow> js_error + bytes"
  BytesToAddress :: "bytes \<Rightarrow> address"
  BytesToHash :: "bytes \<Rightarrow> hash"
  HexToHash :: "string \<Rightarrow> hash"
  HexEncode :: "bytes \<Rightarrow> string"

definition fromBuf :: "conv \<Rightarrow> jsval \<Rightarrow> bool \<Rightarrow> js_error + bytes" where
  "fromBuf c buf allowString =
     (case buf of
        JsString s \<Rightarrow> if allowString then Inr (FromHex c s) else Inl InvalidBufferType
      | JsArray xs \<Rightarrow> ExportBytes c xs
      | JsUint8Array bs \<Rightarrow> Inr bs
      | JsOther \<Rightarrow> Inl InvalidBufferType)"

text \<open>Continue with the bytes of a buffer, or stop the script.\<close>

definition with_buf :: "conv \<Rightarrow> jsval \<Rightarrow> bool \<Rightarrow> (bytes \<Rightarrow> js_error + 'a) \<Rightarrow> js_error + 'a" where
  "with_buf c buf allowString f =
     sbind (fromBuf c buf allowString) f"

definition js_toHex :: "conv \<Rightarrow> jsval \<Rightarrow> js_error + string" where
  "js_toHex c v = with_buf c v False (\<lambda>b. Inr (HexEncode c b))"

definition js_toWord :: "conv \<Rightarrow> jsval \<Rightarrow> js_error + jsval" where
  "js_toWord c v = with_buf c v True (\<lambda>b. Inr (JsUint8Array (Bytes32 (BytesToHash c b))))"

definition js_toAddress :: "conv \<Rightarrow> jsval \<Rightarrow> js_error + jsval" where
  "js_toAddress c v = with_buf c v True (\<lambda>a. Inr (JsUint8Array (address_bytes (BytesToAddress c a))))"

definition js_toContract2 :: "conv \<Rightarrow> deps \<Rightarrow> jsval \<Rightarrow> string \<Rightarrow> jsval \<Rightarrow> js_error + jsval" where
  "js_toContract2 c d from salt initcode =
     with_buf c from True (\<lambda>a.
       let addr = BytesToAddress c a
       in with_buf c initcode True (\<lambda>code.
            Inr (JsUint8Array (address_bytes
              (CreateAddress2 d addr (HexToHash c salt) (Bytes32 (Keccak256 d code)))))))"

definition js_isPrecompiled :: "conv \<Rightarrow> ('s, 'o, 'r) jsTracer \<Rightarrow> jsval \<Rightarrow> js_error + bool" where
  "js_isPrecompiled c t v = with_buf c v True (\<lambda>a. Inr (BytesToAddress c a \<in> activePrecompiles t))"

definition js_slice :: "conv \<Rightarrow> jsval \<Rightarrow> int \<Rightarrow> int \<Rightarrow> js_error + jsval" where
  "js_slice c v start stop =
     with_buf c v False (\<lambda>b.
       if start < 0 \<or> start > stop \<or> stop > int (length b)
       then Inl (MemoryOutOfBoundSize (length b) start (stop - start))
       else Inr (JsUint8Array (take (nat stop - nat start) (drop (nat start) b))))"

text \<open>The object \<open>db\<close>.\<close>

definition dbObj_GetBalance :: "conv \<Rightarrow> 's StateDB \<Rightarrow> 's \<Rightarrow> jsval \<Rightarrow> js_error + int" where
  "dbObj_GetBalance c S s a = with_buf c a False (\<lambda>a. Inr (GetBalance S (BytesToAddress c a) s))"

definition dbObj_GetNonce :: "conv \<Rightarrow> 's StateDB \<Rightarrow> 's \<Rightarrow> jsval \<Rightarrow> js_error + u64" where
  "dbObj_GetNonce c S s a = with_buf c a False (\<lambda>a. Inr (GetNonce S (BytesToAddress c a) s))"

definition dbObj_GetCode :: "conv \<Rightarrow> 's StateDB \<Rightarrow> 's \<Rightarrow> jsval \<Rightarrow> js_error + jsval" where
  "dbObj_GetCode c S s a =
     with_buf c a False (\<lambda>a. Inr (JsUint8Array (GetCode S (BytesToAddress c a) s)))"

definition dbObj_GetState :: "conv \<Rightarrow> 's StateDB \<Rightarrow> 's \<Rightarrow> jsval \<Rightarrow> jsval \<Rightarrow> js_error + jsval" where
  "dbObj_GetState c S s a h =
     with_buf c a False (\<lambda>a. with_buf c h False (\<lambda>h.
       Inr (JsUint8Array (Bytes32 (GetState S (BytesToAddress c a) (BytesToHash c h) s)))))"

definition dbObj_Exists :: "conv \<Rightarrow> 's StateDB \<Rightarrow> 's \<Rightarrow> jsval \<Rightarrow> js_error + bool" where
  "dbObj_Exists c S s a = with_buf c a False (\<lambda>a. Inr (Exist S (BytesToAddress c a) s))"

section \<open>What the host functions return\<close>

text \<open>A byte of memory as the scripts see it: zero beyond the end.\<close>

definition mem_byte :: "Memory \<Rightarrow> nat \<Rightarrow> byte" where
  "mem_byte m i = (if i < Len m then store m ! i else 0)"

lemma copy_at_0: "copy_at 0 (length dst) dst src = take (length dst) src @ drop (length src) dst"
  by (simp add: copy_at_def min_def)

lemma slice_Some:
  "0 \<le> lo \<Longrightarrow> lo \<le> hi \<Longrightarrow> hi \<le> int (length s) \<Longrightarrow>
   slice s lo hi = Some (take (nat hi - nat lo) (drop (nat lo) s))"
  by (simp add: slice_def)

lemma GetMemoryCopyPadded_spec:
  assumes "0 \<le> offset" and "0 \<le> sz" and "offset + sz < 2 ^ 63" and "0 < sz"
  shows "GetMemoryCopyPadded m offset sz = Some
    (if offset + sz - int (Len m) > 1024 * 1024 then Inl (PaddingLimit (offset + sz - int (Len m)))
     else Inr (map (\<lambda>i. mem_byte m (nat offset + i)) [0..<nat sz]))"
proof -
  have w: "wrap64 (offset + sz) = offset + sz" using assms by (intro wrap64_id) simp_all
  consider (inside) "offset + sz < int (Len m)"
    | (limit) "offset + sz - int (Len m) > 1024 * 1024"
    | (over) "\<not> offset + sz < int (Len m)" "\<not> offset + sz - int (Len m) > 1024 * 1024" "offset < int (Len m)"
    | (out) "\<not> offset + sz < int (Len m)" "\<not> offset + sz - int (Len m) > 1024 * 1024" "\<not> offset < int (Len m)"
    by linarith
  then show ?thesis
  proof cases
    case inside
    with assms have "GetCopy offset sz m = Some (pad_right (nat sz) (take (nat (offset + sz) - nat offset) (drop (nat offset) (store m))))"
      by (simp add: GetCopy_def slice_Some Len_def)
    moreover have "pad_right (nat sz) (take (nat (offset + sz) - nat offset) (drop (nat offset) (store m)))
        = map (\<lambda>i. mem_byte m (nat offset + i)) [0..<nat sz]"
      using assms inside
      by (intro nth_equalityI) (auto simp: pad_right_def nth_append mem_byte_def Len_def nat_add_distrib)
    ultimately show ?thesis using inside assms w by (simp add: GetMemoryCopyPadded_def)
  next
    case limit
    then show ?thesis using assms w by (simp add: GetMemoryCopyPadded_def)
  next
    case over
    then have p: "GetPtr offset (int (Len m) - offset) m = Some (drop (nat offset) (store m))"
      using assms by (simp add: GetPtr_def slice_Some Len_def)
    have "copy_at 0 (nat sz) (replicate (nat sz) 0) (drop (nat offset) (store m))
        = map (\<lambda>i. mem_byte m (nat offset + i)) [0..<nat sz]"
      using assms over copy_at_0 [of "replicate (nat sz) (0::byte)" "drop (nat offset) (store m)"]
      by (intro nth_equalityI) (auto simp: nth_append mem_byte_def Len_def)
    with over p show ?thesis using assms w by (simp add: GetMemoryCopyPadded_def Let_def)
  next
    case out
    then have "replicate (nat sz) 0 = map (\<lambda>i. mem_byte m (nat offset + i)) [0..<nat sz]"
      using assms by (intro nth_equalityI) (auto simp: mem_byte_def)
    with out show ?thesis using assms w by (simp add: GetMemoryCopyPadded_def)
  qed
qed

lemma memoryObj_slice_spec:
  assumes "- (2 ^ 63) \<le> b" and "b < 2 ^ 63" and "- (2 ^ 63) \<le> e" and "e < 2 ^ 63"
  shows "memoryObj_slice m b e = Some
    (if e = b then Inr []
     else if e < b \<or> b < 0 then Inl (MemoryOutOfBound b e)
     else if e - int (Len m) > 1024 * 1024 then Inl (PaddingLimit (e - int (Len m)))
     else Inr (map (\<lambda>i. mem_byte m (nat b + i)) [0..<nat (e - b)]))"
  using GetMemoryCopyPadded_spec [of b "e - b" m] assms by (simp add: memoryObj_slice_def)

lemma memoryObj_getUint_spec:
  assumes "- (2 ^ 63) \<le> addr" and "addr + 32 < 2 ^ 63"
  shows "memoryObj_getUint m addr = Some
    (if 0 \<le> addr \<and> addr + 32 \<le> int (Len m)
     then Inr (be_nat (map (\<lambda>i. mem_byte m (nat addr + i)) [0..<32]))
     else Inl (MemoryOutOfBoundSize (Len m) addr 32))"
proof (cases "0 \<le> addr \<and> addr + 32 \<le> int (Len m)")
  case True
  then have "GetPtr addr 32 m = Some (take 32 (drop (nat addr) (store m)))"
    by (simp add: GetPtr_def slice_Some Len_def nat_add_distrib)
  moreover have "take 32 (drop (nat addr) (store m)) = map (\<lambda>i. mem_byte m (nat addr + i)) [0..<32]"
    using True by (intro nth_equalityI) (auto simp: mem_byte_def Len_def simp del: upt_rec_numeral)
  ultimately show ?thesis using True assms wrap64_id [of "addr + 32"]
    by (simp add: memoryObj_getUint_def del: upt_rec_numeral)
next
  case False
  then show ?thesis using assms wrap64_id [of "addr + 32"] by (auto simp: memoryObj_getUint_def)
qed

lemma memoryObj_getUint_wraps:
  assumes "int (Len m) < 2 ^ 63 - 32" and "2 ^ 63 - 32 \<le> addr" and "addr < 2 ^ 63"
  shows "memoryObj_getUint m addr = Some (Inr 0)"
proof -
  have "(addr + 32 + 2 ^ 63) mod 2 ^ 64 = addr + 32 + 2 ^ 63 - (2 ^ 64 :: int)"
    using assms by (subst mod_pos_geq) simp_all
  then have "wrap64 (addr + 32) < 0" using assms by (simp add: wrap64_def)
  with assms show ?thesis by (simp add: memoryObj_getUint_def GetPtr_def Len_def)
qed

lemma stackObj_peek_spec:
  "stackObj_peek st i = Some (if 0 \<le> i \<and> i < int (length st) then Inr (unat (st ! nat i))
     else Inl (StackOutOfBound (length st) i))"
  by (auto simp: stackObj_peek_def Back_def)

lemma New_Lookup:
  "New name cfg custom d =
     (if Lookup name d
      then ctor (the (case elems d name of None \<Rightarrow> elems d (name @ ''Tracer'') | e \<Rightarrow> e)) cfg
      else if custom then (case jsEval d name cfg of Inl e \<Rightarrow> Inl (CustomTracer e) | Inr t \<Rightarrow> Inr t)
      else Inl UnsupportedTracer)"
  by (auto simp: New_def Lookup_def split: option.splits)

lemma camel_names:
  "map camel [''opcount_tracer'', ''unigram_tracer'', ''bigram_tracer'', ''trigram_tracer'', ''evmdis_tracer''] =
   map Some [''opcountTracer'', ''unigramTracer'', ''bigramTracer'', ''trigramTracer'', ''evmdisTracer'']"
  by code_simp

section \<open>Running a tracer through the host\<close>

text \<open>The steps of an execution, each with the machine at that moment, shown to a tracer.\<close>

definition log_of :: "('s, 'o, 'r) engine \<Rightarrow> 's StateDB \<Rightarrow> 's EVM \<times> StepInfo \<Rightarrow> steplog" where
  "log_of E S ev = (let e = fst ev; info = snd ev in
     \<lparr>sl_op = si_op info, sl_memory = si_memory info, sl_stack = si_stack info,
      sl_contract = si_contract info, sl_pc = si_pc info, sl_gas = si_gas info,
      sl_cost = si_cost info, sl_depth = si_depth info, sl_refund = GetRefund S (statedb e),
      sl_err = map_option (Error E) (si_err info)\<rparr>)"

definition js_run ::
    "('s, 'o, 'r) engine \<Rightarrow> 's StateDB \<Rightarrow> ('s EVM \<times> StepInfo) list \<Rightarrow>
     ('s, 'o, 'r) jsTracer \<Rightarrow> ('s, 'o, 'r) jsTracer" where
  "js_run E S evs t = fold (\<lambda>ev t. fst (js_CaptureState E S (fst ev) (snd ev) t)) evs t"

lemma sl_log_of [simp]:
  "sl_op (log_of E S ev) = si_op (snd ev)" "sl_depth (log_of E S ev) = si_depth (snd ev)"
  by (simp_all add: log_of_def Let_def)

text \<open>A script's function \<open>step\<close> on the steps, one after the other, until it fails.\<close>

fun run_steps ::
    "(steplog \<Rightarrow> 's \<Rightarrow> 'o \<Rightarrow> 'o \<times> js_error option) \<Rightarrow> (steplog \<times> 's) list \<Rightarrow> 'o \<Rightarrow> 'o \<times> js_error option" where
  "run_steps step [] this = (this, None)"
| "run_steps step ((log, s) # logs) this =
     (case step log s this of
        (this', None) \<Rightarrow> run_steps step logs this'
      | (this', Some e) \<Rightarrow> (this', Some e))"

definition log_db :: "('s, 'o, 'r) engine \<Rightarrow> 's StateDB \<Rightarrow> 's EVM \<times> StepInfo \<Rightarrow> steplog \<times> 's" where
  "log_db E S ev = (log_of E S ev, statedb (fst ev))"

lemma fst_log_db [simp]: "fst (log_db E S ev) = log_of E S ev"
  by (simp add: log_db_def)

lemma js_run_failed: "t_err t \<noteq> None \<Longrightarrow> js_run E S evs t = t"
  by (induction evs) (simp_all add: js_run_def js_CaptureState_def)

lemma js_CaptureState_step:
  assumes "js_step (t_methods t) = Some step" and "traceStep t" and "t_err t = None"
  shows "js_CaptureState E S (fst ev) (snd ev) t =
    (let r = step (log_of E S ev) (statedb (fst ev)) (t_obj t)
     in (t\<lparr>t_log := log_of E S ev, t_obj := fst r, t_err := map_option (Pair ''step'') (snd r)\<rparr>, snd r \<noteq> None))"
  using assms
  by (auto simp: js_CaptureState_def finish_def onError_def log_of_def Let_def split: option.split)

lemma js_run_steps:
  assumes "js_step (t_methods t) = Some step" and "traceStep t" and "t_err t = None"
  shows "t_methods (js_run E S evs t) = t_methods t \<and> t_ctx (js_run E S evs t) = t_ctx t \<and>
    (let r = run_steps step (map (log_db E S) evs) (t_obj t)
     in t_obj (js_run E S evs t) = fst r \<and> t_err (js_run E S evs t) = map_option (Pair ''step'') (snd r))"
  using assms
proof (induction evs arbitrary: t)
  case Nil
  then show ?case by (simp add: js_run_def)
next
  case (Cons ev evs)
  define r where "r = step (log_of E S ev) (statedb (fst ev)) (t_obj t)"
  define t' where "t' = t\<lparr>t_log := log_of E S ev, t_obj := fst r, t_err := map_option (Pair ''step'') (snd r)\<rparr>"
  have run: "js_run E S (ev # evs) t = js_run E S evs t'"
    using js_CaptureState_step [OF Cons.prems, of E S ev] by (simp add: js_run_def t'_def r_def Let_def)
  obtain this' err where r: "r = (this', err)" by (cases r)
  then have st: "step (log_of E S ev) (statedb (fst ev)) (t_obj t) = (this', err)" by (simp add: r_def)
  show ?case
  proof (cases err)
    case None
    with Cons.IH [of t'] Cons.prems run st r show ?thesis by (simp add: t'_def log_db_def)
  next
    case (Some e)
    then have "js_run E S evs t' = t'" by (intro js_run_failed) (simp add: t'_def r)
    with Some run st r show ?thesis by (simp add: t'_def log_db_def)
  qed
qed

section \<open>Concrete runs\<close>

text \<open>A minimal engine and minimal steps, for concrete runs.\<close>

definition const_engine :: "('s, 'o, 'r) jsMethods \<Rightarrow> 'o \<Rightarrow> ('s, 'o, 'r) engine" where
  "const_engine ms init = \<lparr>RunString = (\<lambda>_. Inr (ms, init)), toBig = (\<lambda>_. None), Error = (\<lambda>_. ''error'')\<rparr>"

definition plain_step :: "OpCode \<Rightarrow> nat \<Rightarrow> StepInfo" where
  "plain_step op d = \<lparr>si_pc = 0, si_op = op, si_gas = 0, si_cost = 0, si_memory = NewMemory,
     si_stack = [], si_contract = zero_contract, si_depth = d, si_err = None\<rparr>"

definition plain_evm :: "unit EVM" where
  "plain_evm = \<lparr>statedb = (), depth = 1, abort = False, callGasTemp = 0, contractCreationCount = 0,
     readOnly = False, returnData = [], bitmaps = Map.empty\<rparr>"

definition plain_db :: "unit StateDB" where
  "plain_db = \<lparr>CreateAccount = (\<lambda>_ s. s), SubBalance = (\<lambda>_ _ s. s), AddBalance = (\<lambda>_ _ s. s),
     GetBalance = (\<lambda>_ _. 0), GetNonce = (\<lambda>_ _. 0), SetNonce = (\<lambda>_ _ s. s), GetCodeHash = (\<lambda>_ _. 0),
     GetCode = (\<lambda>_ _. []), SetCode = (\<lambda>_ _ s. s), GetCodeSize = (\<lambda>_ _. 0), AddRefund = (\<lambda>_ s. s),
     GetRefund = (\<lambda>_. 0), GetState = (\<lambda>_ _ _. 0), SetState = (\<lambda>_ _ _ s. s),
     Suicide = (\<lambda>_ s. (False, s)), HasSuicided = (\<lambda>_ _. False), Exist = (\<lambda>_ _. False),
     Empty = (\<lambda>_ _. True), RevertToSnapshot = (\<lambda>_ s. s), Snapshot = (\<lambda>s. (0, s)),
     AddLog = (\<lambda>_ s. s), AddPreimage = (\<lambda>_ _ s. s)\<rparr>"

definition plain_events :: "nat \<Rightarrow> OpCode list \<Rightarrow> (unit EVM \<times> StepInfo) list" where
  "plain_events d ops = map (\<lambda>op. (plain_evm, plain_step op d)) ops"

lemma const_engine_Run [simp]: "RunString (const_engine ms init) code = Inr (ms, init)"
  by (simp add: const_engine_def)

lemma plain_step_fields [simp]: "si_op (plain_step op d) = op" "si_depth (plain_step op d) = d"
  by (simp_all add: plain_step_def)

end
