(* ===== verification/JsNgram.thy ===== *)
theory JsNgram
  imports JsHost
begin

text \<open>
  The four counting tracers of src/tracers/js/internal/tracers: opcount, unigram, bigram and
  trigram.  The fields of a tracer object are a record, its \<open>step\<close> a function on the record.  The
  locale \<open>histogram\<close> is the contract of a script that counts keys; the three n-gram tracers are
  interpretations of it.
\<close>

section \<open>opcount\<close>

record opcount =
  count :: nat

definition opcount_init :: opcount where
  [js_defs]: "opcount_init = \<lparr>count = 0\<rparr>"

definition opcount_step :: "steplog \<Rightarrow> opcount \<Rightarrow> opcount" where
  [js_defs]: "opcount_step log this = this\<lparr>count := js_incr (count this)\<rparr>"

definition opcount_result :: "opcount \<Rightarrow> nat" where
  [js_defs]: "opcount_result this = count this"

section \<open>unigram\<close>

record unigram =
  u_hist :: "string \<rightharpoonup> nat"
  u_nops :: nat

definition unigram_init :: unigram where
  [js_defs]: "unigram_init = \<lparr>u_hist = Map.empty, u_nops = 0\<rparr>"

definition unigram_step :: "steplog \<Rightarrow> unigram \<Rightarrow> unigram" where
  [js_defs]: "unigram_step log this =
     (let op = String (sl_op log);
          this = this\<lparr>u_hist := hist_bump (u_hist this) op\<rparr>
      in this\<lparr>u_nops := js_incr (u_nops this)\<rparr>)"

definition unigram_result :: "unigram \<Rightarrow> (string \<rightharpoonup> nat)" where
  [js_defs]: "unigram_result this = u_hist this"

section \<open>bigram\<close>

record bigram =
  b_hist :: "string \<rightharpoonup> nat"
  b_lastOp :: string
  b_lastDepth :: nat

definition bigram_init :: bigram where
  [js_defs]: "bigram_init = \<lparr>b_hist = Map.empty, b_lastOp = [], b_lastDepth = 0\<rparr>"

definition bigram_step :: "steplog \<Rightarrow> bigram \<Rightarrow> bigram" where
  [js_defs]: "bigram_step log this =
     (let op = String (sl_op log); depth = sl_depth log;
          this = (if depth = b_lastDepth this
            then (let key = b_lastOp this @ ''-'' @ op in this\<lparr>b_hist := hist_bump (b_hist this) key\<rparr>)
            else this)
      in this\<lparr>b_lastOp := op, b_lastDepth := depth\<rparr>)"

definition bigram_result :: "bigram \<Rightarrow> (string \<rightharpoonup> nat)" where
  [js_defs]: "bigram_result this = b_hist this"

section \<open>trigram\<close>

text \<open>The array \<open>lastOps\<close> has two elements.\<close>

record trigram =
  t_hist :: "string \<rightharpoonup> nat"
  t_lastOps :: "string \<times> string"
  t_lastDepth :: nat

definition trigram_init :: trigram where
  [js_defs]: "trigram_init = \<lparr>t_hist = Map.empty, t_lastOps = ([], []), t_lastDepth = 0\<rparr>"

definition trigram_step :: "steplog \<Rightarrow> trigram \<Rightarrow> trigram" where
  [js_defs]: "trigram_step log this =
     (let depth = sl_depth log
      in if depth \<noteq> t_lastDepth this then this\<lparr>t_lastOps := ([], []), t_lastDepth := depth\<rparr>
         else
           let op = String (sl_op log);
               key = fst (t_lastOps this) @ ''-'' @ snd (t_lastOps this) @ ''-'' @ op
           in this\<lparr>t_hist := hist_bump (t_hist this) key, t_lastOps := (snd (t_lastOps this), op)\<rparr>)"

definition trigram_result :: "trigram \<Rightarrow> (string \<rightharpoonup> nat)" where
  [js_defs]: "trigram_result this = t_hist this"

section \<open>The tracers as objects\<close>

text \<open>The functions that the scripts expose to the host; \<open>fault\<close> does nothing.\<close>

definition simple_methods ::
    "(steplog \<Rightarrow> 'o \<Rightarrow> 'o) \<Rightarrow> ('o \<Rightarrow> 'r) \<Rightarrow> ('s, 'o, 'r) jsMethods" where
  "simple_methods step res =
     \<lparr>js_result = Some (\<lambda>c this. Inr (res this)), js_fault = Some (\<lambda>log s this. (this, None)),
      js_step = Some (\<lambda>log s this. (step log this, None)), js_enter = None, js_exit = None,
      js_setup = None\<rparr>"

definition opcountTracer :: "('s, opcount, nat) jsMethods" where
  "opcountTracer = simple_methods opcount_step opcount_result"

definition unigramTracer :: "('s, unigram, string \<rightharpoonup> nat) jsMethods" where
  "unigramTracer = simple_methods unigram_step unigram_result"

definition bigramTracer :: "('s, bigram, string \<rightharpoonup> nat) jsMethods" where
  "bigramTracer = simple_methods bigram_step bigram_result"

definition trigramTracer :: "('s, trigram, string \<rightharpoonup> nat) jsMethods" where
  "trigramTracer = simple_methods trigram_step trigram_result"

section \<open>Counting scripts\<close>

text \<open>
  A script whose map changes only by counting a key: \<open>key\<close> is what a step counts, if anything.
\<close>

locale histogram =
  fixes step :: "steplog \<Rightarrow> 'o \<Rightarrow> 'o"
    and hist :: "'o \<Rightarrow> string \<rightharpoonup> nat"
    and key :: "steplog \<Rightarrow> 'o \<Rightarrow> string option"
    and init :: 'o
  assumes hist_init: "hist init = Map.empty"
    and hist_step: "hist (step log this) =
      (case key log this of None \<Rightarrow> hist this | Some k \<Rightarrow> hist_bump (hist this) k)"
begin

fun emitted :: "steplog list \<Rightarrow> 'o \<Rightarrow> string list" where
  "emitted [] this = []"
| "emitted (log # logs) this =
     (case key log this of None \<Rightarrow> [] | Some k \<Rightarrow> [k]) @ emitted logs (step log this)"

lemma hist_fold: "hist this = hist_of ks \<Longrightarrow> hist (fold step logs this) = hist_of (ks @ emitted logs this)"
proof (induction logs arbitrary: this ks)
  case Nil
  then show ?case by simp
next
  case (Cons log logs)
  show ?case
  proof (cases "key log this")
    case None
    with Cons.prems have "hist (step log this) = hist_of ks" by (simp add: hist_step)
    from Cons.IH [OF this] None show ?thesis by simp
  next
    case (Some k)
    with Cons.prems have "hist (step log this) = hist_of (ks @ [k])"
      by (simp add: hist_step hist_bump_hist_of)
    from Cons.IH [OF this] Some show ?thesis by simp
  qed
qed

lemma hist_run: "hist (fold step logs init) = hist_of (emitted logs init)"
  using hist_fold [of init "[]"] by (simp add: hist_init)

end

text \<open>What the steps of the three tracers count.\<close>

definition unigram_key :: "steplog \<Rightarrow> unigram \<Rightarrow> string option" where
  [js_defs]: "unigram_key log this = Some (String (sl_op log))"

definition bigram_key :: "steplog \<Rightarrow> bigram \<Rightarrow> string option" where
  [js_defs]: "bigram_key log this =
     (if sl_depth log = b_lastDepth this then Some (b_lastOp this @ ''-'' @ String (sl_op log)) else None)"

definition trigram_key :: "steplog \<Rightarrow> trigram \<Rightarrow> string option" where
  [js_defs]: "trigram_key log this =
     (if sl_depth log = t_lastDepth this
      then Some (fst (t_lastOps this) @ ''-'' @ snd (t_lastOps this) @ ''-'' @ String (sl_op log)) else None)"

interpretation unigram: histogram unigram_step u_hist unigram_key unigram_init
  by unfold_locales (simp_all add: js_defs)

interpretation bigram: histogram bigram_step b_hist bigram_key bigram_init
  by unfold_locales (simp_all add: js_defs Let_def)

interpretation trigram: histogram trigram_step t_hist trigram_key trigram_init
  by unfold_locales (simp_all add: js_defs Let_def)

section \<open>Which keys are counted\<close>

abbreviation name :: "steplog \<Rightarrow> string" where
  "name log \<equiv> String (sl_op log)"

lemma unigram_emitted: "unigram.emitted logs this = map name logs"
  by (induction logs arbitrary: this) (simp_all add: unigram_key_def)

lemma unigram_nops: "u_nops this \<le> js_max \<Longrightarrow> u_nops (fold unigram_step logs this) = min js_max (u_nops this + length logs)"
proof (induction logs arbitrary: this)
  case Nil
  then show ?case by simp
next
  case (Cons l ls)
  have *: "u_nops (unigram_step l this) = js_incr (u_nops this)" by (simp add: unigram_step_def)
  have "js_incr (u_nops this) \<le> js_max" using Cons.prems by (simp add: js_incr_def)
  with Cons.IH [of "unigram_step l this"] Cons.prems * show ?case
    by (simp add: js_incr_def split: if_splits)
qed

text \<open>Adjacent operations at the same depth.\<close>

definition bigrams :: "steplog list \<Rightarrow> (string \<times> string) list" where
  "bigrams logs =
     concat (map2 (\<lambda>a b. if sl_depth a = sl_depth b then [(name a, name b)] else []) logs (tl logs))"

definition dash2 :: "string \<times> string \<Rightarrow> string" where
  "dash2 p = fst p @ ''-'' @ snd p"

lemma bigram_fields [simp]:
  "b_lastOp (bigram_step log this) = name log" "b_lastDepth (bigram_step log this) = sl_depth log"
  by (simp_all add: bigram_step_def Let_def)

lemma bigram_emitted_step:
  "bigram.emitted (a # logs) this =
     (if sl_depth a = b_lastDepth this then [b_lastOp this @ ''-'' @ name a] else []) @
     bigram.emitted logs (bigram_step a this)"
  by (simp add: bigram_key_def [of a this])

lemma bigrams_Cons:
  "bigrams (l # a # logs) =
     (if sl_depth l = sl_depth a then [(name l, name a)] else []) @ bigrams (a # logs)"
  by (simp add: bigrams_def)

lemma bigram_emitted_Cons:
  "b_lastOp this = name l \<Longrightarrow> b_lastDepth this = sl_depth l \<Longrightarrow>
   bigram.emitted logs this = map dash2 (bigrams (l # logs))"
proof (induction logs arbitrary: this l)
  case Nil
  then show ?case by (simp add: bigrams_def)
next
  case (Cons a logs)
  from Cons.prems Cons.IH [of "bigram_step a this" a] show ?case
    by (auto simp: bigram_emitted_step bigrams_Cons dash2_def simp del: bigram.emitted.simps)
qed

lemma bigram_emitted:
  assumes "\<forall>l\<in>set logs. 0 < sl_depth l"
  shows "bigram.emitted logs bigram_init = map dash2 (bigrams logs)"
proof (cases logs)
  case Nil
  then show ?thesis by (simp add: bigrams_def)
next
  case (Cons l ls)
  with assms have "bigram_key l bigram_init = None" by (simp add: js_defs)
  with Cons bigram_emitted_Cons [of "bigram_step l bigram_init" l ls] show ?thesis by simp
qed

lemma dash_inject:
  assumes "CHR ''-'' \<notin> set a" and "CHR ''-'' \<notin> set a'" and "a @ ''-'' @ b = a' @ ''-'' @ b'"
  shows "a = a' \<and> b = b'"
proof -
  have t: "takeWhile (\<lambda>c. c \<noteq> CHR ''-'') (x @ ''-'' @ y) = x" if "CHR ''-'' \<notin> set x" for x y :: string
  proof -
    have "takeWhile (\<lambda>c. c \<noteq> CHR ''-'') (x @ ''-'' @ y) = x @ takeWhile (\<lambda>c. c \<noteq> CHR ''-'') (''-'' @ y)"
      by (rule takeWhile_append2) (use that in auto)
    then show ?thesis by simp
  qed
  from t [OF assms(1), of b] t [OF assms(2), of b'] assms(3) have "a = a'" by simp
  with assms(3) show ?thesis by simp
qed

lemma count_map_inj:
  "inj_on f (insert x (set xs)) \<Longrightarrow> count_list (map f xs) (f x) = count_list xs x"
proof (induction xs)
  case Nil
  then show ?case by simp
next
  case (Cons a xs)
  have "inj_on f (insert x (set xs))" by (rule inj_on_subset [OF Cons.prems]) auto
  with Cons show ?case by (auto simp: inj_on_def)
qed

lemma bigram_hist:
  assumes "\<forall>l\<in>set logs. 0 < sl_depth l"
  shows "b_hist (fold bigram_step logs bigram_init) (String a @ ''-'' @ String b) =
    (let n = count_list (bigrams logs) (String a, String b)
     in if n = 0 then None else Some (min js_max n))"
proof -
  have names: "\<exists>x y. p = (String x, String y)" if "p \<in> set (bigrams logs)" for p
    using that by (auto simp: bigrams_def split: if_splits)
  have "inj_on dash2 (insert (String a, String b) (set (bigrams logs)))"
  proof (rule inj_onI)
    fix p q
    assume "p \<in> insert (String a, String b) (set (bigrams logs))" "q \<in> insert (String a, String b) (set (bigrams logs))"
      and eq: "dash2 p = dash2 q"
    with names obtain x y x' y' where "p = (String x, String y)" "q = (String x', String y')" by blast
    with eq dash_inject [OF String_no_dash String_no_dash] show "p = q" by (auto simp: dash2_def)
  qed
  then have "count_list (map dash2 (bigrams logs)) (dash2 (String a, String b)) =
    count_list (bigrams logs) (String a, String b)" by (rule count_map_inj)
  then show ?thesis using bigram.hist_run [of logs] bigram_emitted [OF assms]
    by (simp add: hist_of_count dash2_def)
qed

text \<open>
  Three adjacent operations are counted when the operation before them is at the same depth as
  well: the first operation after a change of depth is skipped.
\<close>

fun trigrams :: "steplog list \<Rightarrow> (string \<times> string \<times> string) list" where
  "trigrams (x # a # b # c # logs) =
     (if sl_depth x = sl_depth a \<and> sl_depth a = sl_depth b \<and> sl_depth b = sl_depth c
      then [(name a, name b, name c)] else []) @ trigrams (a # b # c # logs)"
| "trigrams _ = []"

definition dash3 :: "string \<times> string \<times> string \<Rightarrow> string" where
  "dash3 p = fst p @ ''-'' @ fst (snd p) @ ''-'' @ snd (snd p)"

fun tri_list :: "nat \<Rightarrow> string \<times> string \<Rightarrow> steplog list \<Rightarrow> (string \<times> string \<times> string) list" where
  "tri_list d pq [] = []"
| "tri_list d pq (l # logs) =
     (if sl_depth l \<noteq> d then tri_list (sl_depth l) ([], []) logs
      else (fst pq, snd pq, name l) # tri_list d (snd pq, name l) logs)"

lemma trigram_emitted_step:
  "trigram.emitted (a # logs) this =
     (if sl_depth a = t_lastDepth this
      then [dash3 (fst (t_lastOps this), snd (t_lastOps this), name a)] else []) @
     trigram.emitted logs (trigram_step a this)"
  by (simp add: trigram_key_def [of a this] dash3_def)

lemma trigram_emitted:
  "trigram.emitted logs this = map dash3 (tri_list (t_lastDepth this) (t_lastOps this) logs)"
proof (induction logs arbitrary: this)
  case Nil
  show ?case by simp
next
  case (Cons a logs)
  show ?case using Cons.IH [of "trigram_step a this"]
    by (cases "sl_depth a = t_lastDepth this")
      (simp_all add: trigram_emitted_step trigram_step_def [of a this] Let_def del: trigram.emitted.simps)
qed

lemma trigrams_break:
  "sl_depth b \<noteq> sl_depth l \<Longrightarrow> trigrams (b # l # logs) = trigrams (l # logs)"
  "sl_depth b \<noteq> sl_depth l \<Longrightarrow> trigrams (a # b # l # logs) = trigrams (l # logs)"
  "sl_depth b \<noteq> sl_depth l \<Longrightarrow> trigrams (x # a # b # l # logs) = trigrams (l # logs)"
proof -
  have 1: "trigrams (b # l # logs) = trigrams (l # logs)" if "sl_depth b \<noteq> sl_depth l" for b l logs
    using that by (cases "(b # l # logs)" rule: trigrams.cases) auto
  have 2: "trigrams (a # b # l # logs) = trigrams (l # logs)" if "sl_depth b \<noteq> sl_depth l" for a b l logs
    using that 1 [OF that, of logs] by (cases "(a # b # l # logs)" rule: trigrams.cases) auto
  show "sl_depth b \<noteq> sl_depth l \<Longrightarrow> trigrams (b # l # logs) = trigrams (l # logs)"
    and "sl_depth b \<noteq> sl_depth l \<Longrightarrow> trigrams (a # b # l # logs) = trigrams (l # logs)"
    and "sl_depth b \<noteq> sl_depth l \<Longrightarrow> trigrams (x # a # b # l # logs) = trigrams (l # logs)"
    using 1 2 [of b l a logs] by simp_all
qed

lemma tri_list_count:
  assumes "A \<noteq> []" and "B \<noteq> []"
  shows "(\<forall>x. count_list (tri_list (sl_depth x) ([], []) logs) (A, B, C) =
        count_list (trigrams (x # logs)) (A, B, C)) \<and>
    (\<forall>x a. sl_depth x = sl_depth a \<longrightarrow>
        count_list (tri_list (sl_depth a) ([], name a) logs) (A, B, C) =
        count_list (trigrams (x # a # logs)) (A, B, C)) \<and>
    (\<forall>x a b. sl_depth x = sl_depth a \<longrightarrow> sl_depth a = sl_depth b \<longrightarrow>
        count_list (tri_list (sl_depth b) (name a, name b) logs) (A, B, C) =
        count_list (trigrams (x # a # b # logs)) (A, B, C))"
proof (induction logs)
  case Nil
  show ?case by simp
next
  case (Cons l logs)
  then have one: "count_list (tri_list (sl_depth l) ([], []) logs) (A, B, C) =
        count_list (trigrams (l # logs)) (A, B, C)"
    and two: "\<And>x. sl_depth x = sl_depth l \<Longrightarrow>
        count_list (tri_list (sl_depth l) ([], name l) logs) (A, B, C) =
        count_list (trigrams (x # l # logs)) (A, B, C)"
    and three: "\<And>x a. sl_depth x = sl_depth a \<Longrightarrow> sl_depth a = sl_depth l \<Longrightarrow>
        count_list (tri_list (sl_depth l) (name a, name l) logs) (A, B, C) =
        count_list (trigrams (x # a # l # logs)) (A, B, C)"
    by blast+
  have "count_list (tri_list (sl_depth x) ([], []) (l # logs)) (A, B, C) =
        count_list (trigrams (x # l # logs)) (A, B, C)" for x
    using one two [of x] assms trigrams_break(1) [of x l logs]
    by (cases "sl_depth x = sl_depth l") (simp_all del: trigrams.simps)
  moreover have "count_list (tri_list (sl_depth a) ([], name a) (l # logs)) (A, B, C) =
        count_list (trigrams (x # a # l # logs)) (A, B, C)" if "sl_depth x = sl_depth a" for x a
    using one three [of x a] assms trigrams_break(2) [of a l x logs] that
    by (cases "sl_depth a = sl_depth l") (simp_all del: trigrams.simps)
  moreover have "count_list (tri_list (sl_depth b) (name a, name b) (l # logs)) (A, B, C) =
        count_list (trigrams (x # a # b # l # logs)) (A, B, C)"
    if "sl_depth x = sl_depth a" "sl_depth a = sl_depth b" for x a b
    using one three [of a b] trigrams_break(3) [of b l x a logs] that trigrams.simps(1) [of x a b l logs]
    by (cases "sl_depth b = sl_depth l") (auto simp del: trigrams.simps)
  ultimately show ?case by blast
qed

lemma trigram_hist:
  assumes "\<forall>l\<in>set logs. 0 < sl_depth l"
  shows "t_hist (fold trigram_step logs trigram_init) (String a @ ''-'' @ String b @ ''-'' @ String c) =
    (let n = count_list (trigrams logs) (String a, String b, String c)
     in if n = 0 then None else Some (min js_max n))"
proof -
  let ?T = "tri_list 0 ([], []) logs"
  have nodash: "CHR ''-'' \<notin> set (fst p) \<and> CHR ''-'' \<notin> set (fst (snd p))"
    if "p \<in> set (tri_list d pq logs)" "CHR ''-'' \<notin> set (fst pq)" "CHR ''-'' \<notin> set (snd pq)" for p d pq logs
    using that
  proof (induction logs arbitrary: d pq)
    case (Cons l ls)
    then show ?case using Cons.IH [of d "(snd pq, name l)"] Cons.IH [of "sl_depth l" "([], [])"] String_no_dash [of "sl_op l"]
      by (auto split: if_splits)
  qed simp
  have "inj_on dash3 (insert (String a, String b, String c) (set ?T))"
  proof (rule inj_onI)
    fix p q
    assume "p \<in> insert (String a, String b, String c) (set ?T)" "q \<in> insert (String a, String b, String c) (set ?T)"
      and eq: "dash3 p = dash3 q"
    with nodash [of p 0 "([], [])" logs] nodash [of q 0 "([], [])" logs] String_no_dash
    have "CHR ''-'' \<notin> set (fst p)" "CHR ''-'' \<notin> set (fst (snd p))" "CHR ''-'' \<notin> set (fst q)" "CHR ''-'' \<notin> set (fst (snd q))"
      by auto
    with eq dash_inject [of "fst p" "fst q" "fst (snd p) @ ''-'' @ snd (snd p)" "fst (snd q) @ ''-'' @ snd (snd q)"]
      dash_inject [of "fst (snd p)" "fst (snd q)" "snd (snd p)" "snd (snd q)"]
    show "p = q" by (simp add: dash3_def prod_eq_iff)
  qed
  then have "count_list (map dash3 ?T) (dash3 (String a, String b, String c)) =
    count_list ?T (String a, String b, String c)" by (rule count_map_inj)
  moreover have "count_list ?T (String a, String b, String c) = count_list (trigrams logs) (String a, String b, String c)"
  proof (cases logs)
    case (Cons l ls)
    with assms have "sl_depth l \<noteq> 0" by simp
    with Cons tri_list_count [OF String_nonempty String_nonempty, where logs = ls] show ?thesis by simp
  qed simp
  moreover have "trigram.emitted logs trigram_init = map dash3 ?T"
    using trigram_emitted [of logs trigram_init] by (simp add: trigram_init_def)
  ultimately show ?thesis using trigram.hist_run [of logs]
    by (simp add: hist_of_count dash3_def)
qed


section \<open>Running a tracer through the host\<close>

lemma run_steps_simple: "run_steps (\<lambda>log s this. (step log this, None)) logs this = (fold (step \<circ> fst) logs this, None)"
  by (induction logs arbitrary: this) auto

lemma js_run_result:
  assumes "RunString E (''('' @ code @ '')'') = Inr (simple_methods step res, init)"
  shows "\<exists>t. newJsTracer E code cfg = Inr t \<and>
    GetResult (js_run E S evs t) = Inr (res (fold step (map (log_of E S) evs) init), None)"
proof -
  from assms obtain t where new: "newJsTracer E code cfg = Inr t"
    and t: "t_methods t = simple_methods step res" "traceStep t" "t_err t = None" "t_obj t = init"
    by (simp add: newJsTracer_def simple_methods_def Let_def)
  have "js_step (t_methods t) = Some (\<lambda>log s this. (step log this, None))"
    using t by (simp add: simple_methods_def)
  from js_run_steps [OF this t(2,3), where E = E and S = S and evs = evs] t new show ?thesis
    by (simp add: GetResult_def simple_methods_def run_steps_simple fold_map comp_def)
qed

lemma opcount_fold: "count this \<le> js_max \<Longrightarrow> count (fold opcount_step logs this) = min js_max (count this + length logs)"
proof (induction logs arbitrary: this)
  case Nil
  then show ?case by simp
next
  case (Cons l ls)
  have "js_incr (count this) \<le> js_max" using Cons.prems by (simp add: js_incr_def)
  with Cons.IH [of "opcount_step l this"] Cons.prems show ?case
    by (simp add: opcount_step_def [of l this] js_incr_def split: if_splits)
qed

section \<open>Results of the counting tracers\<close>

lemma String_distinct: "String PUSH1 \<noteq> String ADD" "String ADD \<noteq> String PUSH1"
  by code_simp+

text \<open>
  C28: opcountTracer.  Loaded from its source and shown the steps of an execution, the tracer is
  created and returns the number of steps, without an error (the counter saturates at the
  largest exact integer of JavaScript).
\<close>

theorem opcount_counts_steps:
  assumes "RunString E (''('' @ code @ '')'') = Inr (opcountTracer, opcount_init)"
  shows "\<exists>t. newJsTracer E code cfg = Inr t \<and>
    GetResult (js_run E S evs t) = Inr (min js_max (length evs), None)"
  using js_run_result [OF assms [unfolded opcountTracer_def], where cfg = cfg and S = S and evs = evs]
    opcount_fold [of opcount_init "map (log_of E S) evs"]
  by (simp add: opcount_result_def opcount_init_def)

theorem opcount_counts_steps_witness:
  "\<exists>t. newJsTracer (const_engine opcountTracer opcount_init) ''code'' None = Inr t \<and>
    GetResult (js_run (const_engine opcountTracer opcount_init) plain_db
      (plain_events 1 [PUSH1, STOP]) t) = Inr (2, None)"
  using opcount_counts_steps [of "const_engine opcountTracer opcount_init" "''code''" None plain_db
      "plain_events 1 [PUSH1, STOP]"]
  by (simp add: js_max_def plain_events_def flip: numeral_2_eq_2)

text \<open>
  C27: unigramTracer.  The result maps the name of each executed opcode to the number of its
  executions, and holds nothing else.
\<close>

theorem unigram_counts_opcodes:
  assumes "RunString E (''('' @ code @ '')'') = Inr (unigramTracer, unigram_init)"
  shows "\<exists>t. newJsTracer E code cfg = Inr t \<and>
    GetResult (js_run E S evs t) = Inr (hist_of (map (\<lambda>ev. String (si_op (snd ev))) evs), None)"
  using js_run_result [OF assms [unfolded unigramTracer_def], where cfg = cfg and S = S and evs = evs]
    unigram.hist_run [of "map (log_of E S) evs"]
  by (simp add: unigram_result_def unigram_emitted comp_def)

theorem unigram_counts_opcodes_witness:
  "\<exists>t. newJsTracer (const_engine unigramTracer unigram_init) ''code'' None = Inr t \<and>
    GetResult (js_run (const_engine unigramTracer unigram_init) plain_db
      (plain_events 1 [PUSH1, STOP]) t) =
    Inr (hist_of [String PUSH1, String STOP], None)"
  using unigram_counts_opcodes [of "const_engine unigramTracer unigram_init" "''code''" None plain_db
      "plain_events 1 [PUSH1, STOP]"]
  by (simp add: plain_events_def)

text \<open>
  C26: bigramTracer.  For opcodes a and b, the entry of the key "a-b" is the number of positions
  where b is executed right after a at the same call depth; a pair that does not occur has no
  entry.
\<close>

theorem bigram_counts_pairs:
  assumes "RunString E (''('' @ code @ '')'') = Inr (bigramTracer, bigram_init)"
    and "\<forall>ev\<in>set evs. 0 < si_depth (snd ev)"
  shows "\<exists>t h. newJsTracer E code cfg = Inr t \<and> GetResult (js_run E S evs t) = Inr (h, None) \<and>
    (\<forall>a b. h (String a @ ''-'' @ String b) =
       (let n = count_list (bigrams (map (log_of E S) evs)) (String a, String b)
        in if n = 0 then None else Some (min js_max n)))"
proof -
  have "\<forall>l\<in>set (map (log_of E S) evs). 0 < sl_depth l" using assms(2) by simp
  from js_run_result [OF assms(1) [unfolded bigramTracer_def], where cfg = cfg and S = S and evs = evs]
    bigram_hist [OF this]
  show ?thesis unfolding bigram_result_def by blast
qed

theorem bigram_counts_pairs_witness:
  "\<exists>t h. newJsTracer (const_engine bigramTracer bigram_init) ''code'' None = Inr t \<and>
    GetResult (js_run (const_engine bigramTracer bigram_init) plain_db
      (plain_events 1 [PUSH1, PUSH1, ADD, PUSH1, ADD]) t) = Inr (h, None) \<and>
    h (String PUSH1 @ ''-'' @ String ADD) = Some 2"
proof -
  let ?E = "const_engine bigramTracer bigram_init :: (unit, bigram, string \<rightharpoonup> nat) engine"
  let ?evs = "plain_events 1 [PUSH1, PUSH1, ADD, PUSH1, ADD]"
  have "count_list (bigrams (map (log_of ?E plain_db) ?evs)) (String PUSH1, String ADD) = 2"
    using String_distinct by (simp add: bigrams_def plain_events_def numeral_2_eq_2)
  moreover have "\<forall>ev\<in>set ?evs. 0 < si_depth (snd ev)" by (simp add: plain_events_def)
  ultimately show ?thesis
    using bigram_counts_pairs [of ?E "''code''" ?evs None plain_db]
    by (auto simp: js_max_def)
qed

text \<open>
  C25: trigramTracer.  For opcodes a, b and c, the entry of the key "a-b-c" is the number of
  positions where a, b and c are executed in a row at the same call depth and the operation
  before a is at that depth as well.  The first operation after each change of depth is
  therefore never part of a counted trigram.
\<close>

theorem trigram_counts_triples:
  assumes "RunString E (''('' @ code @ '')'') = Inr (trigramTracer, trigram_init)"
    and "\<forall>ev\<in>set evs. 0 < si_depth (snd ev)"
  shows "\<exists>t h. newJsTracer E code cfg = Inr t \<and> GetResult (js_run E S evs t) = Inr (h, None) \<and>
    (\<forall>a b c. h (String a @ ''-'' @ String b @ ''-'' @ String c) =
       (let n = count_list (trigrams (map (log_of E S) evs)) (String a, String b, String c)
        in if n = 0 then None else Some (min js_max n)))"
proof -
  have "\<forall>l\<in>set (map (log_of E S) evs). 0 < sl_depth l" using assms(2) by simp
  from js_run_result [OF assms(1) [unfolded trigramTracer_def], where cfg = cfg and S = S and evs = evs]
    trigram_hist [OF this]
  show ?thesis unfolding trigram_result_def by blast
qed

theorem trigram_counts_triples_witness:
  "\<exists>t h. newJsTracer (const_engine trigramTracer trigram_init) ''code'' None = Inr t \<and>
    GetResult (js_run (const_engine trigramTracer trigram_init) plain_db
      (plain_events 1 [PUSH1, PUSH1, ADD, PUSH1]) t) = Inr (h, None) \<and>
    h (String PUSH1 @ ''-'' @ String PUSH1 @ ''-'' @ String ADD) = None \<and>
    h (String PUSH1 @ ''-'' @ String ADD @ ''-'' @ String PUSH1) = Some 1"
proof -
  let ?E = "const_engine trigramTracer trigram_init :: (unit, trigram, string \<rightharpoonup> nat) engine"
  let ?evs = "plain_events 1 [PUSH1, PUSH1, ADD, PUSH1]"
  let ?T = "trigrams (map (log_of ?E plain_db) ?evs)"
  have "count_list ?T (String PUSH1, String PUSH1, String ADD) = 0"
    and "count_list ?T (String PUSH1, String ADD, String PUSH1) = 1"
    using String_distinct by (simp_all add: plain_events_def)
  moreover have "\<forall>ev\<in>set ?evs. 0 < si_depth (snd ev)" by (simp add: plain_events_def)
  ultimately show ?thesis
    using trigram_counts_triples [of ?E "''code''" ?evs None plain_db]
    by (auto simp: js_max_def)
qed

end
