(* ===== verification/JsEvmdis.thy ===== *)
theory JsEvmdis
  imports JsHost
begin

text \<open>
  The tracer evmdis of src/tracers/js/internal/tracers.  The objects that it builds are shared
  (the object of a call is in the list of its caller and on the stack of open frames), so they
  live in an explicit heap and the lists hold their indices.  The lemmas show that the heap always
  is a tree whose walk gives the objects in the order of their creation.
\<close>

section \<open>Objects\<close>

text \<open>
  The bigInt library of the engine and the conversion of a number to an \<open>int64\<close> argument are
  parameters: \<open>valueOf\<close> gives the nearest number, \<open>toStringRadix\<close> the digits in a radix.
\<close>

record bigint =
  valueOf :: "nat \<Rightarrow> nat"
  toStringRadix :: "nat \<Rightarrow> nat \<Rightarrow> string"
  toInt64 :: "nat \<Rightarrow> int"

text \<open>A property that may be missing, null, or a value.\<close>

datatype 'a field = Absent | Null | Val 'a

datatype opval = OpNumber nat | OpString string

text \<open>An object of the trace; the root object \<open>{ops: []}\<close> has only \<open>ops\<close>.\<close>

record opinfo =
  o_op :: "opval option"
  o_depth :: "nat option"
  o_result :: "string list option"
  o_gas :: "nat option"
  o_to :: "string option"
  o_value :: "string option"
  o_input :: "bytes option"
  o_error :: "string field"
  o_return :: "bytes field"
  o_ops :: "nat list option"
  o_pc :: "nat option"
  o_len :: "nat option"

record evmdis =
  heap :: "opinfo list"
  dstack :: "nat list"

definition npushes :: "(nat \<times> nat) list" where
  "npushes =
    [(0, 0), (1, 1), (2, 1), (3, 1), (4, 1), (5, 1), (6, 1), (7, 1), (8, 1), (9, 1), (10, 1), (11, 1),
     (16, 1), (17, 1), (18, 1), (19, 1), (20, 1), (21, 1), (22, 1), (23, 1), (24, 1), (25, 1), (26, 1),
     (32, 1), (48, 1), (49, 1), (50, 1), (51, 1), (52, 1), (53, 1), (54, 1), (55, 0), (56, 1), (57, 0),
     (58, 1), (59, 1), (60, 0), (64, 1), (65, 1), (66, 1), (67, 1), (68, 1), (69, 1), (80, 0), (81, 1),
     (82, 0), (83, 0), (84, 1), (85, 0), (86, 0), (87, 0), (88, 1), (89, 1), (90, 1), (91, 0), (96, 1),
     (97, 1), (98, 1), (99, 1), (100, 1), (101, 1), (102, 1), (103, 1), (104, 1), (105, 1), (106, 1),
     (107, 1), (108, 1), (109, 1), (110, 1), (111, 1), (112, 1), (113, 1), (114, 1), (115, 1), (116, 1),
     (117, 1), (118, 1), (119, 1), (120, 1), (121, 1), (122, 1), (123, 1), (124, 1), (125, 1), (126, 1),
     (127, 1), (128, 2), (129, 3), (130, 4), (131, 5), (132, 6), (133, 7), (134, 8), (135, 9), (136, 10),
     (137, 11), (138, 12), (139, 13), (140, 14), (141, 15), (142, 16), (143, 17), (144, 2), (145, 3),
     (146, 4), (147, 5), (148, 6), (149, 7), (150, 8), (151, 9), (152, 10), (153, 11), (154, 12),
     (155, 13), (156, 14), (157, 15), (158, 16), (159, 17), (160, 0), (161, 0), (162, 0), (163, 0),
     (164, 0), (240, 1), (241, 1), (242, 1), (243, 0), (244, 0), (255, 0)]"

definition empty_info :: opinfo where
  "empty_info = \<lparr>o_op = None, o_depth = None, o_result = None, o_gas = None, o_to = None,
     o_value = None, o_input = None, o_error = Absent, o_return = Absent, o_ops = None,
     o_pc = None, o_len = None\<rparr>"

definition evmdis_init :: evmdis where
  "evmdis_init = \<lparr>heap = [empty_info\<lparr>o_ops := Some []\<rparr>], dstack = [0]\<rparr>"

text \<open>Host calls: a panic of the host is an error of the engine.\<close>

definition host :: "(js_error + 'a) option \<Rightarrow> js_error + 'a" where
  "host r = (case r of Some x \<Rightarrow> x | None \<Rightarrow> Inl (EngineError ''panic''))"

definition peek_big :: "steplog \<Rightarrow> nat \<Rightarrow> js_error + nat" where
  "peek_big log i = host (stackObj_peek (sl_stack log) (int i))"

definition slice_mem :: "bigint \<Rightarrow> steplog \<Rightarrow> nat \<Rightarrow> nat \<Rightarrow> js_error + bytes" where
  "slice_mem B log a b = host (memoryObj_slice (sl_memory log) (toInt64 B a) (toInt64 B b))"

text \<open>
  The loop that fills the results of the previous operation with the top of the stack; an error
  leaves the results pushed so far.
\<close>

fun push_results :: "bigint \<Rightarrow> steplog \<Rightarrow> nat list \<Rightarrow> string list \<Rightarrow> string list \<times> js_error option" where
  "push_results B log [] acc = (acc, None)"
| "push_results B log (i # is) acc =
     (case peek_big log i of
        Inl e \<Rightarrow> (acc, Some e)
      | Inr v \<Rightarrow> push_results B log is (acc @ [toStringRadix B v 16]))"

text \<open>\<open>this.npushes[prevop.op]\<close>; a comparison with \<open>undefined\<close> is false, so the loop does not run.\<close>

definition npushes_of :: "opval option \<Rightarrow> nat" where
  "npushes_of op =
     (case op of
        Some (OpNumber n) \<Rightarrow> (case map_of npushes n of Some k \<Rightarrow> k | None \<Rightarrow> 0)
      | _ \<Rightarrow> 0)"

definition evmdis_prev :: "bigint \<Rightarrow> steplog \<Rightarrow> nat \<Rightarrow> opinfo list \<Rightarrow> opinfo list \<times> js_error option" where
  "evmdis_prev B log prevop h =
     (let n = npushes_of (o_op (h ! prevop))
      in if n = 0 then (h, None)
         else case o_result (h ! prevop) of
                None \<Rightarrow> (h, Some TypeError)
              | Some rs \<Rightarrow>
                  let (rs, err) = push_results B log [0..<n] rs
                  in (h[prevop := (h ! prevop)\<lparr>o_result := Some rs\<rparr>], err))"

text \<open>
  The object of the current operation, with what the switch adds to it: the new value of the
  frame's property \<open>return\<close>, and whether the object becomes an open frame.
\<close>

definition base_info :: "steplog \<Rightarrow> opinfo" where
  "base_info log = empty_info
     \<lparr>o_op := Some (OpNumber (unat (sl_op log))), o_depth := Some (sl_depth log), o_result := Some []\<rparr>"

definition evmdis_call :: "bigint \<Rightarrow> steplog \<Rightarrow> js_error + opinfo" where
  "evmdis_call B log =
     sbind (peek_big log 3) (\<lambda>x. let instart = valueOf B x in
     sbind (peek_big log 4) (\<lambda>x. let insize = valueOf B x in
     sbind (peek_big log 0) (\<lambda>g.
     sbind (peek_big log 1) (\<lambda>to.
     sbind (peek_big log 2) (\<lambda>v.
     sbind (slice_mem B log instart (js_add instart insize)) (\<lambda>input.
       Inr ((base_info log)\<lparr>o_gas := Some (valueOf B g), o_to := Some (toStringRadix B to 16),
         o_value := Some (toStringRadix B v 10), o_input := Some input, o_error := Null,
         o_return := Null, o_ops := Some []\<rparr>)))))))"

definition evmdis_delegate :: "bigint \<Rightarrow> steplog \<Rightarrow> js_error + opinfo" where
  "evmdis_delegate B log =
     sbind (peek_big log 2) (\<lambda>x. let instart = valueOf B x in
     sbind (peek_big log 3) (\<lambda>x. let insize = valueOf B x in
     sbind (peek_big log 0) (\<lambda>g.
     sbind (peek_big log 1) (\<lambda>to.
     sbind (slice_mem B log instart (js_add instart insize)) (\<lambda>input.
       Inr ((base_info log)\<lparr>o_op := Some (OpString (String (sl_op log))), o_gas := Some (valueOf B g),
         o_to := Some (toStringRadix B to 16), o_input := Some input, o_error := Null,
         o_return := Null, o_ops := Some []\<rparr>))))))"

definition evmdis_return :: "bigint \<Rightarrow> steplog \<Rightarrow> js_error + bytes" where
  "evmdis_return B log =
     sbind (peek_big log 0) (\<lambda>x. let out = valueOf B x in
     sbind (peek_big log 1) (\<lambda>x. let outsize = valueOf B x in
     slice_mem B log out (js_add out outsize)))"

definition evmdis_switch :: "bigint \<Rightarrow> steplog \<Rightarrow> js_error + opinfo \<times> bytes option \<times> bool" where
  "evmdis_switch B log =
     (let op = String (sl_op log); info = base_info log
      in if op = ''CALL'' \<or> op = ''CALLCODE'' then
           sbind (evmdis_call B log) (\<lambda>info. Inr (info, None, True))
         else if op = ''DELEGATECALL'' \<or> op = ''STATICCALL'' then
           sbind (evmdis_delegate B log) (\<lambda>info. Inr (info, None, True))
         else if op = ''RETURN'' \<or> op = ''REVERT'' then
           sbind (evmdis_return B log) (\<lambda>r. Inr (info, Some r, False))
         else if op = ''STOP'' \<or> op = ''SELFDESTRUCT'' then
           sbind (slice_mem B log 0 0) (\<lambda>r. Inr (info, Some r, False))
         else if op = ''JUMPDEST'' then
           Inr (info\<lparr>o_pc := Some (js_round (unat (sl_pc log)))\<rparr>, None, False)
         else Inr (info, None, False))"

definition with_len :: "steplog \<Rightarrow> opinfo \<Rightarrow> opinfo" where
  "with_len log info =
     (if IsPush (sl_op log) then info\<lparr>o_len := Some (unat (sl_op log) - 0x5e)\<rparr> else info)"

text \<open>Recording an operation in the open frame \<open>f\<close>.\<close>

definition evmdis_op :: "bigint \<Rightarrow> steplog \<Rightarrow> nat \<Rightarrow> evmdis \<Rightarrow> evmdis \<times> js_error option" where
  "evmdis_op B log f this =
     (case o_ops (heap this ! f) of
        None \<Rightarrow> (this, Some TypeError)
      | Some ops \<Rightarrow>
          let (h, err) = (if ops \<noteq> [] then evmdis_prev B log (last ops) (heap this) else (heap this, None));
              this = this\<lparr>heap := h\<rparr>
          in case err of
               Some e \<Rightarrow> (this, Some e)
             | None \<Rightarrow>
                 (case evmdis_switch B log of
                    Inl e \<Rightarrow> (this, Some e)
                  | Inr (info, ret, enters) \<Rightarrow>
                      let n = length h;
                          frame = (case ret of None \<Rightarrow> h ! f | Some r \<Rightarrow> (h ! f)\<lparr>o_return := Val r\<rparr>)
                      in (this\<lparr>heap := (h[f := frame\<lparr>o_ops := Some (ops @ [n])\<rparr>]) @ [with_len log info],
                               dstack := dstack this @ (if enters then [n] else [])\<rparr>, None)))"

definition evmdis_step :: "bigint \<Rightarrow> steplog \<Rightarrow> evmdis \<Rightarrow> evmdis \<times> js_error option" where
  "evmdis_step B log this =
     (let frame = (if dstack this = [] then None else Some (last (dstack this)));
          error = (case sl_err log of None \<Rightarrow> [] | Some e \<Rightarrow> e)
      in if error \<noteq> [] then
           (case frame of
              None \<Rightarrow> (this, Some TypeError)
            | Some f \<Rightarrow> (this\<lparr>heap := (heap this)[f := (heap this ! f)\<lparr>o_error := Val error\<rparr>]\<rparr>, None))
         else if sl_depth log = length (dstack this) then
           (case frame of
              None \<Rightarrow> (this, Some TypeError)
            | Some f \<Rightarrow> evmdis_op B log f this)
         else (this\<lparr>dstack := take (sl_depth log) (dstack this)\<rparr>, None))"

text \<open>\<open>result\<close> returns the list \<open>ops\<close> of the root; its elements are objects of the heap.\<close>

definition evmdis_result :: "evmdis \<Rightarrow> js_error + opinfo list \<times> nat list" where
  "evmdis_result this =
     (case dstack this of
        [] \<Rightarrow> Inl TypeError
      | r # _ \<Rightarrow> (case o_ops (heap this ! r) of Some ops \<Rightarrow> Inr (heap this, ops) | None \<Rightarrow> Inr (heap this, [])))"

definition evmdisTracer :: "bigint \<Rightarrow> ('s, evmdis, opinfo list \<times> nat list) jsMethods" where
  "evmdisTracer B =
     \<lparr>js_result = Some (\<lambda>c this. evmdis_result this), js_fault = Some (\<lambda>log s this. (this, None)),
      js_step = Some (\<lambda>log s this. evmdis_step B log this), js_enter = None, js_exit = None,
      js_setup = None\<rparr>"

section \<open>The shape of the trace\<close>

definition kids :: "opinfo list \<Rightarrow> nat \<Rightarrow> nat list" where
  "kids h i = (case o_ops (h ! i) of Some ops \<Rightarrow> ops | None \<Rightarrow> [])"

text \<open>
  \<open>span K i e\<close>: the objects below \<open>i\<close>, with \<open>i\<close>, are \<open>i, ..., e - 1\<close> in the order of a walk
  through the lists \<open>K\<close>.
\<close>

inductive span :: "(nat \<Rightarrow> nat list) \<Rightarrow> nat \<Rightarrow> nat \<Rightarrow> bool"
  and spans :: "(nat \<Rightarrow> nat list) \<Rightarrow> nat list \<Rightarrow> nat \<Rightarrow> nat \<Rightarrow> bool" for K where
  spanI: "spans K (K i) (Suc i) e \<Longrightarrow> span K i e"
| spans_Nil: "spans K [] a a"
| spans_Cons: "span K k b \<Longrightarrow> spans K ks b e \<Longrightarrow> spans K (k # ks) k e"

inductive_cases spanE: "span K i e"
inductive_cases spans_NilE: "spans K [] a e"
inductive_cases spans_ConsE: "spans K (k # ks) a e"

lemma span_less: "span K i e \<Longrightarrow> i < e" and spans_le: "spans K ks a e \<Longrightarrow> a \<le> e"
  by (induction rule: span_spans.inducts) auto

lemma span_cong:
  "span K i e \<Longrightarrow> (\<And>j. i \<le> j \<Longrightarrow> j < e \<Longrightarrow> K' j = K j) \<Longrightarrow> span K' i e"
  and spans_cong:
  "spans K ks a e \<Longrightarrow> (\<And>j. a \<le> j \<Longrightarrow> j < e \<Longrightarrow> K' j = K j) \<Longrightarrow> spans K' ks a e"
proof (induction rule: span_spans.inducts)
  case (spanI i e)
  from spans_le [OF spanI(1)] have "K' i = K i" by (intro spanI(3)) simp_all
  moreover have "spans K' (K i) (Suc i) e" by (rule spanI(2)) (use spanI(3) in simp)
  ultimately show ?case using span_spans.spanI [of K' i e] by simp
next
  case (spans_Nil a)
  show ?case by (rule span_spans.spans_Nil)
next
  case (spans_Cons k b ks e)
  have "k < b" "b \<le> e" using span_less [OF spans_Cons(1)] spans_le [OF spans_Cons(3)] .
  show ?case
    by (rule span_spans.spans_Cons [OF spans_Cons(2) spans_Cons(4)])
      (use spans_Cons(5) \<open>k < b\<close> \<open>b \<le> e\<close> in simp_all)
qed

lemma spans_append:
  "spans K (ks @ ls) a e \<longleftrightarrow> (\<exists>b. spans K ks a b \<and> spans K ls b e)"
proof (induction ks arbitrary: a)
  case Nil
  show ?case by (auto elim: spans_NilE intro: spans_Nil)
next
  case (Cons k ks)
  then show ?case by (fastforce elim!: spans_ConsE intro: spans_Cons)
qed

lemma spans_single: "spans K [k] a e \<longleftrightarrow> k = a \<and> span K k e"
  by (auto elim!: spans_ConsE spans_NilE intro: spans_Cons spans_Nil)

text \<open>A new leaf \<open>n\<close> at the end of the list of \<open>f\<close>.\<close>

lemma span_snoc:
  assumes "span K f n" and "K n = []"
  shows "span (K(f := K f @ [n])) f (Suc n)"
proof -
  let ?K = "K(f := K f @ [n])"
  from assms(1) have s: "spans K (K f) (Suc f) n" and "f < n"
    by (auto elim: spanE dest: span_less)
  then have "spans ?K (K f) (Suc f) n" by (intro spans_cong [OF s]) auto
  moreover have "span ?K n (Suc n)"
    using \<open>f < n\<close> assms(2) by (intro spanI) (simp add: spans_Nil)
  ultimately have "spans ?K (K f @ [n]) (Suc f) (Suc n)" by (auto simp: spans_append spans_single)
  then show ?thesis by (intro spanI) simp
qed

text \<open>The open frames: each is the last object in the list of the one before.\<close>

fun chain :: "(nat \<Rightarrow> nat list) \<Rightarrow> nat list \<Rightarrow> bool" where
  "chain K (a # b # st) \<longleftrightarrow> K a \<noteq> [] \<and> last (K a) = b \<and> chain K (b # st)"
| "chain K st \<longleftrightarrow> True"

lemma span_last:
  assumes "span K a n" and "K a \<noteq> []"
  shows "\<exists>ks. K a = ks @ [last (K a)] \<and> spans K ks (Suc a) (last (K a)) \<and> span K (last (K a)) n \<and> a < last (K a)"
proof -
  obtain ks where k: "K a = ks @ [last (K a)]" using assms(2) by (metis append_butlast_last_id)
  from assms(1) have "spans K (K a) (Suc a) n" by (auto elim: spanE)
  with k have s: "spans K ks (Suc a) (last (K a))" and "span K (last (K a)) n"
    by (metis spans_append spans_single)+
  with spans_le [OF s] k show ?thesis by auto
qed

lemma chain_span:
  "chain K st \<Longrightarrow> st \<noteq> [] \<Longrightarrow> span K (hd st) n \<Longrightarrow> hd st \<le> last st \<and> span K (last st) n"
proof (induction K st rule: chain.induct)
  case (1 K a b st)
  then have ab: "K a \<noteq> []" "last (K a) = b" by simp_all
  with span_last [of K a n] 1 have "span K b n" "a < b" by auto
  with 1 ab show ?case by auto
qed auto

lemma chain_snoc:
  assumes "chain K st" and "st \<noteq> []" and "span K (hd st) n" and "K n = []"
  shows "span (K(last st := K (last st) @ [n])) (hd st) (Suc n)"
  using assms
proof (induction K st rule: chain.induct [case_names step none single])
  case (step K a b st)
  let ?f = "last (b # st)"
  let ?K = "K(?f := K ?f @ [n])"
  from step have ab: "K a \<noteq> []" "last (K a) = b" "chain K (b # st)" by simp_all
  obtain ks where ks: "K a = ks @ [b]" "spans K ks (Suc a) b" "span K b n" "a < b"
    using span_last [of K a n] step ab by auto
  have bf: "b \<le> ?f" using chain_span [OF ab(3) _ , of n] ks(3) by simp
  have "span ?K (hd (b # st)) (Suc n)"
    by (rule step.IH [OF ab(3)]) (use step.prems(4) ks(3) in simp_all)
  then have "span ?K b (Suc n)" by (simp only: list.sel)
  moreover have "spans ?K ks (Suc a) b" by (rule spans_cong [OF ks(2)]) (use bf in auto)
  ultimately have "spans ?K (ks @ [b]) (Suc a) (Suc n)" by (auto simp: spans_append spans_single)
  moreover have "?K a = ks @ [b]" using ks bf by auto
  ultimately have "span ?K a (Suc n)" by (intro spanI) (simp only:)
  then show ?case by (simp only: list.sel last_ConsR [of "b # st" a] list.distinct not_False_eq_True)
next
  case (single K v)
  then have "span (K(v := K v @ [n])) v (Suc n)" by (intro span_snoc) simp_all
  then show ?case by (simp only: list.sel last.simps if_True refl)
qed simp_all

lemma chain_take: "chain K st \<Longrightarrow> chain K (take d st)"
proof (induction K st arbitrary: d rule: chain.induct)
  case (1 K a b st)
  then have IH: "\<And>d. chain K (take d (b # st))" by simp
  consider "d = 0" | "d = 1" | k where "d = Suc (Suc k)" by (cases d; cases "d - 1") auto
  then show ?case using 1 IH [of "Suc k" for k] by cases auto
qed (auto simp: take_Cons')

lemma chain_cong: "(\<And>a. a \<in> set (butlast st) \<Longrightarrow> K' a = K a) \<Longrightarrow> chain K st \<Longrightarrow> chain K' st"
  by (induction K st rule: chain.induct) auto

lemma chain_append: "chain K st \<Longrightarrow> st \<noteq> [] \<Longrightarrow> K (last st) \<noteq> [] \<Longrightarrow> last (K (last st)) = n \<Longrightarrow> chain K (st @ [n])"
  by (induction K st rule: chain.induct) auto

lemma chain_sorted: "chain K st \<Longrightarrow> st \<noteq> [] \<Longrightarrow> span K (hd st) n \<Longrightarrow> x \<in> set (butlast st) \<Longrightarrow> x < last st"
proof (induction K st rule: chain.induct)
  case (1 K a b st)
  then have ab: "K a \<noteq> []" "last (K a) = b" "chain K (b # st)" by simp_all
  with span_last [of K a n] 1 have "span K b n" "a < b" by auto
  with chain_span [OF ab(3), of n] 1 ab show ?case by (auto split: if_splits)
qed auto


section \<open>The invariant\<close>

definition dis_inv :: "evmdis \<Rightarrow> bool" where
  "dis_inv s \<longleftrightarrow>
     dstack s \<noteq> [] \<and> hd (dstack s) = 0 \<and> chain (kids (heap s)) (dstack s) \<and>
     span (kids (heap s)) 0 (length (heap s)) \<and>
     (\<forall>f\<in>set (dstack s). f < length (heap s) \<and> o_ops (heap s ! f) \<noteq> None) \<and>
     (\<forall>i. 0 < i \<longrightarrow> i < length (heap s) \<longrightarrow> o_result (heap s ! i) \<noteq> None)"

text \<open>An update of the heap that keeps the lists and the presence of results.\<close>

definition same_shape :: "opinfo list \<Rightarrow> opinfo list \<Rightarrow> bool" where
  "same_shape h h' \<longleftrightarrow> length h' = length h \<and> (\<forall>i<length h. o_ops (h' ! i) = o_ops (h ! i) \<and>
     o_op (h' ! i) = o_op (h ! i) \<and> o_depth (h' ! i) = o_depth (h ! i) \<and>
     (o_result (h ! i) \<noteq> None \<longrightarrow> o_result (h' ! i) \<noteq> None))"

lemma same_shape_refl [simp]: "same_shape h h"
  by (simp add: same_shape_def)

lemma same_shape_update:
  "o_ops x = o_ops (h ! i) \<Longrightarrow> o_op x = o_op (h ! i) \<Longrightarrow> o_depth x = o_depth (h ! i) \<Longrightarrow>
   (o_result (h ! i) \<noteq> None \<longrightarrow> o_result x \<noteq> None) \<Longrightarrow> same_shape h (h[i := x])"
  by (cases "i < length h") (auto simp: same_shape_def nth_list_update)

lemma same_shape_kids: "same_shape h h' \<Longrightarrow> i < length h \<Longrightarrow> kids h' i = kids h i"
  by (simp add: same_shape_def kids_def)

lemma dis_inv_less: "dis_inv s \<Longrightarrow> last (dstack s) < length (heap s)"
  by (simp add: dis_inv_def)

lemma dis_inv_shape:
  assumes "dis_inv s" and "same_shape (heap s) h"
  shows "dis_inv (s\<lparr>heap := h\<rparr>)"
proof -
  let ?K = "kids (heap s)"
  from assms(1) have st: "dstack s \<noteq> []" "hd (dstack s) = 0" "chain ?K (dstack s)"
    and sp: "span ?K 0 (length (heap s))"
    and fr: "\<And>g. g \<in> set (dstack s) \<Longrightarrow> g < length (heap s) \<and> o_ops (heap s ! g) \<noteq> None"
    and res: "\<And>i. 0 < i \<Longrightarrow> i < length (heap s) \<Longrightarrow> o_result (heap s ! i) \<noteq> None"
    by (auto simp: dis_inv_def)
  have len: "length h = length (heap s)" using assms(2) by (simp add: same_shape_def)
  have k: "kids h i = ?K i" if "i < length (heap s)" for i
    by (rule same_shape_kids [OF assms(2) that])
  have "span (kids h) 0 (length h)" unfolding len by (rule span_cong [OF sp]) (rule k)
  moreover have "chain (kids h) (dstack s)"
  proof (rule chain_cong [OF _ st(3)])
    fix a assume "a \<in> set (butlast (dstack s))"
    then have "a < length (heap s)" using fr [of a] by (simp add: in_set_butlastD)
    then show "kids h a = ?K a" by (rule k)
  qed
  moreover have "g < length h \<and> o_ops (h ! g) \<noteq> None" if "g \<in> set (dstack s)" for g
    using fr [OF that] assms(2) by (simp add: same_shape_def)
  moreover have "o_result (h ! i) \<noteq> None" if "0 < i" "i < length h" for i
    using res [of i] that assms(2) by (simp add: same_shape_def)
  ultimately show ?thesis using st by (simp add: dis_inv_def)
qed

lemma dis_inv_take:
  "dis_inv s \<Longrightarrow> 0 < d \<Longrightarrow> dis_inv (s\<lparr>dstack := take d (dstack s)\<rparr>)"
  by (auto simp: dis_inv_def chain_take dest: in_set_takeD)

lemma dis_inv_record:
  assumes inv: "dis_inv s" and f: "f = last (dstack s)" and ops: "o_ops (heap s ! f) = Some ops"
    and frame: "o_result (heap s ! f) \<noteq> None \<longrightarrow> o_result frame \<noteq> None" "o_ops frame = Some (ops @ [length (heap s)])"
    and info: "o_result info \<noteq> None" "o_ops info = (if enters then Some [] else None)"
  shows "dis_inv (s\<lparr>heap := (heap s)[f := frame] @ [info],
    dstack := dstack s @ (if enters then [length (heap s)] else [])\<rparr>)"
proof -
  let ?n = "length (heap s)" and ?h = "(heap s)[f := frame] @ [info]"
  from inv have st: "dstack s \<noteq> []" "hd (dstack s) = 0" "chain (kids (heap s)) (dstack s)"
    and sp: "span (kids (heap s)) 0 ?n"
    and fr: "\<And>g. g \<in> set (dstack s) \<Longrightarrow> g < ?n \<and> o_ops (heap s ! g) \<noteq> None"
    and res: "\<And>i. 0 < i \<Longrightarrow> i < ?n \<Longrightarrow> o_result (heap s ! i) \<noteq> None"
    by (auto simp: dis_inv_def)
  have fn: "f < ?n" using fr [of f] st f by simp
  have out: "kids ?h ?n = []" using info by (simp add: kids_def nth_append)
  have fk: "kids ?h f = kids (heap s) f @ [?n]" using ops frame fn by (simp add: kids_def nth_append)
  have old: "kids ?h i = kids (heap s) i" if "i < ?n" "i \<noteq> f" for i
    using that by (simp add: kids_def nth_append)
  define K where "K = (kids (heap s))(?n := [])"
  have K: "i < ?n \<Longrightarrow> K i = kids (heap s) i" "K ?n = []" for i by (simp_all add: K_def)
  have "span K 0 ?n" by (rule span_cong [OF sp]) (simp add: K)
  moreover have "chain K (dstack s)"
    by (rule chain_cong [OF _ st(3)]) (metis K(1) fr in_set_butlastD)
  ultimately have "span (K(f := K f @ [?n])) 0 (Suc ?n)"
    using chain_snoc [of K "dstack s" ?n] st K f by (simp del: fun_upd_apply)
  then have "span (kids ?h) 0 (Suc ?n)"
    by (rule span_cong) (use fk old out K fn in \<open>auto simp: less_Suc_eq\<close>)
  moreover have ch: "chain (kids ?h) (dstack s)"
  proof (rule chain_cong [OF _ st(3)])
    fix a assume a: "a \<in> set (butlast (dstack s))"
    then have "a < f" using chain_sorted [OF st(3,1)] sp st f by auto
    then show "kids ?h a = kids (heap s) a" using old fn by simp
  qed
  moreover have "chain (kids ?h) (dstack s @ [?n])"
    by (rule chain_append [OF ch st(1)]) (use fk f in auto)
  moreover have "g < Suc ?n \<and> o_ops (?h ! g) \<noteq> None" if "g \<in> set (dstack s)" for g
    using fr [OF that] frame(2) fn by (cases "g = f") (simp_all add: nth_append)
  moreover have "o_result (?h ! i) \<noteq> None" if "0 < i" "i < Suc ?n" for i
    using res [of i] that info(1) frame(1) fn
    by (cases "i = f"; cases "i = ?n") (simp_all add: nth_append)
  ultimately show ?thesis using st info(2) by (auto simp: dis_inv_def nth_append hd_append)
qed

section \<open>Steps\<close>

definition is_call :: "steplog \<Rightarrow> bool" where
  "is_call log \<longleftrightarrow> String (sl_op log) \<in> {''CALL'', ''CALLCODE'', ''DELEGATECALL'', ''STATICCALL''}"

text \<open>The properties \<open>op\<close> and \<open>depth\<close> of the object that a step records.\<close>

definition op_of :: "steplog \<Rightarrow> opval" where
  "op_of log = (if String (sl_op log) \<in> {''DELEGATECALL'', ''STATICCALL''}
     then OpString (String (sl_op log)) else OpNumber (unat (sl_op log)))"

definition view :: "opinfo \<Rightarrow> opval option \<times> nat option" where
  "view x = (o_op x, o_depth x)"

lemma evmdis_call_view:
  "evmdis_call B log = Inr info \<Longrightarrow>
   o_result info = Some [] \<and> o_ops info = Some [] \<and> view info = (Some (OpNumber (unat (sl_op log))), Some (sl_depth log))"
  by (auto simp: evmdis_call_def Let_def sbind_Inr base_info_def view_def)

lemma evmdis_delegate_view:
  "evmdis_delegate B log = Inr info \<Longrightarrow>
   o_result info = Some [] \<and> o_ops info = Some [] \<and> view info = (Some (OpString (String (sl_op log))), Some (sl_depth log))"
  by (auto simp: evmdis_delegate_def Let_def sbind_Inr base_info_def view_def)

lemma evmdis_switch_view:
  assumes "evmdis_switch B log = Inr (info, ret, enters)"
  shows "o_result info = Some []" and "o_ops info = (if enters then Some [] else None)"
    and "enters = is_call log" and "view info = (Some (op_of log), Some (sl_depth log))"
proof -
  have "o_result info = Some [] \<and> o_ops info = (if enters then Some [] else None) \<and>
    enters = is_call log \<and> view info = (Some (op_of log), Some (sl_depth log))"
    using assms evmdis_call_view [of B log] evmdis_delegate_view [of B log]
    by (auto simp: evmdis_switch_def Let_def is_call_def op_of_def sbind_Inr base_info_def
        empty_info_def view_def split: if_splits)
  then show "o_result info = Some []" and "o_ops info = (if enters then Some [] else None)"
    and "enters = is_call log" and "view info = (Some (op_of log), Some (sl_depth log))"
    by blast+
qed

lemma with_len_fields [simp]:
  "o_result (with_len log info) = o_result info" "o_ops (with_len log info) = o_ops info"
  "view (with_len log info) = view info"
  by (simp_all add: with_len_def view_def)

lemma push_results_Some: "\<exists>rs' err. push_results B log is rs = (rs', err)"
  by (cases "push_results B log is rs") auto

lemma evmdis_prev_shape: "same_shape h (fst (evmdis_prev B log p h))"
  by (auto simp: evmdis_prev_def Let_def split: option.splits prod.splits intro!: same_shape_update)

text \<open>Errors that come from an access of the script outside the stack or the memory.\<close>

definition access_error :: "js_error \<Rightarrow> bool" where
  "access_error e \<longleftrightarrow> (\<exists>n i. e = StackOutOfBound n i) \<or> (\<exists>a b. e = MemoryOutOfBound a b) \<or> (\<exists>n. e = PaddingLimit n)"

text \<open>The conversion to an \<open>int64\<close> argument gives an \<open>int64\<close>.\<close>

definition int64_args :: "bigint \<Rightarrow> bool" where
  "int64_args B \<longleftrightarrow> (\<forall>n. - (2 ^ 63) \<le> toInt64 B n \<and> toInt64 B n < 2 ^ 63)"

lemma peek_big_error: "peek_big log i = Inl e \<Longrightarrow> access_error e"
  by (auto simp: peek_big_def host_def stackObj_peek_spec access_error_def split: if_splits)

lemma slice_mem_error: "int64_args B \<Longrightarrow> slice_mem B log a b = Inl e \<Longrightarrow> access_error e"
  using memoryObj_slice_spec [of "toInt64 B a" "toInt64 B b" "sl_memory log"]
  by (auto simp: slice_mem_def host_def int64_args_def access_error_def split: if_splits)

lemma sbind_error: "sbind r f = Inl e \<longleftrightarrow> r = Inl e \<or> (\<exists>x. r = Inr x \<and> f x = Inl e)"
  by (cases r) auto

lemma evmdis_switch_error:
  assumes "int64_args B" and "evmdis_switch B log = Inl e"
  shows "access_error e"
  using assms(2) peek_big_error slice_mem_error [OF assms(1)]
  by (auto simp: evmdis_switch_def Let_def sbind_error evmdis_call_def evmdis_delegate_def
      evmdis_return_def split: if_splits)

lemma push_results_error: "push_results B log is rs = (rs', Some e) \<Longrightarrow> access_error e"
  by (induction "is" arbitrary: rs) (auto split: sum.splits dest: peek_big_error)

lemma evmdis_prev_error:
  "o_result (h ! p) \<noteq> None \<Longrightarrow> snd (evmdis_prev B log p h) = Some e \<Longrightarrow> access_error e"
  by (auto simp: evmdis_prev_def Let_def split: option.splits prod.splits if_splits dest: push_results_error)

lemma span_kids: "span K i e \<Longrightarrow> k \<in> set (K i) \<Longrightarrow> i < k \<and> k < e"
proof -
  have *: "spans K ks a e \<Longrightarrow> k \<in> set ks \<Longrightarrow> a \<le> k \<and> k < e" for ks a k
  proof (induction ks arbitrary: a)
    case (Cons c ks)
    then obtain b where "c = a" "span K c b" "spans K ks b e" by (auto elim: spans_ConsE)
    with Cons span_less [of K c b] spans_le [of K ks b e] show ?case by fastforce
  qed simp
  show "span K i e \<Longrightarrow> k \<in> set (K i) \<Longrightarrow> i < k \<and> k < e"
    by (erule spanE) (use * [of "K i" "Suc i" k] in auto)
qed

lemma dis_inv_prev:
  assumes "dis_inv s" and "o_ops (heap s ! last (dstack s)) = Some ops" and "ops \<noteq> []"
  shows "o_result (heap s ! last ops) \<noteq> None"
proof -
  from assms(1) have "span (kids (heap s)) (last (dstack s)) (length (heap s))"
    using chain_span [of "kids (heap s)" "dstack s" "length (heap s)"] by (auto simp: dis_inv_def)
  then have "last (dstack s) < last ops \<and> last ops < length (heap s)"
    by (rule span_kids) (use assms(2,3) in \<open>simp add: kids_def\<close>)
  with assms(1) show ?thesis by (auto simp: dis_inv_def)
qed

lemma dis_inv_ops: "dis_inv s \<Longrightarrow> \<exists>ops. o_ops (heap s ! last (dstack s)) = Some ops"
  unfolding dis_inv_def by (metis last_in_set option.exhaust)

lemma views_shape: "same_shape h h' \<Longrightarrow> map view h' = map view h"
  by (auto simp: same_shape_def view_def intro: nth_equalityI)

lemma same_shape_view: "same_shape h h' \<Longrightarrow> i < length h \<Longrightarrow> view (h' ! i) = view (h ! i)"
  by (simp add: same_shape_def view_def)

lemma evmdis_op_step:
  assumes inv: "dis_inv s" and f: "f = last (dstack s)" and step: "evmdis_op B log f s = (s', err)"
  shows "dis_inv s'"
    and "int64_args B \<Longrightarrow> err = Some e \<Longrightarrow> access_error e"
    and "err = None \<Longrightarrow> length (dstack s') = length (dstack s) + (if is_call log then 1 else 0) \<and>
      map view (heap s') = map view (heap s) @ [(Some (op_of log), Some (sl_depth log))]"
proof -
  from dis_inv_ops [OF inv] f obtain ops where ops: "o_ops (heap s ! f) = Some ops" by blast
  define r where "r = (if ops \<noteq> [] then evmdis_prev B log (last ops) (heap s) else (heap s, None))"
  obtain h perr where r: "r = (h, perr)" by (cases r)
  have sh: "same_shape (heap s) h"
    using evmdis_prev_shape [of "heap s" B log "last ops"] r by (auto simp: r_def split: if_splits)
  have inv': "dis_inv (s\<lparr>heap := h\<rparr>)" by (rule dis_inv_shape [OF inv sh])
  have fn: "f < length (heap s)" "length h = length (heap s)"
    using dis_inv_less [OF inv] f sh by (auto simp: same_shape_def)
  have hops: "o_ops (h ! f) = Some ops" using sh ops fn by (simp add: same_shape_def)
  have perr_access: "perr = Some e \<Longrightarrow> access_error e" for e
    using evmdis_prev_error [of "heap s" "last ops" B log e] dis_inv_prev [OF inv, of ops] ops r f
    by (auto simp: r_def split: if_splits)
  have unf: "evmdis_op B log f s =
    (case perr of Some e \<Rightarrow> (s\<lparr>heap := h\<rparr>, Some e)
     | None \<Rightarrow> (case evmdis_switch B log of Inl e \<Rightarrow> (s\<lparr>heap := h\<rparr>, Some e)
        | Inr (info, ret, enters) \<Rightarrow>
            (s\<lparr>heap := (h[f := (case ret of None \<Rightarrow> h ! f | Some r \<Rightarrow> (h ! f)\<lparr>o_return := Val r\<rparr>)
                \<lparr>o_ops := Some (ops @ [length h])\<rparr>]) @ [with_len log info],
              dstack := dstack s @ (if enters then [length h] else [])\<rparr>, None)))"
    using ops r by (simp add: evmdis_op_def r_def [symmetric] Let_def split: option.split sum.split)
  have "dis_inv s' \<and> (int64_args B \<longrightarrow> err = Some e \<longrightarrow> access_error e) \<and>
    (err = None \<longrightarrow> length (dstack s') = length (dstack s) + (if is_call log then 1 else 0) \<and>
      map view (heap s') = map view (heap s) @ [(Some (op_of log), Some (sl_depth log))])"
  proof (cases perr)
    case (Some e')
    with step unf inv' perr_access show ?thesis by auto
  next
    case None
    note perr = this
    show ?thesis
    proof (cases "evmdis_switch B log")
      case (Inl e')
      with step unf perr inv' evmdis_switch_error [of B log e'] show ?thesis by auto
    next
      case (Inr x)
      then obtain info ret enters where sw: "evmdis_switch B log = Inr (info, ret, enters)" by (cases x) auto
      define frame where "frame = (case ret of None \<Rightarrow> h ! f | Some r \<Rightarrow> (h ! f)\<lparr>o_return := Val r\<rparr>)
                \<lparr>o_ops := Some (ops @ [length h])\<rparr>"
      have s': "s' = s\<lparr>heap := h[f := frame] @ [with_len log info],
          dstack := dstack s @ (if enters then [length h] else [])\<rparr>" "err = None"
        using step unf perr sw by (auto simp: frame_def)
      have vf: "view frame = view (h ! f)" "o_result frame = o_result (h ! f)"
          "o_ops frame = Some (ops @ [length h])"
        by (auto simp: frame_def view_def split: option.splits)
      have "dis_inv s'"
        using dis_inv_record [OF inv', of f ops frame "with_len log info" enters] hops f
          evmdis_switch_view(1,2) [OF sw] vf by (cases enters) (simp_all add: s')
      moreover have "map view (heap s') = map view (heap s) @ [(Some (op_of log), Some (sl_depth log))]"
        using evmdis_switch_view(4) [OF sw] views_shape [OF sh] vf(1) fn same_shape_view [OF sh fn(1)]
        by (simp add: s' map_update list_update_same_conv nth_map)
      ultimately show ?thesis using evmdis_switch_view(3) [OF sw] s' by simp
    qed
  qed
  then show "dis_inv s'" and "int64_args B \<Longrightarrow> err = Some e \<Longrightarrow> access_error e"
    and "err = None \<Longrightarrow> length (dstack s') = length (dstack s) + (if is_call log then 1 else 0) \<and>
      map view (heap s') = map view (heap s) @ [(Some (op_of log), Some (sl_depth log))]"
    by blast+
qed


lemma evmdis_step_inv:
  assumes inv: "dis_inv s" and d: "0 < sl_depth log" and step: "evmdis_step B log s = (s', err)"
  shows "dis_inv s'" and "int64_args B \<Longrightarrow> err = Some e \<Longrightarrow> access_error e"
proof -
  have st: "dstack s \<noteq> []" using inv by (simp add: dis_inv_def)
  let ?f = "last (dstack s)"
  have up: "dis_inv (s\<lparr>heap := (heap s)[?f := (heap s ! ?f)\<lparr>o_error := x\<rparr>]\<rparr>)" for x
    by (rule dis_inv_shape [OF inv]) (simp add: same_shape_update)
  show "dis_inv s'" using step st up dis_inv_take [OF inv d] evmdis_op_step(1) [OF inv refl]
    by (auto simp: evmdis_step_def Let_def split: if_splits)
  show "int64_args B \<Longrightarrow> err = Some e \<Longrightarrow> access_error e"
    using step st evmdis_op_step(2) [OF inv refl] by (auto simp: evmdis_step_def Let_def split: if_splits)
qed

section \<open>Runs\<close>

text \<open>The steps of an execution up to the first error, after which the host calls no more.\<close>

definition evmdis_run :: "bigint \<Rightarrow> (steplog \<times> 's) list \<Rightarrow> evmdis \<Rightarrow> evmdis \<times> js_error option" where
  "evmdis_run B = run_steps (\<lambda>log s this. evmdis_step B log this)"

lemma evmdis_run_simps [simp]:
  "evmdis_run B [] s = (s, None)"
  "evmdis_run B ((log, d) # logs) s =
     (case evmdis_step B log s of (s', None) \<Rightarrow> evmdis_run B logs s' | (s', Some e) \<Rightarrow> (s', Some e))"
  by (simp_all add: evmdis_run_def split: prod.split option.split)

text \<open>
  The steps that the tracer records, with \<open>d\<close> open frames: those without an error at depth \<open>d\<close>.  A
  step at another depth only closes frames.
\<close>

fun recorded :: "nat \<Rightarrow> steplog list \<Rightarrow> steplog list" where
  "recorded d [] = []"
| "recorded d (log # logs) =
     (if sl_err log \<noteq> None \<and> sl_err log \<noteq> Some [] then recorded d logs
      else if sl_depth log = d then log # recorded (if is_call log then d + 1 else d) logs
      else recorded (min d (sl_depth log)) logs)"

lemma evmdis_run_inv:
  "dis_inv s \<Longrightarrow> \<forall>log\<in>fst ` set logs. 0 < sl_depth log \<Longrightarrow> evmdis_run B logs s = (s', err) \<Longrightarrow>
   dis_inv s' \<and> (int64_args B \<longrightarrow> (\<forall>e. err = Some e \<longrightarrow> access_error e))"
proof (induction logs arbitrary: s)
  case (Cons l logs)
  obtain log d where l: "l = (log, d)" by (cases l)
  obtain s1 e1 where s1: "evmdis_step B log s = (s1, e1)" by (cases "evmdis_step B log s")
  with evmdis_step_inv [OF Cons.prems(1) _ s1] Cons l show ?case by (cases e1) auto
qed simp

lemma evmdis_run_recorded:
  "dis_inv s \<Longrightarrow> \<forall>log\<in>fst ` set logs. 0 < sl_depth log \<Longrightarrow> evmdis_run B logs s = (s', None) \<Longrightarrow>
   map view (heap s') = map view (heap s) @
     map (\<lambda>log. (Some (op_of log), Some (sl_depth log))) (recorded (length (dstack s)) (map fst logs))"
proof (induction logs arbitrary: s)
  case (Cons l logs)
  obtain log d where l: "l = (log, d)" by (cases l)
  obtain s1 e1 where s1: "evmdis_step B log s = (s1, e1)" by (cases "evmdis_step B log s")
  with Cons.prems l have e1: "e1 = None" and run: "evmdis_run B logs s1 = (s', None)"
    by (auto split: option.splits)
  have inv1: "dis_inv s1" using evmdis_step_inv(1) [OF Cons.prems(1) _ s1] Cons.prems(2) l by simp
  have st: "dstack s \<noteq> []" using Cons.prems(1) by (simp add: dis_inv_def)
  let ?v = "\<lambda>log. (Some (op_of log), Some (sl_depth log))"
  have IH: "map view (heap s') = map view (heap s1) @ map ?v (recorded (length (dstack s1)) (map fst logs))"
    using Cons.IH [OF inv1 _ run] Cons.prems(2) by simp
  consider (err) x where "sl_err log = Some x" "x \<noteq> []"
    | (op) "sl_err log = None \<or> sl_err log = Some []" "sl_depth log = length (dstack s)"
    | (cut) "sl_err log = None \<or> sl_err log = Some []" "sl_depth log \<noteq> length (dstack s)"
    by (cases "sl_err log") auto
  then show ?case
  proof cases
    case err
    with s1 st have "s1 = s\<lparr>heap := (heap s)[last (dstack s) := (heap s ! last (dstack s))\<lparr>o_error := Val x\<rparr>]\<rparr>"
      by (simp add: evmdis_step_def)
    moreover have "map view ((heap s)[last (dstack s) := (heap s ! last (dstack s))\<lparr>o_error := Val x\<rparr>]) = map view (heap s)"
      by (rule views_shape) (simp add: same_shape_update)
    ultimately show ?thesis using IH err l by simp
  next
    case op
    with s1 st e1 have "evmdis_op B log (last (dstack s)) s = (s1, None)"
      by (auto simp: evmdis_step_def)
    from evmdis_op_step(3) [OF Cons.prems(1) refl this] IH op l show ?thesis by (auto split: if_splits)
  next
    case cut
    with s1 st have "s1 = s\<lparr>dstack := take (sl_depth log) (dstack s)\<rparr>"
      by (auto simp: evmdis_step_def)
    with IH cut l show ?thesis by (auto simp: min.commute)
  qed
qed simp

text \<open>The walk through the trace as the JSON encoder visits it.\<close>

fun walk :: "nat \<Rightarrow> opinfo list \<Rightarrow> nat \<Rightarrow> nat list" where
  "walk 0 h i = []"
| "walk (Suc n) h i = i # concat (map (walk n h) (kids h i))"

lemma span_walk: "span K i e \<Longrightarrow> K = kids h \<Longrightarrow> e - i \<le> n \<Longrightarrow> walk n h i = [i..<e]"
  and spans_walk: "spans K ks a e \<Longrightarrow> K = kids h \<Longrightarrow> e - a \<le> n \<Longrightarrow> concat (map (walk n h) ks) = [a..<e]"
proof (induction arbitrary: n and n rule: span_spans.inducts)
  case (spanI i e)
  from spans_le [OF spanI(1)] spanI(4) obtain m where "n = Suc m" by (cases n) auto
  with spanI spans_le [OF spanI(1)] show ?case by (simp add: upt_conv_Cons)
next
  case (spans_Nil a)
  show ?case by simp
next
  case (spans_Cons k b ks e)
  have "k < b" "b \<le> e" using span_less [OF spans_Cons(1)] spans_le [OF spans_Cons(3)] .
  then have "[k..<e] = [k..<b] @ [b..<e]" by (metis le_add_diff_inverse less_imp_le upt_add_eq_append)
  with spans_Cons \<open>k < b\<close> \<open>b \<le> e\<close> show ?case by simp
qed

lemma dis_inv_init: "dis_inv evmdis_init"
  by (auto simp: dis_inv_def evmdis_init_def kids_def intro!: spanI spans_Nil)


section \<open>Results of evmdis\<close>

text \<open>A bigInt library for concrete runs.\<close>

definition plain_bigint :: bigint where
  "plain_bigint = \<lparr>valueOf = (\<lambda>n. n), toStringRadix = (\<lambda>n r. []), toInt64 = (\<lambda>n. 0)\<rparr>"

lemma evmdis_result_walk:
  assumes "dis_inv s"
  shows "\<exists>ops. evmdis_result s = Inr (heap s, ops) \<and>
    concat (map (walk (length (heap s)) (heap s)) ops) = [1..<length (heap s)]"
proof -
  obtain st where st: "dstack s = 0 # st" using assms by (cases "dstack s") (auto simp: dis_inv_def)
  with assms obtain ops where ops: "o_ops (heap s ! 0) = Some ops" by (auto simp: dis_inv_def)
  from assms have "spans (kids (heap s)) (kids (heap s) 0) (Suc 0) (length (heap s))"
    by (auto simp: dis_inv_def elim: spanE)
  then have "concat (map (walk (length (heap s)) (heap s)) (kids (heap s) 0)) = [Suc 0..<length (heap s)]"
    by (rule spans_walk) simp_all
  with st ops show ?thesis by (simp add: evmdis_result_def kids_def)
qed

lemma evmdis_run_init:
  assumes "\<forall>log\<in>fst ` set logs. 0 < sl_depth log" and "evmdis_run B logs evmdis_init = (s, None)"
  shows "map view (tl (heap s)) =
    map (\<lambda>log. (Some (op_of log), Some (sl_depth log))) (recorded 1 (map fst logs))"
proof -
  from evmdis_run_recorded [OF dis_inv_init assms]
  have "map view (heap s) = view (empty_info\<lparr>o_ops := Some []\<rparr>) #
    map (\<lambda>log. (Some (op_of log), Some (sl_depth log))) (recorded 1 (map fst logs))"
    by (simp add: evmdis_init_def)
  then show ?thesis by (simp only: map_tl list.sel)
qed

lemma map_nth_views:
  "map (\<lambda>i. view (h ! i)) [1..<length h] = map view (tl h)"
  by (rule nth_equalityI) (simp_all add: nth_tl)

text \<open>
  C8: evmdisTracer.  For an execution whose steps have a positive depth, the tracer is created and
  ends in one of two ways.  Either no step fails, and a walk through the returned lists visits the
  recorded operations in the order of their execution, each exactly once, with its opcode and
  depth.  Or a step fails, and then because the script reached outside the stack or the memory.
\<close>

theorem evmdis_lists_recorded_steps:
  assumes "RunString E (''('' @ code @ '')'') = Inr (evmdisTracer B, evmdis_init)"
    and "int64_args B" and "\<forall>ev\<in>set evs. 0 < si_depth (snd ev)"
  shows "\<exists>t. newJsTracer E code cfg = Inr t \<and>
    (\<exists>h ops err. GetResult (js_run E S evs t) = Inr ((h, ops), err) \<and>
      (err = None \<longrightarrow> map (\<lambda>i. view (h ! i)) (concat (map (walk (length h) h) ops)) =
        map (\<lambda>log. (Some (op_of log), Some (sl_depth log))) (recorded 1 (map (log_of E S) evs))) \<and>
      (\<forall>c e. err = Some (c, e) \<longrightarrow> c = ''step'' \<and> access_error e))"
proof -
  from assms(1) obtain t where new: "newJsTracer E code cfg = Inr t"
    and t: "t_methods t = evmdisTracer B" "traceStep t" "t_err t = None" "t_obj t = evmdis_init"
    by (simp add: newJsTracer_def evmdisTracer_def Let_def)
  let ?logs = "map (log_db E S) evs"
  obtain s err where run: "evmdis_run B ?logs evmdis_init = (s, err)" by (cases "evmdis_run B ?logs evmdis_init")
  have "js_step (t_methods t) = Some (\<lambda>log s this. evmdis_step B log this)"
    using t by (simp add: evmdisTracer_def)
  from js_run_steps [OF this t(2,3), where E = E and S = S and evs = evs] run t
  have r: "t_obj (js_run E S evs t) = s" "t_methods (js_run E S evs t) = evmdisTracer B"
    "t_err (js_run E S evs t) = map_option (Pair ''step'') err"
    by (simp_all add: evmdis_run_def Let_def)
  have depth: "\<forall>log\<in>fst ` set ?logs. 0 < sl_depth log" using assms(3) by simp
  note inv = evmdis_run_inv [OF dis_inv_init depth run]
  then obtain ops where ops: "evmdis_result s = Inr (heap s, ops)"
    "concat (map (walk (length (heap s)) (heap s)) ops) = [1..<length (heap s)]"
    using evmdis_result_walk [of s] by blast
  have views: "map (\<lambda>i. view (heap s ! i)) (concat (map (walk (length (heap s)) (heap s)) ops)) =
    map (\<lambda>log. (Some (op_of log), Some (sl_depth log))) (recorded 1 (map (log_of E S) evs))"
    if "err = None"
    unfolding ops(2) map_nth_views
    using evmdis_run_init [OF depth run [unfolded that]] by (simp add: comp_def)
  have access: "c = ''step'' \<and> access_error e" if "map_option (Pair ''step'') err = Some (c, e)" for c e
    using inv assms(2) that by auto
  have res: "GetResult (js_run E S evs t) = Inr ((heap s, ops), map_option (Pair ''step'') err)"
    using r ops(1) by (simp add: GetResult_def evmdisTracer_def)
  have none: "err = None" if "map_option (Pair ''step'') err = None" using that by simp
  show ?thesis using new res views [OF none] access by blast
qed

theorem evmdis_lists_recorded_steps_witness:
  "\<exists>t h ops. newJsTracer (const_engine (evmdisTracer plain_bigint) evmdis_init) ''code'' None = Inr t \<and>
    GetResult (js_run (const_engine (evmdisTracer plain_bigint) evmdis_init) plain_db
      (plain_events 1 [ADD]) t) = Inr ((h, ops), None) \<and>
    map (\<lambda>i. view (h ! i)) (concat (map (walk (length h) h) ops)) = [(Some (OpNumber 1), Some 1)]"
proof -
  let ?E = "const_engine (evmdisTracer plain_bigint) evmdis_init :: (unit, evmdis, opinfo list \<times> nat list) engine"
  have "String ADD \<noteq> ''DELEGATECALL''" "String ADD \<noteq> ''STATICCALL''" by code_simp+
  then have ops: "map (\<lambda>log. (Some (op_of log), Some (sl_depth log)))
      (recorded 1 (map (log_of ?E plain_db) (plain_events 1 [ADD]))) = [(Some (OpNumber 1), Some 1)]"
    by (simp add: plain_events_def plain_step_def log_of_def op_of_def)
  have depth: "\<forall>ev\<in>set (plain_events 1 [ADD]). 0 < si_depth (snd ev)" by (simp add: plain_events_def)
  have B: "int64_args plain_bigint" by (simp add: int64_args_def plain_bigint_def)
  have E: "RunString ?E (''('' @ ''code'' @ '')'') = Inr (evmdisTracer plain_bigint, evmdis_init)"
    by (simp add: const_engine_def)
  have run: "case newJsTracer ?E ''code'' None of
      Inl _ \<Rightarrow> False
    | Inr t \<Rightarrow> (case GetResult (js_run ?E plain_db (plain_events 1 [ADD]) t) of
        Inl _ \<Rightarrow> False | Inr (_, err) \<Rightarrow> err = None)"
    by code_simp
  obtain t h os err where t: "newJsTracer ?E ''code'' None = Inr t"
    and res: "GetResult (js_run ?E plain_db (plain_events 1 [ADD]) t) = Inr ((h, os), err)"
    and views: "err = None \<longrightarrow> map (\<lambda>i. view (h ! i)) (concat (map (walk (length h) h) os)) =
      [(Some (OpNumber 1), Some 1)]"
    using evmdis_lists_recorded_steps [OF E B depth, of None plain_db] unfolding ops by fastforce
  from run t res have "err = None" by simp
  with t res views show ?thesis by (intro exI [of _ t] exI [of _ h] exI [of _ os]) simp
qed

text \<open>The first operation after a call has returned is not recorded.\<close>

lemma evmdis_skips_return_step:
  assumes "sl_err log = None" and "sl_depth log < length (dstack s)"
  shows "evmdis_step B log s = (s\<lparr>dstack := take (sl_depth log) (dstack s)\<rparr>, None)"
  using assms by (simp add: evmdis_step_def)

end
