(* ===== verification/DocObservers.thy ===== *)
theory DocObservers
  imports Prelude
begin

text \<open>
  The two scripts that tidy the pages of the API documentation,
  src/api/doc/swagger-ui/window-observer.js and src/api/doc/stoplight-ui/window-observer.js.

  A document is a tree of elements; an element has an identity (two elements are never the same
  object), attributes and children.  Text is left out: the scripts neither read nor remove it on
  its own.  \<open>document\<close> itself is the root of the tree, without attributes.
\<close>

section \<open>Documents\<close>

datatype element = Elem nat "(string \<times> string) list" "element list"

fun eid :: "element \<Rightarrow> nat" where
  "eid (Elem i a ks) = i"

fun attrs :: "element \<Rightarrow> (string \<times> string) list" where
  "attrs (Elem i a ks) = a"

definition label :: "element \<Rightarrow> nat \<times> (string \<times> string) list" where
  "label e = (eid e, attrs e)"

text \<open>The elements below an element, in tree order.\<close>

fun below :: "element \<Rightarrow> element list" where
  "below (Elem i a ks) = concat (map (\<lambda>k. k # below k) ks)"

text \<open>Each element of a document has its own identity.\<close>

definition distinct_ids :: "element \<Rightarrow> bool" where
  "distinct_ids d \<longleftrightarrow> distinct (map eid (below d))"

section \<open>Methods of the browser\<close>

text \<open>The words of a class attribute; they are separated by white space.\<close>

definition is_space :: "char \<Rightarrow> bool" where
  "is_space c \<longleftrightarrow> of_char c \<in> {9, 10, 12, 13, 32 :: nat}"

fun words :: "string \<Rightarrow> string \<Rightarrow> string list" where
  "words acc [] = (if acc = [] then [] else [rev acc])"
| "words acc (c # cs) =
     (if is_space c then (if acc = [] then words [] cs else rev acc # words [] cs)
      else words (c # acc) cs)"

definition has_class :: "string \<Rightarrow> (string \<times> string) list \<Rightarrow> bool" where
  "has_class c a = (case map_of a ''class'' of None \<Rightarrow> False | Some v \<Rightarrow> c \<in> set (words [] v))"

definition getElementsByClassName :: "string \<Rightarrow> element \<Rightarrow> element list" where
  "getElementsByClassName cs d = filter (\<lambda>e. list_all (\<lambda>c. has_class c (attrs e)) (words [] cs)) (below d)"

text \<open>The selectors \<open>[name^="prefix"]\<close> and \<open>[name="value"]\<close>.\<close>

definition attr_prefix :: "string \<Rightarrow> string \<Rightarrow> element \<Rightarrow> bool" where
  "attr_prefix name p e =
     (case map_of (attrs e) name of None \<Rightarrow> False | Some v \<Rightarrow> take (length p) v = p)"

definition attr_is :: "string \<Rightarrow> string \<Rightarrow> element \<Rightarrow> bool" where
  "attr_is name v e = (map_of (attrs e) name = Some v)"

definition querySelector :: "(element \<Rightarrow> bool) \<Rightarrow> element \<Rightarrow> element option" where
  "querySelector P e = find P (below e)"

definition querySelectorAll :: "(element \<Rightarrow> bool) \<Rightarrow> element \<Rightarrow> element list" where
  "querySelectorAll P e = filter P (below e)"

text \<open>Taking the elements with an identity in a set out of the document.\<close>

fun prune :: "(nat \<Rightarrow> bool) \<Rightarrow> element \<Rightarrow> element" where
  "prune P (Elem i a ks) = Elem i a (map (prune P) (filter (\<lambda>k. \<not> P (eid k)) ks))"

text \<open>\<open>el.remove()\<close>; an element that is no longer in the document stays out.\<close>

definition remove :: "nat \<Rightarrow> element \<Rightarrow> element" where
  "remove i d = prune (\<lambda>x. x = i) d"

text \<open>An object of the script seen in the current document.\<close>

definition current :: "nat \<Rightarrow> element \<Rightarrow> element option" where
  "current i d = find (\<lambda>e. eid e = i) (below d)"

section \<open>swagger-ui/window-observer.js\<close>

definition classesToRemove :: "string list" where
  "classesToRemove =
     [''response-col_description__inner'', ''responses-header'', ''try-out'', ''response-col_status'',
      ''response-col_links'', ''response-controls'']"

definition sectionClass :: string where
  "sectionClass = ''opblock-tag-section is-open''"

definition sections :: "element \<Rightarrow> element list" where
  "sections d = getElementsByClassName sectionClass d"

definition subscriptions :: string where
  "subscriptions = ''operations-tag-Subscriptions''"

definition removeClass :: "nat \<Rightarrow> string \<Rightarrow> element \<Rightarrow> element" where
  "removeClass sect className d =
     (case current sect d of
        None \<Rightarrow> d
      | Some s \<Rightarrow>
          let elements = querySelectorAll (attr_prefix ''class'' className) s
          in fold (\<lambda>el. remove (eid el)) elements d)"

definition visitSection :: "element \<Rightarrow> element \<Rightarrow> element" where
  "visitSection s d =
     (case querySelector (attr_prefix ''id'' subscriptions) s of
        Some child \<Rightarrow> fold (removeClass (eid s)) classesToRemove d
      | None \<Rightarrow> d)"

lemma sum_list_filter_le: "sum_list (map f (filter P xs)) \<le> sum_list (map (f :: 'a \<Rightarrow> nat) xs)"
  by (induction xs) auto

lemma sum_list_mono_nat: "(\<And>x. x \<in> set xs \<Longrightarrow> f x \<le> g x) \<Longrightarrow> sum_list (map f xs) \<le> sum_list (map (g :: 'a \<Rightarrow> nat) xs)"
  by (induction xs) (auto simp: add_mono)

lemma length_prune: "length (filter Q (map label (below (prune P d)))) \<le> length (filter Q (map label (below d)))"
proof (induction d)
  case (Elem i a ks)
  let ?n = "\<lambda>k. length (filter Q (map label (k # below k)))"
  have label: "label (prune P k) = label k" for k by (cases k) (simp add: label_def)
  have "length (filter Q (map label (below (prune P (Elem i a ks))))) =
      sum_list (map (\<lambda>k. ?n (prune P k)) (filter (\<lambda>k. \<not> P (eid k)) ks))"
    by (simp add: map_concat filter_concat length_concat comp_def)
  also have "\<dots> \<le> sum_list (map ?n (filter (\<lambda>k. \<not> P (eid k)) ks))"
    by (rule sum_list_mono_nat) (use Elem label in auto)
  also have "\<dots> \<le> sum_list (map ?n ks)" by (rule sum_list_filter_le)
  also have "\<dots> = length (filter Q (map label (below (Elem i a ks))))"
    by (simp add: map_concat filter_concat length_concat comp_def)
  finally show ?case .
qed

lemma label_prune [simp]: "label (prune P d) = label d" "eid (prune P d) = eid d" "attrs (prune P d) = attrs d"
  by (cases d; simp add: label_def)+

lemma prune_prune: "prune P (prune Q d) = prune (\<lambda>x. P x \<or> Q x) d"
  by (induction d) (auto simp: filter_map comp_def conj_commute intro!: filter_cong arg_cong [where f = "map _"])

lemma prune_False [simp]: "prune (\<lambda>x. False) d = d"
  by (induction d) (simp add: map_idI)

lemma fold_remove: "fold remove is d = prune (\<lambda>x. x \<in> set is) d"
proof (induction "is" arbitrary: d)
  case (Cons i "is")
  have "fold remove (i # is) d = prune (\<lambda>x. x \<in> set is) (remove i d)" by (simp add: Cons.IH)
  then show ?case unfolding remove_def [of i d] prune_prune by (simp add: disj_commute)
qed simp

lemma below_prune:
  "e' \<in> set (below (prune P d)) \<Longrightarrow> \<exists>e\<in>set (below d). e' = prune P e \<and> \<not> P (eid e)"
proof (induction d)
  case (Elem i a ks)
  then obtain k where k: "k \<in> set ks" "\<not> P (eid k)" and "e' = prune P k \<or> e' \<in> set (below (prune P k))"
    by auto
  then show ?case using Elem.IH [OF k(1)] k by auto
qed

lemma removeClass_prune:
  "removeClass sect c d = prune (\<lambda>x. \<exists>s e. current sect d = Some s \<and> e \<in> set (below s) \<and>
     attr_prefix ''class'' c e \<and> x = eid e) d"
proof (cases "current sect d")
  case None
  then show ?thesis by (simp add: removeClass_def)
next
  case (Some s)
  have "fold (\<lambda>el. remove (eid el)) xs d = fold remove (map eid xs) d" for xs
    by (simp add: fold_map comp_def)
  with Some show ?thesis
    by (auto simp: removeClass_def querySelectorAll_def fold_remove intro!: arg_cong2 [where f = prune] ext)
qed

text \<open>A property of single elements that no descendant of a section has.\<close>

definition none_below :: "(element \<Rightarrow> bool) \<Rightarrow> element \<Rightarrow> bool" where
  "none_below Q e \<longleftrightarrow> (\<forall>x\<in>set (below e). \<not> Q x)"

lemma attr_prefix_prune [simp]: "attr_prefix n p (prune P e) = attr_prefix n p e"
  by (simp add: attr_prefix_def)

lemma attr_is_prune [simp]: "attr_is n p (prune P e) = attr_is n p e"
  by (simp add: attr_is_def)

lemma none_below_prune:
  "(\<And>e. Q (prune P e) = Q e) \<Longrightarrow> none_below Q d \<Longrightarrow> none_below Q (prune P d)"
  unfolding none_below_def using below_prune by metis

lemma below_trans: "s \<in> set (below k) \<Longrightarrow> e \<in> set (below s) \<Longrightarrow> e \<in> set (below k)"
  by (induction k) auto

lemma prune_id: "(\<And>e. e \<in> set (below d) \<Longrightarrow> \<not> P (eid e)) \<Longrightarrow> prune P d = d"
proof (induction d)
  case (Elem i a ks)
  have "prune P k = k" "\<not> P (eid k)" if "k \<in> set ks" for k
    using that Elem.IH [OF that] Elem.prems by auto
  then show ?case by (simp add: map_idI cong: filter_cong)
qed

lemma map_label_below: "map label (below (Elem i a ks)) = concat (map (\<lambda>k. label k # map label (below k)) ks)"
  by (simp add: map_concat comp_def)

lemma distinct_ids_child:
  assumes "distinct_ids (Elem i a (ks1 @ k # ks2))"
  shows "distinct_ids k" and "eid k \<notin> eid ` set (below k)"
    and "k' \<in> set ks1 \<union> set ks2 \<Longrightarrow> e \<in> insert k' (set (below k')) \<Longrightarrow> eid e \<notin> insert (eid k) (eid ` set (below k))"
proof -
  let ?A = "eid ` (\<Union>x\<in>set ks1 \<union> set ks2. insert x (set (below x)))"
  show "distinct_ids k" and "eid k \<notin> eid ` set (below k)" using assms by (auto simp: distinct_ids_def)
  have "?A \<inter> insert (eid k) (eid ` set (below k)) = {}"
    using assms by (simp add: distinct_ids_def image_Un Int_Un_distrib Int_Un_distrib2 Int_commute)
  moreover assume "k' \<in> set ks1 \<union> set ks2" "e \<in> insert k' (set (below k'))"
  then have "eid e \<in> ?A" by blast
  ultimately show "eid e \<notin> insert (eid k) (eid ` set (below k))" by blast
qed

lemma below_prune_label:
  assumes "distinct_ids d" and "s \<in> set (below d)" and P: "\<And>x. P x \<Longrightarrow> x \<in> eid ` set (below s)"
  shows "\<exists>pre post. map label (below d) = pre @ label s # map label (below s) @ post \<and>
    map label (below (prune P d)) = pre @ label s # map label (below (prune P s)) @ post \<and>
    prune P s \<in> set (below (prune P d))"
  using assms(1,2)
proof (induction d)
  case (Elem i a ks)
  then obtain k where k: "k \<in> set ks" and s: "s = k \<or> s \<in> set (below k)" by auto
  from split_list [OF k] obtain ks1 ks2 where ks: "ks = ks1 @ k # ks2" by blast
  note dist = distinct_ids_child [OF Elem.prems(1) [unfolded ks]]
  have sub: "x \<in> eid ` set (below k)" if "P x" for x
    using P [OF that] s below_trans [of s k] by auto
  have out: "prune P k' = k'" "\<not> P (eid k')" if "k' \<in> set ks1 \<union> set ks2" for k'
    using dist(3) [OF that] sub by (auto intro!: prune_id)
  have "filter (\<lambda>k. \<not> P (eid k)) ks = ks"
    using out(2) sub dist(2) unfolding ks by (auto simp: filter_id_conv)
  then have pr: "prune P (Elem i a ks) = Elem i a (ks1 @ prune P k # ks2)"
    using out(1) by (simp add: ks map_idI)
  let ?f = "\<lambda>k. label k # map label (below k)"
  have "\<exists>pre post. ?f k = pre @ label s # map label (below s) @ post \<and>
      label k # map label (below (prune P k)) = pre @ label s # map label (below (prune P s)) @ post \<and>
      prune P s \<in> insert (prune P k) (set (below (prune P k)))"
  proof (cases "s = k")
    case True
    then show ?thesis by (intro exI [of _ "[]"]) simp
  next
    case False
    with s have "s \<in> set (below k)" by simp
    from Elem.IH [OF k dist(1) this] obtain pre post where
      "map label (below k) = pre @ label s # map label (below s) @ post"
      "map label (below (prune P k)) = pre @ label s # map label (below (prune P s)) @ post"
      "prune P s \<in> set (below (prune P k))" by blast
    then show ?thesis by (intro exI [of _ "label k # pre"] exI [of _ post]) simp
  qed
  then obtain pre post where "?f k = pre @ label s # map label (below s) @ post"
    "label k # map label (below (prune P k)) = pre @ label s # map label (below (prune P s)) @ post"
    "prune P s \<in> insert (prune P k) (set (below (prune P k)))" by blast
  moreover have "map label (below (Elem i a ks)) = concat (map ?f ks1) @ ?f k @ concat (map ?f ks2)"
    unfolding map_label_below by (simp add: ks)
  moreover have "map label (below (prune P (Elem i a ks))) =
      concat (map ?f ks1) @ (label k # map label (below (prune P k))) @ concat (map ?f ks2)"
    unfolding pr map_label_below by simp
  moreover from calculation(3) have "prune P s \<in> set (below (prune P (Elem i a ks)))" unfolding pr by auto
  ultimately show ?case
    by (intro exI [of _ "concat (map ?f ks1) @ pre"] exI [of _ "post @ concat (map ?f ks2)"]) simp
qed


lemma distinct_count: "distinct xs \<longleftrightarrow> (\<forall>x. count_list xs x \<le> 1)"
proof (induction xs)
  case (Cons a xs)
  show ?case using Cons by (auto simp: count_list_0_iff le_Suc_eq)
qed simp

lemma distinct_ids_prune: "distinct_ids d \<Longrightarrow> distinct_ids (prune P d)"
proof -
  have "count_list (map eid (below d)) x = length (filter (\<lambda>l. fst l = x) (map label (below d)))" for d x
    by (simp add: count_list_eq_length_filter filter_map comp_def label_def eq_commute)
  then show "distinct_ids d \<Longrightarrow> distinct_ids (prune P d)"
    unfolding distinct_ids_def distinct_count using length_prune order_trans by metis
qed

lemma ids_inject: "distinct_ids d \<Longrightarrow> x \<in> set (below d) \<Longrightarrow> y \<in> set (below d) \<Longrightarrow> eid x = eid y \<Longrightarrow> x = y"
  by (simp add: distinct_ids_def distinct_map inj_on_def)

lemma current_eid:
  assumes "distinct_ids d" and "s \<in> set (below d)"
  shows "current (eid s) d = Some s"
proof -
  have "find (\<lambda>e. eid e = eid s) (below d) \<noteq> None" using assms(2) by (auto simp: find_None_iff)
  then obtain s' where s': "find (\<lambda>e. eid e = eid s) (below d) = Some s'" by blast
  then have "s' \<in> set (below d)" "eid s' = eid s" by (auto simp: find_Some_iff)
  with assms ids_inject [of d s' s] s' show ?thesis by (simp add: current_def)
qed

section \<open>Visiting a section\<close>

definition matches :: "string list \<Rightarrow> element \<Rightarrow> bool" where
  "matches cs e \<longleftrightarrow> (\<exists>c\<in>set cs. attr_prefix ''class'' c e)"

lemma matches_prune [simp]: "matches cs (prune P e) = matches cs e"
  by (simp add: matches_def)

lemma fold_removeClass:
  assumes "distinct_ids d" and "s \<in> set (below d)"
  shows "\<exists>P. fold (removeClass (eid s)) cs d = prune P d \<and>
    (\<forall>x. P x \<longrightarrow> (\<exists>e\<in>set (below s). x = eid e \<and> matches cs e)) \<and> none_below (matches cs) (prune P s)"
  using assms
proof (induction cs arbitrary: d s)
  case Nil
  show ?case by (intro exI [of _ "\<lambda>x. False"]) (simp add: none_below_def matches_def)
next
  case (Cons c cs)
  define P1 where "P1 x \<longleftrightarrow> (\<exists>e\<in>set (below s). attr_prefix ''class'' c e \<and> x = eid e)" for x
  have d1: "removeClass (eid s) c d = prune P1 d"
    unfolding removeClass_prune P1_def current_eid [OF Cons.prems] by (auto intro!: arg_cong2 [where f = prune] ext)
  have s1: "prune P1 s \<in> set (below (prune P1 d))"
    using below_prune_label [OF Cons.prems, of P1] by (auto simp: P1_def)
  from Cons.IH [OF distinct_ids_prune [OF Cons.prems(1)] s1] obtain P2 where
    P2: "fold (removeClass (eid s)) cs (prune P1 d) = prune P2 (prune P1 d)"
      "\<And>x. P2 x \<Longrightarrow> \<exists>e\<in>set (below (prune P1 s)). x = eid e \<and> matches cs e"
      "none_below (matches cs) (prune P2 (prune P1 s))"
    by auto
  have "none_below (attr_prefix ''class'' c) (prune P1 s)"
    unfolding none_below_def using below_prune [of _ P1 s] by (force simp: P1_def)
  then have "none_below (attr_prefix ''class'' c) (prune P2 (prune P1 s))" by (rule none_below_prune [rotated]) simp
  with P2(3) have n: "none_below (matches (c # cs)) (prune P2 (prune P1 s))"
    by (auto simp: none_below_def matches_def)
  have "\<exists>e\<in>set (below s). x = eid e \<and> matches (c # cs) e" if "P2 x \<or> P1 x" for x
  proof (cases "P1 x")
    case True
    then show ?thesis by (auto simp: P1_def matches_def)
  next
    case False
    with that P2(2) [of x] obtain e' where "e' \<in> set (below (prune P1 s))" "x = eid e'" "matches cs e'" by blast
    with below_prune [of e' P1 s] show ?thesis by (auto simp: matches_def)
  qed
  then show ?case using n P2(1) d1 by (intro exI [of _ "\<lambda>x. P2 x \<or> P1 x"]) (simp add: prune_prune)
qed


lemma visitSection_prune: "\<exists>P. visitSection s d = prune P d"
proof -
  have "\<exists>P. fold (removeClass i) cs d = prune P d" for i cs
  proof (induction cs arbitrary: d)
    case Nil
    show ?case by (intro exI [of _ "\<lambda>x. False"]) simp
  next
    case (Cons c cs)
    obtain P1 where "removeClass i c d = prune P1 d" using removeClass_prune by blast
    moreover obtain P2 where "fold (removeClass i) cs (prune P1 d) = prune P2 (prune P1 d)" using Cons by blast
    ultimately show ?case by (intro exI [of _ "\<lambda>x. P2 x \<or> P1 x"]) (simp add: prune_prune)
  qed
  then show ?thesis unfolding visitSection_def
    by (cases "querySelector (attr_prefix ''id'' subscriptions) s")
      (auto intro: exI [of _ "\<lambda>x. False"])
qed

definition section_label :: "nat \<times> (string \<times> string) list \<Rightarrow> bool" where
  "section_label l \<longleftrightarrow> list_all (\<lambda>c. has_class c (snd l)) (words [] sectionClass)"

lemma sections_label: "map label (sections d) = filter section_label (map label (below d))"
  by (simp add: sections_def getElementsByClassName_def section_label_def filter_map comp_def label_def)

lemma length_sections_prune: "length (sections (prune P d)) \<le> length (sections d)"
  using length_prune [of section_label P d] unfolding sections_label [symmetric] by simp

text \<open>
  The loop of the callback.  \<open>sections\<close> is a live collection: its length and its elements are
  read again in every round.
\<close>

function swagger_loop :: "nat \<Rightarrow> element \<Rightarrow> element" where
  "swagger_loop i d =
     (if i < length (sections d) then swagger_loop (Suc i) (visitSection (sections d ! i) d) else d)"
  by pat_completeness auto

termination
proof (relation "measure (\<lambda>(i, d). length (sections d) - i)")
  fix i d
  assume "i < length (sections d)"
  moreover obtain P where "visitSection (sections d ! i) d = prune P d" using visitSection_prune by blast
  ultimately show "((Suc i, visitSection (sections d ! i) d), i, d) \<in> measure (\<lambda>(i, d). length (sections d) - i)"
    using length_sections_prune [of P d] by simp
qed simp

declare swagger_loop.simps [simp del]

definition swagger_callback :: "element \<Rightarrow> element" where
  "swagger_callback d = swagger_loop 0 d"

text \<open>A section of the page that describes subscriptions, and what must not be below it.\<close>

definition is_subscription :: "element \<Rightarrow> bool" where
  "is_subscription s \<longleftrightarrow> (\<exists>e\<in>set (below s). attr_prefix ''id'' subscriptions e)"

definition tidy :: "element \<Rightarrow> bool" where
  "tidy s \<longleftrightarrow> (is_subscription s \<longrightarrow> none_below (matches classesToRemove) s)"

definition targets :: "element \<Rightarrow> nat set" where
  "targets d = {eid e |e s. s \<in> set (sections d) \<and> is_subscription s \<and> e \<in> set (below s) \<and> matches classesToRemove e}"

lemma sections_below: "s \<in> set (sections d) \<Longrightarrow> s \<in> set (below d)"
  by (simp add: sections_def getElementsByClassName_def)

lemma is_subscription_prune: "is_subscription (prune P s) \<Longrightarrow> is_subscription s"
  unfolding is_subscription_def using below_prune [of _ P s] attr_prefix_prune by metis

lemma tidy_prune: "tidy s \<Longrightarrow> tidy (prune P s)"
  using is_subscription_prune none_below_prune [of "matches classesToRemove" P s] by (auto simp: tidy_def)

lemma in_sections: "s \<in> set (sections d) \<longleftrightarrow> s \<in> set (below d) \<and> section_label (label s)"
  by (simp add: sections_def getElementsByClassName_def section_label_def label_def)

lemma sections_prune: "s \<in> set (sections (prune P d)) \<Longrightarrow> \<exists>s0\<in>set (sections d). s = prune P s0"
  using below_prune [of s P d] by (auto simp: in_sections)

lemma targets_prune: "targets (prune P d) \<subseteq> targets d"
proof
  fix x
  assume "x \<in> targets (prune P d)"
  then obtain s e where s: "s \<in> set (sections (prune P d))" "is_subscription s"
    and e: "e \<in> set (below s)" "matches classesToRemove e" "x = eid e"
    by (auto simp: targets_def)
  from sections_prune [OF s(1)] obtain s0 where s0: "s0 \<in> set (sections d)" "s = prune P s0" by blast
  with below_prune [of e P s0] e obtain e0 where "e0 \<in> set (below s0)" "e = prune P e0" by blast
  with s0 s(2) e is_subscription_prune [of P s0] show "x \<in> targets d" by (auto simp: targets_def)
qed

lemma querySelector_None: "querySelector P s = None \<longleftrightarrow> (\<forall>e\<in>set (below s). \<not> P e)"
  unfolding querySelector_def find_None_iff by blast

lemma visitSection_cases:
  "visitSection s d = (if is_subscription s then fold (removeClass (eid s)) classesToRemove d else d)"
proof -
  let ?q = "querySelector (attr_prefix ''id'' subscriptions) s"
  have "is_subscription s \<longleftrightarrow> ?q \<noteq> None" unfolding is_subscription_def querySelector_None by blast
  then show ?thesis unfolding visitSection_def by (cases ?q) simp_all
qed

lemma visitSection_effect:
  assumes "distinct_ids d" and "s \<in> set (sections d)"
  shows "\<exists>P. visitSection s d = prune P d \<and> (\<forall>x. P x \<longrightarrow> x \<in> targets d \<and> x \<in> eid ` set (below s)) \<and> tidy (prune P s)"
proof (cases "is_subscription s")
  case True
  then have "visitSection s d = fold (removeClass (eid s)) classesToRemove d"
    by (simp add: visitSection_cases)
  moreover obtain P where P: "fold (removeClass (eid s)) classesToRemove d = prune P d"
    "\<And>x. P x \<Longrightarrow> \<exists>e\<in>set (below s). x = eid e \<and> matches classesToRemove e"
    "none_below (matches classesToRemove) (prune P s)"
    using fold_removeClass [OF assms(1) sections_below [OF assms(2)], of classesToRemove] by blast
  moreover have "x \<in> targets d \<and> x \<in> eid ` set (below s)" if "P x" for x
    using P(2) [OF that] True assms(2) unfolding targets_def by blast
  ultimately show ?thesis by (intro exI [of _ P]) (simp add: tidy_def)
next
  case False
  then have "visitSection s d = d"
    by (simp add: visitSection_cases)
  with False show ?thesis by (intro exI [of _ "\<lambda>x. False"]) (simp add: tidy_def)
qed

text \<open>The sections up to the visited one keep their places.\<close>

lemma sections_prefix:
  assumes "distinct_ids d" and "i < length (sections d)" and "j \<le> i"
    and "\<And>x. P x \<Longrightarrow> x \<in> eid ` set (below (sections d ! i))" and "j < length (sections (prune P d))"
  shows "sections (prune P d) ! j = prune P (sections d ! j)"
proof -
  let ?s = "sections d ! i" and ?L = "map label (sections d)" and ?L' = "map label (sections (prune P d))"
  have s: "?s \<in> set (below d)" using assms(2) by (intro sections_below) simp
  have sl: "section_label (label ?s)"
    using nth_mem [OF assms(2)] by (simp add: in_sections)
  obtain pre post where
    "map label (below d) = pre @ label ?s # map label (below ?s) @ post"
    "map label (below (prune P d)) = pre @ label ?s # map label (below (prune P ?s)) @ post"
    using below_prune_label [OF assms(1) s assms(4)] by blast
  with sl have L: "?L = filter section_label pre @ label ?s # filter section_label (map label (below ?s) @ post)"
    and L': "?L' = filter section_label pre @ label ?s # filter section_label (map label (below (prune P ?s)) @ post)"
    by (simp_all add: sections_label)
  have dist: "distinct ?L"
    using assms(1) unfolding sections_label
    by (intro distinct_filter) (auto simp: distinct_ids_def label_def distinct_map inj_on_def)
  have "?L ! length (filter section_label pre) = label ?s" by (simp add: L)
  moreover have "?L ! i = label ?s" using assms(2) by simp
  moreover have "length (filter section_label pre) < length ?L" by (simp add: L)
  ultimately have "length (filter section_label pre) = i"
    using nth_eq_iff_index_eq [OF dist, of "length (filter section_label pre)" i] assms(2) by simp
  with assms(3) have "?L' ! j = ?L ! j" by (simp add: L L' nth_append nth_Cons')
  then have eq: "label (sections (prune P d) ! j) = label (sections d ! j)"
    using assms(2,3,5) by simp
  have "sections (prune P d) ! j \<in> set (below (prune P d))" using assms(5) by (intro sections_below) simp
  from below_prune [OF this] obtain e where e: "e \<in> set (below d)" "sections (prune P d) ! j = prune P e" by blast
  with eq have "eid e = eid (sections d ! j)" by (simp add: label_def)
  moreover have "sections d ! j \<in> set (below d)" using assms(2,3) by (intro sections_below) simp
  ultimately have "e = sections d ! j" using e(1) ids_inject [OF assms(1)] by blast
  with e show ?thesis by simp
qed

lemma swagger_loop_effect:
  assumes "distinct_ids d" and "\<And>j. j < i \<Longrightarrow> j < length (sections d) \<Longrightarrow> tidy (sections d ! j)"
  shows "\<exists>R. swagger_loop i d = prune R d \<and> (\<forall>x. R x \<longrightarrow> x \<in> targets d) \<and>
    (\<forall>s\<in>set (sections (swagger_loop i d)). tidy s)"
  using assms
proof (induction i d rule: swagger_loop.induct)
  case (1 i d)
  show ?case
  proof (cases "i < length (sections d)")
    case True
    let ?s = "sections d ! i"
    obtain P where P: "visitSection ?s d = prune P d" "\<And>x. P x \<Longrightarrow> x \<in> targets d"
      "\<And>x. P x \<Longrightarrow> x \<in> eid ` set (below ?s)" "tidy (prune P ?s)"
      using visitSection_effect [OF "1.prems"(1) nth_mem [OF True]] by blast
    have "tidy (sections (prune P d) ! j)" if "j < Suc i" "j < length (sections (prune P d))" for j
    proof -
      have *: "sections (prune P d) ! j = prune P (sections d ! j)"
        by (rule sections_prefix [OF "1.prems"(1) True _ P(3) that(2)]) (use that in simp)
      show ?thesis
      proof (cases "j = i")
        case True
        with * P(4) show ?thesis by simp
      next
        case False
        with that True "1.prems"(2) [of j] show ?thesis unfolding * by (intro tidy_prune) simp
      qed
    qed
    from "1.IH" [OF True, unfolded P(1), OF distinct_ids_prune [OF "1.prems"(1)] this]
    obtain R where R: "swagger_loop (Suc i) (prune P d) = prune R (prune P d)"
      "\<And>x. R x \<Longrightarrow> x \<in> targets (prune P d)" "\<forall>s\<in>set (sections (swagger_loop (Suc i) (prune P d))). tidy s"
      by blast
    have "swagger_loop i d = prune (\<lambda>x. R x \<or> P x) d"
      using True P(1) R(1) by (subst swagger_loop.simps) (simp add: prune_prune)
    moreover have "swagger_loop i d = swagger_loop (Suc i) (prune P d)"
      using True P(1) by (subst swagger_loop.simps) simp
    moreover have "x \<in> targets d" if "R x \<or> P x" for x
      using that R(2) [of x] P(2) [of x] targets_prune [of P d] by blast
    ultimately show ?thesis using R(3) by (intro exI [of _ "\<lambda>x. R x \<or> P x"]) simp
  next
    case False
    then have "swagger_loop i d = d" by (subst swagger_loop.simps) simp
    with False "1.prems"(2) show ?thesis
      by (intro exI [of _ "\<lambda>x. False"]) (auto simp: in_set_conv_nth)
  qed
qed


lemma visitSection_tidy:
  assumes "distinct_ids d" and "s \<in> set (sections d)" and "tidy s"
  shows "visitSection s d = d"
proof -
  have cur: "current (eid s) d = Some s" by (rule current_eid [OF assms(1) sections_below [OF assms(2)]])
  have "removeClass (eid s) c d = d" if "is_subscription s" "c \<in> set classesToRemove" for c
  proof -
    have "\<not> (e \<in> set (below s) \<and> attr_prefix ''class'' c e)" for e
      using assms(3) that by (auto simp: tidy_def none_below_def matches_def)
    then show ?thesis unfolding removeClass_prune cur by (intro prune_id) blast
  qed
  then have "is_subscription s \<Longrightarrow> set cs \<subseteq> set classesToRemove \<Longrightarrow> fold (removeClass (eid s)) cs d = d" for cs
    by (induction cs) auto
  then show ?thesis by (simp add: visitSection_cases)
qed

lemma swagger_loop_tidy:
  "distinct_ids d \<Longrightarrow> (\<And>s. s \<in> set (sections d) \<Longrightarrow> tidy s) \<Longrightarrow> swagger_loop i d = d"
proof (induction i d rule: swagger_loop.induct)
  case (1 i d)
  then show ?case
    using visitSection_tidy [of d "sections d ! i"] by (subst swagger_loop.simps) (simp add: nth_mem)
qed

section \<open>stoplight-ui/window-observer.js\<close>

text \<open>The method \<open>includes\<close> of strings.\<close>

fun str_includes :: "string \<Rightarrow> string \<Rightarrow> bool" where
  "str_includes [] p = (p = [])"
| "str_includes (c # cs) p = (take (length p) (c # cs) = p \<or> str_includes cs p)"

text \<open>\<open>hash\<close> is the value of \<open>window.location.hash\<close>; \<open>None\<close> is \<open>undefined\<close>.\<close>

definition stoplight_callback :: "string option \<Rightarrow> element \<Rightarrow> element" where
  "stoplight_callback hash d =
     (case hash of
        None \<Rightarrow> d
      | Some h \<Rightarrow>
          if str_includes h ''#/paths/subscriptions'' then
            (case querySelector (attr_is ''data-testid'' ''two-column-right'') d of
               Some el \<Rightarrow> remove (eid el) d
             | None \<Rightarrow> d)
          else d)"

text \<open>
  The observer calls the callback again after each change of the document, also after one that
  the callback made.
\<close>

definition elements :: "element \<Rightarrow> nat" where
  "elements d = length (below d)"

lemma elements_remove: "e \<in> set (below d) \<Longrightarrow> elements (remove (eid e) d) < elements d"
proof (induction d)
  case (Elem i a ks)
  let ?P = "\<lambda>x. x = eid e"
  let ?n = "\<lambda>k. Suc (elements k)"
  have le: "elements (prune P k) \<le> elements k" for P k
    using length_prune [of "\<lambda>l. True" P k] by (simp add: elements_def)
  from Elem.prems obtain k where k: "k \<in> set ks" "e = k \<or> e \<in> set (below k)" by auto
  from split_list [OF k(1)] obtain ks1 ks2 where ks: "ks = ks1 @ k # ks2" by blast
  have n: "elements (Elem j b ls) = sum_list (map ?n ls)" for j b ls
    by (simp add: elements_def length_concat comp_def)
  have part: "sum_list (map (\<lambda>k. ?n (prune ?P k)) (filter (\<lambda>k. \<not> ?P (eid k)) ls)) \<le> sum_list (map ?n ls)" for ls
    by (rule order_trans [OF sum_list_mono_nat sum_list_filter_le]) (simp add: le)
  have "sum_list (map (\<lambda>k. ?n (prune ?P k)) (filter (\<lambda>k. \<not> ?P (eid k)) [k])) < ?n k"
    using k Elem.IH [OF k(1)] by (auto simp: remove_def)
  then show ?case using part [of ks1] part [of ks2]
    by (auto simp: remove_def n ks comp_def split: if_splits)
qed

function stoplight_settle :: "string option \<Rightarrow> element \<Rightarrow> element" where
  "stoplight_settle hash d =
     (if stoplight_callback hash d = d then d else stoplight_settle hash (stoplight_callback hash d))"
  by pat_completeness auto

termination
proof (relation "measure (\<lambda>(hash, d). elements d)")
  fix hash d
  assume "stoplight_callback hash d \<noteq> d"
  then obtain el where "querySelector (attr_is ''data-testid'' ''two-column-right'') d = Some el"
    "stoplight_callback hash d = remove (eid el) d"
    by (auto simp: stoplight_callback_def split: option.splits if_splits)
  moreover from calculation(1) have "el \<in> set (below d)" by (auto simp: querySelector_def find_Some_iff)
  ultimately show "((hash, stoplight_callback hash d), hash, d) \<in> measure (\<lambda>(hash, d). elements d)"
    by (simp add: elements_remove)
qed simp

declare stoplight_settle.simps [simp del]

text \<open>The elements that the script is to take out.\<close>

definition right_columns :: "element \<Rightarrow> nat set" where
  "right_columns d = {eid e |e. e \<in> set (below d) \<and> attr_is ''data-testid'' ''two-column-right'' e}"

lemma stoplight_callback_on:
  "str_includes h ''#/paths/subscriptions'' \<Longrightarrow> stoplight_callback (Some h) d =
     (case querySelector (attr_is ''data-testid'' ''two-column-right'') d of Some el \<Rightarrow> remove (eid el) d | None \<Rightarrow> d)"
  by (simp add: stoplight_callback_def)

text \<open>The pages on which the script is to act: those whose location names the subscriptions.\<close>

definition on_subscriptions :: "string option \<Rightarrow> bool" where
  "on_subscriptions hash = (case hash of None \<Rightarrow> False | Some h \<Rightarrow> str_includes h ''#/paths/subscriptions'')"

lemma stoplight_callback_off: "\<not> on_subscriptions hash \<Longrightarrow> stoplight_callback hash d = d"
  by (simp add: stoplight_callback_def on_subscriptions_def split: option.splits)

lemma prune_absorb:
  assumes "\<And>x. P x \<Longrightarrow> Q x" and "\<And>e. e \<in> set (below (prune P d)) \<Longrightarrow> \<not> Q (eid e)"
  shows "prune P d = prune Q d"
proof -
  have "prune Q (prune P d) = prune P d" using assms(2) by (rule prune_id)
  moreover have "(\<lambda>x. Q x \<or> P x) = Q" using assms(1) by auto
  ultimately show ?thesis by (simp add: prune_prune)
qed

lemma stoplight_settle_effect:
  assumes "str_includes h ''#/paths/subscriptions''" and "distinct_ids d"
  shows "stoplight_settle (Some h) d = prune (\<lambda>x. x \<in> right_columns d) d"
  using assms(2)
proof (induction "Some h" d rule: stoplight_settle.induct)
  case (1 d)
  let ?Q = "attr_is ''data-testid'' ''two-column-right''"
  show ?case
  proof (cases "querySelector ?Q d")
    case None
    then have "right_columns d = {}" unfolding querySelector_None right_columns_def by blast
    with None assms(1) show ?thesis by (subst stoplight_settle.simps) (simp add: stoplight_callback_on)
  next
    case (Some el)
    let ?d1 = "prune (\<lambda>x. x = eid el) d"
    let ?P = "\<lambda>x. x \<in> right_columns ?d1 \<or> x = eid el"
    from Some have el: "el \<in> set (below d)" "?Q el" by (auto simp: querySelector_def find_Some_iff)
    have cb: "stoplight_callback (Some h) d = ?d1"
      using Some assms(1) by (simp add: stoplight_callback_on remove_def)
    have ne: "?d1 \<noteq> d"
      using elements_remove [OF el(1)] by (auto simp: remove_def)
    have "stoplight_settle (Some h) d = stoplight_settle (Some h) ?d1"
      using ne cb by (subst stoplight_settle.simps) simp
    also have "\<dots> = prune ?P d"
      using "1.hyps" [unfolded cb, OF ne distinct_ids_prune [OF "1.prems"]] by (simp add: prune_prune)
    also have "\<dots> = prune (\<lambda>x. x \<in> right_columns d) d"
    proof (rule prune_absorb)
      show "?P x \<Longrightarrow> x \<in> right_columns d" for x
        using el below_prune [of _ "\<lambda>x. x = eid el" d] unfolding right_columns_def by fastforce
    next
      fix e
      assume "e \<in> set (below (prune ?P d))"
      then have "e \<in> set (below (prune (\<lambda>x. x \<in> right_columns ?d1) ?d1))" by (simp add: prune_prune)
      from below_prune [OF this] obtain e0 where
        e0: "e0 \<in> set (below ?d1)" "eid e0 \<notin> right_columns ?d1" "eid e = eid e0" by auto
      then have nq: "\<not> ?Q e0" unfolding right_columns_def by blast
      from below_prune [OF e0(1)] obtain e1 where
        e1: "e1 \<in> set (below d)" "e0 = prune (\<lambda>x. x = eid el) e1" by blast
      with nq ids_inject [OF "1.prems" e1(1)] e0(3) show "eid e \<notin> right_columns d"
        by (auto simp: right_columns_def)
    qed
    finally show ?thesis .
  qed
qed

section \<open>What the observers leave\<close>

text \<open>
  C23: The observer of the Swagger page.  On a document whose elements are distinct objects, the
  callback takes out only elements of the unwanted classes that are below an open section of
  subscriptions; afterwards no open section of subscriptions has such an element; and a second
  call, which the removal itself triggers, changes nothing, so that the observer comes to rest.
\<close>

theorem swagger_callback_tidies:
  assumes "distinct_ids d"
  shows "\<exists>R. swagger_callback d = prune R d \<and> (\<forall>x. R x \<longrightarrow> x \<in> targets d) \<and>
    targets (swagger_callback d) = {} \<and> swagger_callback (swagger_callback d) = swagger_callback d"
proof -
  obtain R where R: "swagger_callback d = prune R d" "\<And>x. R x \<Longrightarrow> x \<in> targets d"
    and tidy: "\<And>s. s \<in> set (sections (swagger_callback d)) \<Longrightarrow> tidy s"
    using swagger_loop_effect [OF assms, of 0] unfolding swagger_callback_def by auto
  have "targets (swagger_callback d) = {}"
    using tidy unfolding targets_def tidy_def none_below_def by blast
  moreover have "swagger_callback (swagger_callback d) = swagger_callback d"
    unfolding swagger_callback_def [of "swagger_callback d"]
    by (rule swagger_loop_tidy) (use R(1) distinct_ids_prune [OF assms] tidy in auto)
  ultimately show ?thesis using R by (intro exI [of _ R]) simp
qed

text \<open>
  C24: The observer of the Stoplight page.  The observer, which runs again after each change it makes,
  comes to rest on every page.  On a page whose location names the subscriptions, exactly the right
  columns (with what is below them) are then gone from the document; on every other page, and on
  one without a hash in its location, the document is as it was.
\<close>

theorem stoplight_removes_right_columns:
  assumes "distinct_ids d"
  shows "stoplight_settle hash d = (if on_subscriptions hash then prune (\<lambda>x. x \<in> right_columns d) d else d) \<and>
    stoplight_callback hash (stoplight_settle hash d) = stoplight_settle hash d"
proof -
  have "stoplight_callback hash (stoplight_settle hash d) = stoplight_settle hash d" for d
    by (induction hash d rule: stoplight_settle.induct) (metis stoplight_settle.simps)
  moreover have "stoplight_settle hash d = prune (\<lambda>x. x \<in> right_columns d) d" if "on_subscriptions hash"
    using that stoplight_settle_effect [OF _ assms] by (auto simp: on_subscriptions_def split: option.splits)
  moreover have "stoplight_settle hash d = d" if "\<not> on_subscriptions hash"
    using that by (subst stoplight_settle.simps) (simp add: stoplight_callback_off)
  ultimately show ?thesis by simp
qed

text \<open>A page with one open section of subscriptions.\<close>

definition sample_page :: element where
  "sample_page = Elem 0 []
     [Elem 1 [(''class'', ''opblock-tag-section is-open'')]
        [Elem 2 [(''id'', ''operations-tag-Subscriptions-x'')] [],
         Elem 3 [(''class'', ''try-out'')] [Elem 4 [] []], Elem 5 [(''class'', ''opblock'')] []],
      Elem 6 [(''class'', ''try-out''), (''data-testid'', ''two-column-right'')] []]"

theorem swagger_callback_tidies_witness:
  "distinct_ids sample_page \<and> targets (swagger_callback sample_page) = {}"
proof -
  have "distinct_ids sample_page" by (simp add: distinct_ids_def sample_page_def)
  then show ?thesis using swagger_callback_tidies [of sample_page] by blast
qed

theorem stoplight_removes_right_columns_witness:
  "stoplight_settle (Some ''#/paths/subscriptions-block'') sample_page =
     prune (\<lambda>x. x \<in> right_columns sample_page) sample_page \<and> right_columns sample_page \<noteq> {} \<and>
   stoplight_settle (Some ''#/paths/accounts'') sample_page = sample_page"
proof -
  have "distinct_ids sample_page" by (simp add: distinct_ids_def sample_page_def)
  note settle = stoplight_removes_right_columns [OF this, THEN conjunct1]
  have "on_subscriptions (Some ''#/paths/subscriptions-block'')" "\<not> on_subscriptions (Some ''#/paths/accounts'')"
    by (simp_all add: on_subscriptions_def)
  moreover have "6 \<in> right_columns sample_page"
    unfolding right_columns_def
    by (intro CollectI exI [of _ "Elem 6 [(''class'', ''try-out''), (''data-testid'', ''two-column-right'')] []"])
      (simp add: sample_page_def attr_is_def)
  ultimately show ?thesis by (auto simp: settle)
qed

end
