(* ===== verification/Spec2Isabelle.thy ===== *)
theory Spec2Isabelle
  imports TxExecution Encodings JsNgram JsEvmdis DocObservers
begin

text \<open>
  \<^bold>\<open>A verification development for the VeChain Thor node.\<close>

  The repository (src/) is a blockchain node in Go with a few scripts in JavaScript.  This library
  models the parts in which a transaction is executed and traced: transactions and the purchase of
  gas, the runtime that executes their clauses, the virtual machine, the state it works on, the adapter
  between the two, the built-in contracts that keep the books, the scripts that trace an execution, and
  two page scripts; beside them stand three small encodings of the storage and of the block header.

  \<^bold>\<open>Conventions.\<close>  Machine integers are words of their width, \<open>big.Int\<close> is \<open>int\<close>, byte slices are lists.
  A Go panic is the value \<open>None\<close>; a Go error is a value of a sum type or of the type \<open>error\<close>.  Go interfaces
  are records of functions.  Third-party packages (go-ethereum's \<open>params\<close> and \<open>crypto\<close>, \<open>uint256\<close>, RLP,
  the key-value store, the browser, the goja runtime) are arguments; what is assumed of them are named
  predicates, such as \<open>env_ok\<close>, \<open>healthy\<close>, \<open>rlp_ok\<close> and \<open>codecs_ok\<close>, and every property that has such a premise has a
  witness with a concrete instance.

  \<^bold>\<open>Theories.\<close>
  \<^item> Prelude: types, byte strings and generic lemmas.
  \<^item> VmTypes, VmMemory, VmContract, VmGas, VmEvm, VmInstr, VmJumpTable, VmInterp (src/vm): the model of
    the virtual machine.  \<open>M\<close> holds the local variables of one run of \<open>Interpreter.Run\<close>, \<open>EVM\<close> the mutable
    fields of the machine, \<open>Env\<close> what is fixed.  \<open>operate\<close> is one iteration of the run loop, \<open>loop\<close>
    iterates it with fuel, and \<open>Call\<close>, \<open>CallCode\<close>, \<open>DelegateCall\<close>, \<open>StaticCall\<close>, \<open>Create\<close> and \<open>Create2\<close> are the
    methods of src/vm/evm.go; the record \<open>Calls\<close> ties the recursion between instructions and calls.
  \<^item> VmRegions, VmSafety, VmExec, VmOps, VmTables, VmTotal: the invariant of an execution, one lemma per
    instruction, the five instruction sets, and the theorems on whole calls.  Fuel above the amount of
    gas is enough, because every iteration that goes on consumes gas.
  \<^item> StackedMaps (src/stackedmap): the map with save and revert, refined to a stack of plain maps.
  \<^item> States (src/state): accounts, energy, code and storage over the tries, with the storage barrier of
    deleted accounts.
  \<^item> StateDbs (src/runtime/statedb): the adapter that the machine sees as its state database.
  \<^item> Runtimes (src/runtime/runtime.go, \<open>newEVM\<close>): the callbacks of the machine, over the adapter; RuntimeSafety
    proves the contract of the machine for them, with the token invariant \<open>vet_ok\<close>.
  \<^item> Clauses (src/runtime/runtime.go, \<open>PrepareClause\<close>): the execution of a clause, and read-only calls.
  \<^item> Builtins (src/builtin/energy, params, prototype): energy with its totals, parameters, and the credits
    and sponsors of a contract.
  \<^item> Transactions (src/tx, src/runtime/resolved_tx.go, src/runtime/runtime.go): transactions, intrinsic gas and
    prices, \<open>ResolveTransaction\<close>, \<open>BuyGas\<close>, and the executor with \<open>PrepareTransaction\<close>, \<open>exec_next\<close> for the
    function that \<open>PrepareNext\<close> returns, \<open>Finalize\<close> and \<open>ExecuteTransaction\<close>; TxExecution has the invariant of the
    executor and the theorems on whole transactions.
  \<^item> Encodings (src/trie/encoding.go, src/block/gas_limit.go, src/logdb/sequence.go): the keys of trie nodes, the
    gas limit of a block against its parent's, and the sequence numbers of logs.
  \<^item> OpCodes and CodeAnalysis (src/vm/opcodes.go, src/vm/analysis.go): the opcodes with their names, and
    the bitmap that tells code from push data.
  \<^item> JsHost, JsNgram, JsEvmdis (src/tracers/js): the host of the JavaScript tracers and the five tracer
    scripts.
  \<^item> DocObservers (src/api/doc): the scripts of the two documentation pages, over a document tree.

  \<^bold>\<open>What the theorems show.\<close>  Calls and creations return for every code, without a panic, and give back at
  most the gas they got; static calls keep the state.  On Thor's own state and callbacks this gives: a
  clause creates no tokens, and a failed clause or a static call leaves no trace; a transaction returns
  with a receipt or an error and charges between its intrinsic gas and its gas; a reverted transaction
  changes energy by exactly what the receipt says and nothing else.  Intrinsic gas, prices and expiration
  are exact or bounded; credits of users recover; snapshots and reverts of the adapter restore
  everything that can be read; the stacked map implements its specification; deleted accounts stay
  empty; the bitmap of the code analysis marks exactly the bytes of push data; the tracer scripts
  report what was executed.  Trie keys and log sequences are read back from their encodings, and a
  qualified gas limit is the valid one nearest to the limit asked for.

  \<^bold>\<open>Idealisations.\<close>  The hash of a code determines its length for codes up to \<open>2 ^ 40\<close> bytes (\<open>codes_ok\<close>);
  caches have no eviction; the abort flag, which another goroutine may set, is read at the head of an
  iteration.  The call hook of the machine is assumed to give back at most the gas it got; the native
  calls of Thor's built-in contracts also give back a fixed amount that the built-in code has just paid
  for the call, so the theorems on calls, clauses and transactions do not cover them (\<open>native_ok\<close>).  The
  theorems on transactions assume that the hash behind the work of the transaction is not zero, since
  the code divides by it.

  \<^bold>\<open>Not modelled.\<close>  The precompiled contracts, the ABI bindings of the native calls and the list of
  authority nodes, the code changes at fork blocks, the writing of tries (\<open>Stage\<close>), RLP encodings, consensus and
  packing, the transaction pool, the trie and storage engines, the network, the HTTP interface and the
  command line; minified third-party bundles.
\<close>

section \<open>Code analysis and jump destinations\<close>

text \<open>
  C21: Code analysis.  For every byte code the bitmap is computed without a panic, and at each
  position its bit tells exactly whether the byte is an instruction rather than push data.
\<close>

theorem codeBitmap_is_code_mask:
  "\<exists>bits. codeBitmap code = Some bits \<and>
     list_all (\<lambda>p. codeSegment bits p = Some (code_mask 0 code ! p)) [0..<length code]"
  using codeBitmap_correct [of code] by (auto simp: list_all_iff)

text \<open>
  C22: Jump destinations.  With a bitmap cache and a contract whose stored analyses belong to their
  codes, the check of a jump returns without a panic.  It accepts exactly the positions of a
  \<open>JUMPDEST\<close> byte that is an instruction, and it keeps the cache and the contract consistent.
\<close>

theorem validJumpdest_accepts_jumpdests:
  assumes "cache_ok preimage cache" and "contract_ok preimage c"
  shows "\<exists>cache' c'. validJumpdest cache c dest =
      Some (cache', c', unat dest < length (Code c) \<and> unat dest < 2 ^ 64 \<and>
        Code c ! unat dest = JUMPDEST \<and> code_mask 0 (Code c) ! unat dest) \<and>
    cache_ok preimage cache' \<and> contract_ok preimage c' \<and> c'\<lparr>analysis := analysis c\<rparr> = c"
  using assms by (rule validJumpdest_ok)

text \<open>A contract with the code \<open>PUSH1 0x5b JUMPDEST\<close>: position 1 is data, position 2 is not.\<close>

definition jump_contract :: Contract where
  "jump_contract = (NewContract 1 2 None 100)\<lparr>Code := [0x60, 0x5b, 0x5b]\<rparr>"

theorem validJumpdest_accepts_jumpdests_witness:
  "(\<exists>cache c. validJumpdest Map.empty jump_contract 1 = Some (cache, c, False)) \<and>
   (\<exists>cache c. validJumpdest Map.empty jump_contract 2 = Some (cache, c, True))"
proof -
  have ok: "cache_ok (\<lambda>_. []) Map.empty" "contract_ok (\<lambda>_. []) jump_contract"
    by (simp_all add: cache_ok_def contract_ok_def jump_contract_def NewContract_def)
  have code: "Code jump_contract = [0x60, 0x5b, 0x5b]" by (simp add: jump_contract_def)
  have size: "push_size 0x60 = 1" "push_size 0x5b = 0" by (simp_all add: push_size_def IsPush_iff)
  show ?thesis
    using validJumpdest_accepts_jumpdests [OF ok, of 1] validJumpdest_accepts_jumpdests [OF ok, of 2]
    unfolding code by (auto simp: size)
qed

section \<open>Names of opcodes\<close>

text \<open>
  C31: Opcode names.  No two of the 256 opcodes print alike, also among those without a name.  Parsing
  the printed form gives the opcode back exactly for the named opcodes other than the pseudo opcodes
  PUSH, DUP and SWAP; for all others it gives STOP.  A string that parses to something other than STOP
  is what the opcode prints.
\<close>

theorem opcode_names_round_trip:
  "inj String \<and> StringToOp (String op) = (if named op then op else STOP) \<and>
   (StringToOp s = STOP \<or> String (StringToOp s) = s)"
  using String_inj StringToOp_String String_StringToOp by blast

section \<open>Memory as the scripts see it\<close>

text \<open>
  C29: Memory slices.  For bounds in the range of int64, \<open>memory.slice\<close> never panics.  It returns the
  bytes of memory padded with zeros; it fails on a negative start, on an end before the start, and
  when the padding would exceed one mebibyte.
\<close>

theorem memory_slice_is_padded_read:
  assumes "- (2 ^ 63) \<le> b" and "b < 2 ^ 63" and "- (2 ^ 63) \<le> e" and "e < 2 ^ 63"
  shows "memoryObj_slice m b e = Some
    (if e = b then Inr []
     else if e < b \<or> b < 0 then Inl (MemoryOutOfBound b e)
     else if e - int (Len m) > 1024 * 1024 then Inl (PaddingLimit (e - int (Len m)))
     else Inr (map (\<lambda>i. mem_byte m (nat b + i)) [0..<nat (e - b)]))"
  using assms by (rule memoryObj_slice_spec)

theorem memory_slice_is_padded_read_witness:
  "memoryObj_slice \<lparr>store = [7, 8], lastGasCost = 0\<rparr> 1 4 = Some (Inr [8, 0, 0])"
  using memory_slice_is_padded_read [of 1 4 "\<lparr>store = [7, 8], lastGasCost = 0\<rparr>"]
  by (simp add: Len_def mem_byte_def upt_rec)

text \<open>
  C30: Wrap-around of \<open>memory.getUint\<close>.  For an address within 32 of the largest int64 the bound
  check overflows: the script reads zero instead of getting the out-of-bound error.
\<close>

theorem memory_getUint_overflow_reads_zero:
  assumes "int (Len m) < 2 ^ 63 - 32" and "2 ^ 63 - 32 \<le> addr" and "addr < 2 ^ 63"
  shows "memoryObj_getUint m addr = Some (Inr 0)"
  using assms by (rule memoryObj_getUint_wraps)

theorem memory_getUint_overflow_reads_zero_witness:
  "memoryObj_getUint NewMemory (2 ^ 63 - 1) = Some (Inr 0)"
  using memory_getUint_overflow_reads_zero [of NewMemory "2 ^ 63 - 1"]
  by (simp add: NewMemory_def Len_def)

end
